(* ===== verification/Prelude.thy ===== *)
theory Prelude
  imports Main
begin

text \<open>
  Shared vocabulary of the development.
  \<^item> \<open>error\<close>: the Python exceptions that the script can raise or let escape
    (from \<open>subprocess\<close>, \<open>json\<close> (including the \<open>ValueError\<close> of the integer
    digit limit), \<open>pathlib\<close>, dictionary and list subscripts,
    attribute access on \<open>None\<close>, \<open>argparse\<close>'s \<open>parser.error\<close> (exit status 2),
    and the \<open>SystemExit\<close> of \<open>sys.exit(n)\<close>, which \<open>--help\<close> raises with status 0).
  \<^item> \<open>('s, 'a) py\<close>: a Python statement sequence over a state \<open>'s\<close>: it returns a
    value or raises, and in both cases the effects done before the raise persist.
    \<open>pbind\<close> sequences two computations and stops at the first exception, as Python does.
    \<open>py_map\<close> is a list comprehension whose element expression has effects, \<open>py_for\<close>
    a \<open>for\<close> statement.
  \<^item> string helpers that mirror Python's \<open>str.split(sep)\<close> and \<open>sep.join(xs)\<close>, with
    the separator lemmas the ARN and path proofs share.
\<close>

named_theorems py_run "evaluation rules of the exception-state monad"

datatype error =
    CalledProcessError int "string list"
  | FileNotFoundError string
  | FileExistsError string
  | NotADirectoryError string
  | IsADirectoryError string
  | JSONDecodeError
  | KeyError string
  | IndexError
  | TypeError
  | ValueError string
  | AttributeError string
  | ParserExit string
  | SystemExit int

type_synonym ('s, 'a) py = "'s \<Rightarrow> (error + 'a) \<times> 's"

definition preturn :: "'a \<Rightarrow> ('s, 'a) py" where
  "preturn x s = (Inr x, s)"

definition praise :: "error \<Rightarrow> ('s, 'a) py" where
  "praise e s = (Inl e, s)"

definition pbind :: "('s, 'a) py \<Rightarrow> ('a \<Rightarrow> ('s, 'b) py) \<Rightarrow> ('s, 'b) py" where
  "pbind m f s = (case m s of (Inl e, s') \<Rightarrow> (Inl e, s') | (Inr x, s') \<Rightarrow> f x s')"

definition pgets :: "('s \<Rightarrow> 'a) \<Rightarrow> ('s, 'a) py" where
  "pgets f s = (Inr (f s), s)"

definition pmodify :: "('s \<Rightarrow> 's) \<Rightarrow> ('s, unit) py" where
  "pmodify f s = (Inr (), f s)"

primrec py_map :: "('a \<Rightarrow> ('s, 'b) py) \<Rightarrow> 'a list \<Rightarrow> ('s, 'b list) py" where
  "py_map f [] = preturn []"
| "py_map f (x # xs) = pbind (f x) (\<lambda>y. pbind (py_map f xs) (\<lambda>ys. preturn (y # ys)))"

primrec py_for :: "'a list \<Rightarrow> ('a \<Rightarrow> ('s, unit) py) \<Rightarrow> ('s, unit) py" where
  "py_for [] f = preturn ()"
| "py_for (x # xs) f = pbind (f x) (\<lambda>_. py_for xs f)"

text \<open>
  \<open>preserves I m\<close>: whatever \<open>m\<close> returns or raises, it keeps the state invariant
  \<open>I\<close>. It composes along \<open>pbind\<close>, \<open>py_map\<close> and \<open>py_for\<close>.
\<close>

definition preserves :: "('s \<Rightarrow> bool) \<Rightarrow> ('s, 'a) py \<Rightarrow> bool" where
  "preserves I m \<longleftrightarrow> (\<forall>s r s'. I s \<longrightarrow> m s = (r, s') \<longrightarrow> I s')"

text \<open>\<open>raises_only P m\<close>: every exception \<open>m\<close> can raise satisfies \<open>P\<close>.\<close>

definition raises_only :: "(error \<Rightarrow> bool) \<Rightarrow> ('s, 'a) py \<Rightarrow> bool" where
  "raises_only P m \<longleftrightarrow> (\<forall>s e s'. m s = (Inl e, s') \<longrightarrow> P e)"

text \<open>Python's \<open>s.split(c)\<close> for a one-character separator, and \<open>sep.join(ws)\<close>.\<close>

fun split_on :: "char \<Rightarrow> string \<Rightarrow> string list" where
  "split_on c [] = [[]]"
| "split_on c (x # xs) =
     (if x = c then [] # split_on c xs
      else (let r = split_on c xs in (x # hd r) # tl r))"

fun join_with :: "string \<Rightarrow> string list \<Rightarrow> string" where
  "join_with sep [] = []"
| "join_with sep [w] = w"
| "join_with sep (w # v # ws) = w @ sep @ join_with sep (v # ws)"

subsection \<open>The monad\<close>

declare preturn_def [py_run] praise_def [py_run] pgets_def [py_run] pmodify_def [py_run]
  pbind_def [py_run]

lemma pbind_Inr [py_run]: "m s = (Inr x, s') \<Longrightarrow> pbind m f s = f x s'"
  by (simp add: pbind_def)

lemma pbind_Inl [py_run]: "m s = (Inl e, s') \<Longrightarrow> pbind m f s = (Inl e, s')"
  by (simp add: pbind_def)

lemma pbind_preturn [simp]: "pbind (preturn x) f = f x"
  by (simp add: pbind_def preturn_def fun_eq_iff)

lemma pbind_praise [simp]: "pbind (praise e) f = praise e"
  by (simp add: pbind_def praise_def fun_eq_iff)

lemma pbind_pgets [simp]: "pbind (pgets g) f s = f (g s) s"
  by (simp add: pbind_def pgets_def)

lemma pbind_pmodify [simp]: "pbind (pmodify g) f s = f () (g s)"
  by (simp add: pbind_def pmodify_def)

lemma pbind_assoc [simp]: "pbind (pbind m f) g = pbind m (\<lambda>x. pbind (f x) g)"
  by (simp add: pbind_def fun_eq_iff split: prod.splits sum.splits)

lemma pbind_cases:
  assumes "pbind m f s = (r, t)"
  obtains e where "m s = (Inl e, t)" and "r = Inl e"
  | x s' where "m s = (Inr x, s')" and "f x s' = (r, t)"
  using assms by (cases "m s" rule: prod.exhaust) (auto simp: pbind_def split: sum.splits)

lemma py_map_pure: "py_map (\<lambda>x. preturn (g x)) xs = preturn (map g xs)"
  by (induction xs) simp_all

lemma py_for_append: "py_for (xs @ ys) f = pbind (py_for xs f) (\<lambda>_. py_for ys f)"
  by (induction xs) (simp_all add: pbind_assoc)

subsection \<open>Invariants of computations\<close>

lemma preservesI: "(\<And>s r s'. I s \<Longrightarrow> m s = (r, s') \<Longrightarrow> I s') \<Longrightarrow> preserves I m"
  by (simp add: preserves_def)

lemma preservesD: "preserves I m \<Longrightarrow> I s \<Longrightarrow> m s = (r, s') \<Longrightarrow> I s'"
  by (simp add: preserves_def)

lemma preserves_preturn [intro!]: "preserves I (preturn x)"
  and preserves_praise [intro!]: "preserves I (praise e)"
  and preserves_pgets [intro!]: "preserves I (pgets f)"
  by (auto simp: preserves_def preturn_def praise_def pgets_def)

lemma preserves_pmodify: "(\<And>s. I s \<Longrightarrow> I (f s)) \<Longrightarrow> preserves I (pmodify f)"
  by (simp add: preserves_def pmodify_def)

lemma preserves_pbind [intro]:
  assumes m: "preserves I m" and f: "\<And>x. preserves I (f x)"
  shows "preserves I (pbind m f)"
proof (rule preservesI)
  fix s r s' assume I: "I s" and run: "pbind m f s = (r, s')"
  from run show "I s'"
  proof (cases rule: pbind_cases)
    case (1 e)
    with m I show ?thesis by (blast intro: preservesD)
  next
    case (2 x s1)
    from m I \<open>m s = (Inr x, s1)\<close> have "I s1" by (rule preservesD)
    with f \<open>f x s1 = (r, s')\<close> show ?thesis by (blast intro: preservesD)
  qed
qed

lemma preserves_py_map [intro]: "(\<And>x. preserves I (f x)) \<Longrightarrow> preserves I (py_map f xs)"
  by (induction xs) auto

lemma preserves_py_for [intro]: "(\<And>x. preserves I (f x)) \<Longrightarrow> preserves I (py_for xs f)"
  by (induction xs) auto

lemma raises_onlyD: "raises_only P m \<Longrightarrow> m s = (Inl e, s') \<Longrightarrow> P e"
  unfolding raises_only_def by blast

lemma raises_only_preturn [intro!]: "raises_only P (preturn x)"
  and raises_only_pgets [intro!]: "raises_only P (pgets f)"
  and raises_only_pmodify [intro!]: "raises_only P (pmodify g)"
  by (simp_all add: raises_only_def preturn_def pgets_def pmodify_def)

lemma raises_only_praise [intro]: "P e \<Longrightarrow> raises_only P (praise e)"
  by (simp add: raises_only_def praise_def)

lemma raises_only_pbind [intro]:
  assumes "raises_only P m" and "\<And>x. raises_only P (f x)"
  shows "raises_only P (pbind m f)"
  unfolding raises_only_def
proof (intro allI impI)
  fix s e s' assume run: "pbind m f s = (Inl e, s')"
  show "P e"
  proof (cases "m s")
    case (Pair r s1)
    show ?thesis
    proof (cases r)
      case (Inl e1)
      with run Pair have "m s = (Inl e, s')" by (simp add: pbind_def)
      with assms(1) show ?thesis by (rule raises_onlyD)
    next
      case (Inr x)
      with run Pair have "f x s1 = (Inl e, s')" by (simp add: pbind_def)
      with assms(2) show ?thesis by (rule raises_onlyD)
    qed
  qed
qed

lemma raises_only_py_map [intro]: "(\<And>x. raises_only P (f x)) \<Longrightarrow> raises_only P (py_map f xs)"
  by (induction xs) auto

lemma raises_only_py_for [intro]: "(\<And>x. raises_only P (f x)) \<Longrightarrow> raises_only P (py_for xs f)"
  by (induction xs) auto

subsection \<open>Separators\<close>

lemma split_on_not_Nil [simp]: "split_on c s \<noteq> []"
  by (induction c s rule: split_on.induct) (simp_all add: Let_def)

lemma split_on_no_sep: "c \<notin> set s \<Longrightarrow> split_on c s = [s]"
  by (induction c s rule: split_on.induct) (auto simp: Let_def)

lemma split_on_append_sep:
  "c \<notin> set w \<Longrightarrow> split_on c (w @ c # s) = w # split_on c s"
  by (induction w) (auto simp: Let_def)

lemma split_on_join_with:
  "ws \<noteq> [] \<Longrightarrow> \<forall>w \<in> set ws. c \<notin> set w \<Longrightarrow> split_on c (join_with [c] ws) = ws"
proof (induction "[c]" ws rule: join_with.induct)
  case (2 w)
  then show ?case by (simp add: split_on_no_sep)
next
  case (3 w v ws)
  then show ?case by (simp add: split_on_append_sep)
qed simp

lemma join_with_Cons: "join_with sep (w # ws) = (if ws = [] then w else w @ sep @ join_with sep ws)"
  by (cases ws) simp_all

lemma join_with_split_on: "join_with [c] (split_on c s) = s"
proof (induction c s rule: split_on.induct)
  case (2 c x xs)
  show ?case
  proof (cases "x = c")
    case True
    with "2.IH"(1) show ?thesis by (simp add: join_with_Cons)
  next
    case False
    obtain w ws where r: "split_on c xs = w # ws"
      using split_on_not_Nil by (metis list.exhaust)
    from "2.IH"(2) False r show ?thesis
      by (simp add: Let_def join_with_Cons split: if_splits)
  qed
qed simp

lemma join_with_snoc:
  "join_with sep (ws @ [w]) = (if ws = [] then w else join_with sep ws @ sep @ w)"
  by (induction sep ws rule: join_with.induct) simp_all

lemma last_join_with:
  "ws \<noteq> [] \<Longrightarrow> last ws \<noteq> [] \<Longrightarrow> last (join_with sep ws) = last (last ws)"
  by (cases ws rule: rev_cases) (simp_all add: join_with_snoc)

lemma split_on_sep_free: "w \<in> set (split_on c s) \<Longrightarrow> c \<notin> set w"
proof (induction c s arbitrary: w rule: split_on.induct)
  case (2 c x xs)
  then show ?case
    by (cases "split_on c xs") (auto simp: Let_def split: if_splits)
qed simp

lemma sep_append_inj:
  assumes "xs @ c # ys = xs' @ c # ys'" and "c \<notin> set xs" and "c \<notin> set xs'"
  shows "xs = xs' \<and> ys = ys'"
  using assms
proof (induction xs arbitrary: xs')
  case Nil
  then show ?case by (cases xs') auto
next
  case (Cons x xs)
  show ?case
  proof (cases xs')
    case Nil
    with Cons.prems show ?thesis by auto
  next
    case (Cons y zs)
    with Cons.prems have "x = y" and "xs @ c # ys = zs @ c # ys'" and "c \<notin> set xs"
      and "c \<notin> set zs" by auto
    with Cons.IH Cons show ?thesis by blast
  qed
qed

end
