(* ===== verification/Json.thy ===== *)
theory Json
  imports Prelude
begin

text \<open>
  Python values built from JSON: what \<open>json.loads\<close> returns and what the module's
  \<open>ROLE_TEMPLATE\<close> and \<open>POLICY_TEMPLATE\<close> hold. A dictionary is an association
  list in insertion order (Python dictionaries keep it), with keys that are strings or
  integers. The theory gives the operations of the Python data model that the script
  uses on these values:
  \<^item> \<open>py_truthy\<close>: truth testing, used by \<open>if not AWS_ACCOUNT_ID\<close>;
  \<^item> \<open>py_str\<close> and \<open>py_repr\<close>: \<open>str()\<close> and \<open>repr()\<close>, which an f-string
    replacement field \<open>{x}\<close> applies to its value;
  \<^item> \<open>py_getitem\<close>, \<open>py_setitem\<close> and \<open>set_path\<close>: \<open>x[k]\<close>, \<open>x[k] = v\<close> and a
    chained assignment \<open>x[k1]...[kn] = v\<close>, with Python's \<open>KeyError\<close>,
    \<open>IndexError\<close> and \<open>TypeError\<close> as values.
  Floats are not modelled: no JSON document the script reads or writes contains one.
  A string is a sequence of code points below U+0100, one \<open>char\<close> each (Python's
  \<open>str\<close> restricted to Latin-1); text beyond U+00FF is not modelled.
\<close>

datatype key = KStr string | KInt int

datatype json =
    JNull
  | JBool bool
  | JInt int
  | JStr string
  | JList "json list"
  | JObj "(key \<times> json) list"

subsection \<open>Truth testing\<close>

fun py_truthy :: "json \<Rightarrow> bool" where
  "py_truthy JNull = False"
| "py_truthy (JBool b) = b"
| "py_truthy (JInt i) = (i \<noteq> 0)"
| "py_truthy (JStr s) = (s \<noteq> [])"
| "py_truthy (JList xs) = (xs \<noteq> [])"
| "py_truthy (JObj kvs) = (kvs \<noteq> [])"

subsection \<open>\<open>str\<close> and \<open>repr\<close>\<close>

fun nat_str :: "nat \<Rightarrow> string" where
  "nat_str n = (if n < 10 then [char_of (48 + n)] else nat_str (n div 10) @ [char_of (48 + n mod 10)])"

definition int_str :: "int \<Rightarrow> string" where
  "int_str i = (if i < 0 then CHR ''-'' # nat_str (nat (- i)) else nat_str (nat i))"

definition hex_digit :: "nat \<Rightarrow> char" where
  "hex_digit d = (if d < 10 then char_of (48 + d) else char_of (87 + d))"

text \<open>
  CPython's \<open>unicode_repr\<close>: single quotes unless the text contains a single quote
  and no double quote; the chosen quote and the backslash are escaped, tab, newline and
  carriage return get their escapes, and the other characters that are not printable
  (the controls, U+007F to U+00A0 and the soft hyphen U+00AD) become \<open>\xhh\<close>.
\<close>

definition repr_quote :: "string \<Rightarrow> char" where
  "repr_quote s = (if CHR 0x27 \<in> set s \<and> CHR 0x22 \<notin> set s then CHR 0x22 else CHR 0x27)"

definition repr_char :: "char \<Rightarrow> char \<Rightarrow> string" where
  "repr_char q c =
     (if c = q \<or> c = CHR 0x5C then [CHR 0x5C, c]
      else if c = CHR 0x09 then [CHR 0x5C, CHR ''t'']
      else if c = CHR 0x0A then [CHR 0x5C, CHR ''n'']
      else if c = CHR 0x0D then [CHR 0x5C, CHR ''r'']
      else if of_char c < (32::nat) \<or> (127 \<le> (of_char c :: nat) \<and> of_char c \<le> (160::nat)) \<or> of_char c = (173::nat)
        then [CHR 0x5C, CHR ''x'', hex_digit (of_char c div 16), hex_digit (of_char c mod 16)]
      else [c])"

definition str_repr :: "string \<Rightarrow> string" where
  "str_repr s = (let q = repr_quote s in q # concat (map (repr_char q) s) @ [q])"

fun key_repr :: "key \<Rightarrow> string" where
  "key_repr (KStr s) = str_repr s"
| "key_repr (KInt i) = int_str i"

fun py_repr :: "json \<Rightarrow> string" where
  "py_repr JNull = ''None''"
| "py_repr (JBool b) = (if b then ''True'' else ''False'')"
| "py_repr (JInt i) = int_str i"
| "py_repr (JStr s) = str_repr s"
| "py_repr (JList xs) = CHR ''['' # join_with '', '' (map py_repr xs) @ '']''"
| "py_repr (JObj kvs) =
     CHR ''{'' # join_with '', '' (map (\<lambda>(k, v). key_repr k @ '': '' @ py_repr v) kvs) @ ''}''"

fun py_str :: "json \<Rightarrow> string" where
  "py_str (JStr s) = s"
| "py_str v = py_repr v"

subsection \<open>Subscripts\<close>

text \<open>Python's index normalisation for sequences: a negative index counts from the end.\<close>

definition seq_index :: "nat \<Rightarrow> int \<Rightarrow> nat option" where
  "seq_index n i = (let j = (if i < 0 then int n + i else i) in
                    if 0 \<le> j \<and> j < int n then Some (nat j) else None)"

fun py_getitem :: "json \<Rightarrow> key \<Rightarrow> error + json" where
  "py_getitem (JObj kvs) k =
     (case map_of kvs k of None \<Rightarrow> Inl (KeyError (key_repr k)) | Some v \<Rightarrow> Inr v)"
| "py_getitem (JList xs) (KInt i) =
     (case seq_index (length xs) i of None \<Rightarrow> Inl IndexError | Some j \<Rightarrow> Inr (xs ! j))"
| "py_getitem (JStr s) (KInt i) =
     (case seq_index (length s) i of None \<Rightarrow> Inl IndexError | Some j \<Rightarrow> Inr (JStr [s ! j]))"
| "py_getitem _ _ = Inl TypeError"

text \<open>\<open>d[k] = v\<close> on a dictionary overwrites the value in place or appends a new key.\<close>

fun dict_set :: "(key \<times> json) list \<Rightarrow> key \<Rightarrow> json \<Rightarrow> (key \<times> json) list" where
  "dict_set [] k v = [(k, v)]"
| "dict_set ((k', v') # kvs) k v =
     (if k' = k then (k, v) # kvs else (k', v') # dict_set kvs k v)"

fun py_setitem :: "json \<Rightarrow> key \<Rightarrow> json \<Rightarrow> error + json" where
  "py_setitem (JObj kvs) k v = Inr (JObj (dict_set kvs k v))"
| "py_setitem (JList xs) (KInt i) v =
     (case seq_index (length xs) i of None \<Rightarrow> Inl IndexError | Some j \<Rightarrow> Inr (JList (xs[j := v])))"
| "py_setitem _ _ _ = Inl TypeError"

text \<open>
  \<open>x[k1][k2]...[kn] = v\<close>: the subscripts \<open>x[k1]...[k(n-1)]\<close> are read in order,
  then the last one is assigned. Python mutates the innermost container in place; the
  containers here are not shared, so writing the changed child back up the path gives
  the same value.
\<close>

fun set_path :: "key list \<Rightarrow> json \<Rightarrow> json \<Rightarrow> error + json" where
  "set_path [] v x = Inr v"
| "set_path [k] v x = py_setitem x k v"
| "set_path (k # k' # ks) v x =
     (case py_getitem x k of
        Inl e \<Rightarrow> Inl e
      | Inr c \<Rightarrow> (case set_path (k' # ks) v c of
                   Inl e \<Rightarrow> Inl e
                 | Inr c' \<Rightarrow> py_setitem x k c'))"

fun get_path :: "key list \<Rightarrow> json \<Rightarrow> error + json" where
  "get_path [] x = Inr x"
| "get_path (k # ks) x = (case py_getitem x k of Inl e \<Rightarrow> Inl e | Inr c \<Rightarrow> get_path ks c)"

subsection \<open>Well-formed values\<close>

text \<open>A Python dictionary has each key once.\<close>

fun json_wf :: "json \<Rightarrow> bool" where
  "json_wf (JList xs) = (\<forall>x \<in> set xs. json_wf x)"
| "json_wf (JObj kvs) = (distinct (map fst kvs) \<and> (\<forall>kv \<in> set kvs. json_wf (snd kv)))"
| "json_wf _ = True"

subsection \<open>Subscript assignment and lookup\<close>


lemma map_of_dict_set [simp]: "map_of (dict_set kvs k v) = (map_of kvs)(k \<mapsto> v)"
  by (induction kvs k v rule: dict_set.induct) (auto simp: fun_eq_iff)

lemma dict_set_twice [simp]: "dict_set (dict_set kvs k v) k w = dict_set kvs k w"
  by (induction kvs k v rule: dict_set.induct) auto

lemma seq_index_Some: "seq_index n i = Some j \<Longrightarrow> j < n"
  by (auto simp: seq_index_def Let_def split: if_splits)

lemma set_dict_set: "set (dict_set kvs k v) \<subseteq> insert (k, v) (set kvs)"
  by (induction kvs k v rule: dict_set.induct) auto

lemma keys_dict_set: "fst ` set (dict_set kvs k v) = insert k (fst ` set kvs)"
  by (induction kvs k v rule: dict_set.induct) auto

lemma distinct_dict_set: "distinct (map fst kvs) \<Longrightarrow> distinct (map fst (dict_set kvs k v))"
proof (induction kvs k v rule: dict_set.induct)
  case (2 k' v' kvs k v)
  have "k' \<notin> fst ` set (dict_set kvs k v)" if "k' \<noteq> k"
    using 2 that by (simp add: keys_dict_set)
  with 2 show ?case by auto
qed simp

lemma py_getitem_setitem:
  "py_setitem x k v = Inr y \<Longrightarrow> py_getitem y k = Inr v"
proof (induction x k v rule: py_setitem.induct)
  case (2 xs i v)
  then obtain j where j: "seq_index (length xs) i = Some j" and y: "y = JList (xs[j := v])"
    by (auto split: option.splits)
  from j have "j < length xs" by (rule seq_index_Some)
  with j y show ?case by simp
qed auto

lemma py_setitem_twice:
  "py_setitem x k v = Inr y \<Longrightarrow> py_setitem y k w = py_setitem x k w"
  by (induction x k v rule: py_setitem.induct) (auto split: option.splits)

lemma set_path_twice:
  "set_path p v x = Inr y \<Longrightarrow> set_path p w y = set_path p w x"
proof (induction p v x arbitrary: y rule: set_path.induct)
  case (2 k v x)
  then show ?case by (simp add: py_setitem_twice)
next
  case (3 k k' ks v x)
  from "3.prems" obtain c c' where get: "py_getitem x k = Inr c"
    and sub: "set_path (k' # ks) v c = Inr c'" and set: "py_setitem x k c' = Inr y"
    by (auto split: sum.splits)
  have "py_getitem y k = Inr c'" using set by (rule py_getitem_setitem)
  moreover have "set_path (k' # ks) w c' = set_path (k' # ks) w c"
    using "3.IH" [OF get sub] .
  ultimately show ?case
    using get set by (simp add: py_setitem_twice split: sum.splits)
qed simp

text \<open>
  A chained subscript assignment \<open>x[k1]...[kn] = v\<close> that succeeds can be read
  back: \<open>x[k1]...[kn]\<close> on the result is \<open>v\<close>, for dictionaries and lists alike.
\<close>

theorem get_path_set_path:
  "set_path p v x = Inr y \<Longrightarrow> get_path p y = Inr v"
proof (induction p v x arbitrary: y rule: set_path.induct)
  case (2 k v x)
  then show ?case by (simp add: py_getitem_setitem)
next
  case (3 k k' ks v x)
  from "3.prems" obtain c c' where get: "py_getitem x k = Inr c"
    and sub: "set_path (k' # ks) v c = Inr c'" and set: "py_setitem x k c' = Inr y"
    by (auto split: sum.splits)
  have "py_getitem y k = Inr c'" using set by (rule py_getitem_setitem)
  with "3.IH" [OF get sub] show ?case by simp
qed simp

lemma py_getitem_KStr_error:
  "py_getitem x (KStr k) = Inl e \<Longrightarrow> e = KeyError (key_repr (KStr k)) \<or> e = TypeError"
  by (cases x) (auto split: option.splits)

lemma json_wf_getitem: "json_wf x \<Longrightarrow> py_getitem x k = Inr c \<Longrightarrow> json_wf c"
proof (induction x k rule: py_getitem.induct)
  case (1 kvs k)
  then obtain v where "map_of kvs k = Some v" and "c = v" by (auto split: option.splits)
  with "1.prems"(1) show ?case by (auto dest: map_of_SomeD)
next
  case (2 xs i)
  then obtain j where "seq_index (length xs) i = Some j" and "c = xs ! j"
    by (auto split: option.splits)
  with "2.prems"(1) show ?case by (auto dest: seq_index_Some)
next
  case (3 s i)
  then show ?case by (auto split: option.splits)
qed simp_all

lemma json_wf_setitem:
  "json_wf x \<Longrightarrow> json_wf v \<Longrightarrow> py_setitem x k v = Inr y \<Longrightarrow> json_wf y"
proof (induction x k v rule: py_setitem.induct)
  case (1 kvs k v)
  have "\<forall>kv \<in> set (dict_set kvs k v). json_wf (snd kv)"
    using 1 set_dict_set [of kvs k v] by auto
  with 1 show ?case by (auto simp: distinct_dict_set)
next
  case (2 xs i v)
  then obtain j where y: "y = JList (xs[j := v])"
    by (auto split: option.splits)
  have "\<forall>x \<in> set (xs[j := v]). json_wf x"
    using "2.prems"(1,2) set_update_subset_insert [of xs j v] by auto
  with y show ?case by simp
qed simp_all

lemma json_wf_set_path:
  "json_wf x \<Longrightarrow> json_wf v \<Longrightarrow> set_path p v x = Inr y \<Longrightarrow> json_wf y"
proof (induction p v x arbitrary: y rule: set_path.induct)
  case (2 k v x)
  then show ?case using json_wf_setitem [OF "2.prems"(1,2)] by simp
next
  case (3 k k' ks v x)
  from "3.prems"(3) obtain c c' where get: "py_getitem x k = Inr c"
    and sub: "set_path (k' # ks) v c = Inr c'" and set: "py_setitem x k c' = Inr y"
    by (auto split: sum.splits)
  have wc: "json_wf c" using "3.prems"(1) get by (rule json_wf_getitem)
  have "json_wf c'" by (rule "3.IH" [OF get wc "3.prems"(2) sub])
  then show ?case by (rule json_wf_setitem [OF "3.prems"(1) _ set])
qed simp

end
