(* ===== verification/PosixPath.thy ===== *)
theory PosixPath
  imports Json
begin

text \<open>
  The parts of Python's \<open>pathlib\<close> (POSIX flavour, CPython 3.12) that the script uses:
  \<open>pathlib.Path(s)\<close> (\<open>parse_path\<close>, after \<open>PurePath._parse_path\<close> and
  \<open>posixpath.splitroot\<close>), \<open>str(p)\<close> (\<open>path_str\<close>), \<open>p / name\<close> (\<open>path_div\<close>,
  through \<open>posixpath.join\<close>), \<open>p.parent\<close>, and
  \<open>p.mkdir(parents=True, exist_ok=True)\<close> (\<open>path_mkdir\<close>, with \<open>os.mkdir\<close> as
  \<open>os_mkdir\<close>) on a filesystem of directories and JSON files.
  Paths are compared as parsed paths: the filesystem does not resolve \<open>..\<close>, symbolic
  links, or a relative path against the working directory, and \<open>//\<close> is a root of its
  own, as \<open>pathlib\<close> keeps it.
\<close>

record py_path =
  root :: string
  tail :: "string list"

definition slash :: char where
  "slash = CHR ''/''"

definition splitroot :: "string \<Rightarrow> string \<times> string" where
  "splitroot p =
     (if take 1 p \<noteq> [slash] then ([], p)
      else if take 1 (drop 1 p) \<noteq> [slash] \<or> take 1 (drop 2 p) = [slash]
        then ([slash], dropWhile (\<lambda>c. c = slash) p)
      else (take 2 p, drop 2 p))"

definition parse_path :: "string \<Rightarrow> py_path" where
  "parse_path s =
     (let (r, rel) = splitroot s
      in \<lparr>root = r, tail = filter (\<lambda>x. x \<noteq> [] \<and> x \<noteq> ''.'') (split_on slash rel)\<rparr>)"

definition path_str :: "py_path \<Rightarrow> string" where
  "path_str p = (let s = root p @ join_with [slash] (tail p) in if s = [] then ''.'' else s)"

definition posix_join :: "string \<Rightarrow> string \<Rightarrow> string" where
  "posix_join a b =
     (if take 1 b = [slash] \<or> a = [] then b
      else if last a = slash then a @ b
      else a @ slash # b)"

definition path_div :: "py_path \<Rightarrow> string \<Rightarrow> py_path" where
  "path_div p name = parse_path (posix_join (path_str p) name)"

definition path_parent :: "py_path \<Rightarrow> py_path" where
  "path_parent p = p\<lparr>tail := butlast (tail p)\<rparr>"

text \<open>A path as \<open>parse_path\<close> leaves it: a POSIX root and plain components.\<close>

definition path_ok :: "py_path \<Rightarrow> bool" where
  "path_ok p \<longleftrightarrow> root p \<in> {[], [slash], [slash, slash]} \<and>
     (\<forall>x \<in> set (tail p). x \<noteq> [] \<and> x \<noteq> ''.'' \<and> slash \<notin> set x)"

text \<open>The proper ancestors of a path, from its root down to its parent.\<close>

definition ancestors :: "py_path \<Rightarrow> py_path list" where
  "ancestors p = map (\<lambda>i. p\<lparr>tail := take i (tail p)\<rparr>) [0..<length (tail p)]"

subsection \<open>The filesystem and \<open>mkdir\<close>\<close>

record fs =
  dirs :: "py_path set"
  files :: "py_path \<Rightarrow> json option"

text \<open>
  \<open>os.mkdir(p)\<close>: the kernel resolves the ancestors first (a missing one is
  \<open>ENOENT\<close>, a file among them \<open>ENOTDIR\<close>), then fails with \<open>EEXIST\<close> if
  \<open>p\<close> exists.
\<close>

definition os_mkdir :: "py_path \<Rightarrow> 'a fs_scheme \<Rightarrow> error + 'a fs_scheme" where
  "os_mkdir p fs =
     (case find (\<lambda>q. q \<notin> dirs fs) (ancestors p) of
        Some q \<Rightarrow>
          if files fs q \<noteq> None then Inl (NotADirectoryError (path_str p))
          else Inl (FileNotFoundError (path_str p))
      | None \<Rightarrow>
          if p \<in> dirs fs \<or> files fs p \<noteq> None then Inl (FileExistsError (path_str p))
          else Inr (fs\<lparr>dirs := insert p (dirs fs)\<rparr>))"

text \<open>
  \<open>Path.mkdir(mode, parents, exist_ok)\<close> of CPython 3.12:
  \<^verbatim>\<open>
    try: os.mkdir(self, mode)
    except FileNotFoundError:
        if not parents or self.parent == self: raise
        self.parent.mkdir(parents=True, exist_ok=True)
        self.mkdir(mode, parents=False, exist_ok=exist_ok)
    except OSError:
        if not exist_ok or not self.is_dir(): raise
  \<close>
  Every error \<open>os_mkdir\<close> returns is an \<open>OSError\<close>.
\<close>

function path_mkdir :: "bool \<Rightarrow> bool \<Rightarrow> py_path \<Rightarrow> 'a fs_scheme \<Rightarrow> error + 'a fs_scheme" where
  "path_mkdir parents exist_ok p fs =
     (case os_mkdir p fs of
        Inr fs' \<Rightarrow> Inr fs'
      | Inl e \<Rightarrow>
          (case e of
             FileNotFoundError m \<Rightarrow>
               if \<not> parents \<or> path_parent p = p then Inl e
               else (case path_mkdir True True (path_parent p) fs of
                       Inl e' \<Rightarrow> Inl e'
                     | Inr fs' \<Rightarrow> path_mkdir False exist_ok p fs')
           | _ \<Rightarrow> if \<not> exist_ok \<or> p \<notin> dirs fs then Inl e else Inr fs))"
  by pat_completeness auto
termination
  apply (relation "measure (\<lambda>(parents, exist_ok, p, fs).
        2 * length (tail p) + (if parents then 1 else 0))")
    apply (auto simp: path_parent_def)
  subgoal for parents p by (cases "tail p") auto
  done

declare path_mkdir.simps [simp del]

text \<open>
  A filesystem as the kernel keeps it: the roots exist, every directory and file has a
  directory as its parent, and no path is both a file and a directory.
\<close>

definition fs_wf :: "'a fs_scheme \<Rightarrow> bool" where
  "fs_wf fs \<longleftrightarrow>
     (\<forall>r \<in> {[], [slash], [slash, slash]}. \<lparr>root = r, tail = []\<rparr> \<in> dirs fs) \<and>
     (\<forall>d \<in> dirs fs. path_ok d \<and> path_parent d \<in> dirs fs) \<and>
     (\<forall>f. files fs f \<noteq> None \<longrightarrow> path_ok f \<and> path_parent f \<in> dirs fs \<and> f \<notin> dirs fs)"

subsection \<open>Paths\<close>

lemma path_parent_eq: "path_parent p = p \<longleftrightarrow> tail p = []"
proof
  assume "path_parent p = p"
  then have "butlast (tail p) = tail p"
    by (metis path_parent_def py_path.select_convs(2) py_path.surjective py_path.update_convs(2))
  then show "tail p = []"
    by (metis length_butlast diff_less length_greater_0_conv less_numeral_extra(1) less_irrefl)
qed (simp add: path_parent_def)

subsection \<open>Parsing and printing are inverse\<close>

lemma join_components_facts:
  assumes "\<forall>x \<in> set xs. x \<noteq> [] \<and> x \<noteq> ''.'' \<and> slash \<notin> set x"
  shows "take 1 (join_with [slash] xs) \<noteq> [slash]"
    and "dropWhile (\<lambda>c. c = slash) (join_with [slash] xs) = join_with [slash] xs"
    and "filter (\<lambda>x. x \<noteq> [] \<and> x \<noteq> ''.'') (split_on slash (join_with [slash] xs)) = xs"
proof -
  show "filter (\<lambda>x. x \<noteq> [] \<and> x \<noteq> ''.'') (split_on slash (join_with [slash] xs)) = xs"
  proof (cases xs)
    case Nil
    then show ?thesis by simp
  next
    case (Cons y ys)
    with assms have "split_on slash (join_with [slash] xs) = xs"
      by (simp add: split_on_join_with)
    with assms show ?thesis by (simp add: filter_id_conv)
  qed
  have "take 1 (join_with [slash] xs) \<noteq> [slash] \<and>
        dropWhile (\<lambda>c. c = slash) (join_with [slash] xs) = join_with [slash] xs"
  proof (cases xs)
    case Nil
    then show ?thesis by simp
  next
    case (Cons y ys)
    with assms obtain c cs where y: "y = c # cs" and "c \<noteq> slash"
      by (cases y) auto
    with Cons show ?thesis by (simp add: join_with_Cons)
  qed
  then show "take 1 (join_with [slash] xs) \<noteq> [slash]"
    and "dropWhile (\<lambda>c. c = slash) (join_with [slash] xs) = join_with [slash] xs"
    by simp_all
qed

lemma splitroot_root: "fst (splitroot s) \<in> {[], [slash], [slash, slash]}"
proof (cases s)
  case (Cons a s')
  then show ?thesis
    by (cases s') (auto simp: splitroot_def)
qed (simp add: splitroot_def)

lemma path_ok_parse_path: "path_ok (parse_path s)"
  using splitroot_root [of s]
  by (auto simp: path_ok_def parse_path_def split_beta dest: split_on_sep_free)

lemma parse_path_str:
  assumes "path_ok p"
  shows "parse_path (path_str p) = p"
proof -
  let ?J = "join_with [slash] (tail p)"
  have comp: "\<forall>x \<in> set (tail p). x \<noteq> [] \<and> x \<noteq> ''.'' \<and> slash \<notin> set x"
    using assms by (simp add: path_ok_def)
  note J = join_components_facts [OF comp]
  have J_Nil: "?J = [] \<longleftrightarrow> tail p = []"
    using comp by (cases "tail p") (auto simp: join_with_Cons)
  have r: "root p = [] \<or> root p = [slash] \<or> root p = [slash, slash]"
    using assms by (simp add: path_ok_def)
  then show ?thesis
  proof (elim disjE)
    assume r0: "root p = []"
    show ?thesis
    proof (cases "tail p = []")
      case True
      with r0 show ?thesis
        by (simp add: path_str_def parse_path_def splitroot_def slash_def)
    next
      case False
      with r0 J J_Nil show ?thesis
        by (simp add: path_str_def parse_path_def splitroot_def)
    qed
  next
    assume "root p = [slash]"
    with J show ?thesis
      by (cases ?J) (auto simp: path_str_def parse_path_def splitroot_def)
  next
    assume "root p = [slash, slash]"
    with J show ?thesis
      by (cases ?J) (auto simp: path_str_def parse_path_def splitroot_def)
  qed
qed

lemma path_div_name:
  assumes p: "path_ok p" and name: "name \<noteq> []" "name \<noteq> ''.''" "slash \<notin> set name"
  shows "path_div p name = p\<lparr>tail := tail p @ [name]\<rparr>"
proof (cases "root p = [] \<and> tail p = []")
  case True
  have "split_on slash (''.'' @ slash # name) = ''.'' # [name]"
    using name by (simp add: split_on_append_sep split_on_no_sep slash_def)
  moreover have "take 1 name \<noteq> [slash]"
    using name by (cases name) auto
  ultimately show ?thesis
    using True name
    by (cases p) (simp add: path_div_def path_str_def posix_join_def parse_path_def
        splitroot_def slash_def)
next
  case False
  let ?q = "p\<lparr>tail := tail p @ [name]\<rparr>"
  have comp: "\<forall>x \<in> set (tail p). x \<noteq> [] \<and> x \<noteq> ''.'' \<and> slash \<notin> set x"
    and r: "root p \<in> {[], [slash], [slash, slash]}"
    using p by (simp_all add: path_ok_def)
  have q_ok: "path_ok ?q"
    using p name by (simp add: path_ok_def)
  have "posix_join (path_str p) name = path_str ?q"
  proof (cases "tail p = []")
    case True
    with False r name show ?thesis
      by (cases name) (auto simp: path_str_def posix_join_def)
  next
    case False
    then have "last (tail p) \<in> set (tail p)" by simp
    with comp have last_ok: "last (tail p) \<noteq> []" "slash \<notin> set (last (tail p))" by blast+
    then have "last (last (tail p)) \<noteq> slash"
      using last_in_set by metis
    with False last_ok have "last (join_with [slash] (tail p)) \<noteq> slash"
      by (simp add: last_join_with)
    moreover have "join_with [slash] (tail p) \<noteq> []"
      using False comp by (cases "tail p") (auto simp: join_with_Cons)
    ultimately show ?thesis
      using False name by (cases name) (auto simp: path_str_def posix_join_def join_with_snoc)
  qed
  with q_ok show ?thesis
    by (simp add: path_div_def parse_path_str)
qed

subsection \<open>Ancestor chains\<close>

lemma set_chain:
  "set (p # ancestors p) = (\<lambda>i. p\<lparr>tail := take i (tail p)\<rparr>) ` {0..length (tail p)}"
proof -
  have "{0..length (tail p)} = insert (length (tail p)) {0..<length (tail p)}" by auto
  then show ?thesis by (simp add: ancestors_def)
qed

lemma ancestors_shorter: "q \<in> set (ancestors p) \<Longrightarrow> length (tail q) < length (tail p)"
  by (auto simp: ancestors_def)

lemma ancestors_parent:
  assumes "tail p \<noteq> []"
  shows "ancestors p = ancestors (path_parent p) @ [path_parent p]"
proof -
  obtain xs x where t: "tail p = xs @ [x]"
    using assms by (cases "tail p" rule: rev_cases) auto
  have "map (\<lambda>i. p\<lparr>tail := take i (xs @ [x])\<rparr>) [0..<length xs] =
        map (\<lambda>i. p\<lparr>tail := take i xs\<rparr>) [0..<length xs]"
    by simp
  then show ?thesis
    by (simp add: ancestors_def path_parent_def t)
qed

lemma in_chain_obtain:
  assumes "q \<in> set (p # ancestors p)"
  obtains i where "i \<le> length (tail p)" and "q = p\<lparr>tail := take i (tail p)\<rparr>"
proof -
  from assms have "q \<in> (\<lambda>i. p\<lparr>tail := take i (tail p)\<rparr>) ` {0..length (tail p)}"
    by (simp only: set_chain)
  then show ?thesis using that by auto
qed

lemma path_ok_chain:
  assumes "path_ok p" and "q \<in> set (p # ancestors p)"
  shows "path_ok q"
proof -
  from assms(2) obtain i where q: "q = p\<lparr>tail := take i (tail p)\<rparr>"
    by (rule in_chain_obtain)
  have "set (take i (tail p)) \<subseteq> set (tail p)" by (rule set_take_subset)
  with assms(1) q show ?thesis by (auto simp: path_ok_def)
qed

lemma parent_in_chain:
  assumes "q \<in> set (p # ancestors p)"
  shows "path_parent q \<in> set (p # ancestors p)"
proof -
  from assms obtain i where i: "i \<le> length (tail p)" and q: "q = p\<lparr>tail := take i (tail p)\<rparr>"
    by (rule in_chain_obtain)
  then have "path_parent q = p\<lparr>tail := take (i - 1) (tail p)\<rparr>"
    by (simp add: path_parent_def butlast_take)
  moreover have "i - 1 \<in> {0..length (tail p)}" using i by simp
  ultimately have "path_parent q \<in> (\<lambda>i. p\<lparr>tail := take i (tail p)\<rparr>) ` {0..length (tail p)}"
    by (simp add: rev_image_eqI)
  then show ?thesis by (simp only: set_chain)
qed

lemma dirs_ancestors_closed:
  assumes "fs_wf fs" and "d \<in> dirs fs"
  shows "set (ancestors d) \<subseteq> dirs fs"
  using assms(2)
proof (induction "length (tail d)" arbitrary: d rule: less_induct)
  case less
  show ?case
  proof (cases "tail d = []")
    case True
    then show ?thesis by (simp add: ancestors_def)
  next
    case False
    have par: "path_parent d \<in> dirs fs"
      using assms(1) less.prems by (simp add: fs_wf_def)
    have "length (tail (path_parent d)) < length (tail d)"
      using False by (simp add: path_parent_def)
    then have "set (ancestors (path_parent d)) \<subseteq> dirs fs"
      using par by (rule less.hyps)
    with par False show ?thesis by (simp add: ancestors_parent)
  qed
qed

subsection \<open>\<open>mkdir(parents=True, exist_ok=True)\<close>\<close>

lemma find_ancestors_None:
  "set (ancestors p) \<subseteq> dirs fs \<Longrightarrow> find (\<lambda>q. q \<notin> dirs fs) (ancestors p) = None"
  by (auto simp: find_None_iff)

lemma os_mkdir_ok:
  "set (ancestors p) \<subseteq> dirs fs \<Longrightarrow> p \<notin> dirs fs \<Longrightarrow> files fs p = None \<Longrightarrow>
   os_mkdir p fs = Inr (fs\<lparr>dirs := insert p (dirs fs)\<rparr>)"
  by (simp add: os_mkdir_def find_ancestors_None)

lemma os_mkdir_exists:
  "set (ancestors p) \<subseteq> dirs fs \<Longrightarrow> p \<in> dirs fs \<Longrightarrow>
   os_mkdir p fs = Inl (FileExistsError (path_str p))"
  by (simp add: os_mkdir_def find_ancestors_None)

lemma os_mkdir_missing:
  assumes "\<not> set (ancestors p) \<subseteq> dirs fs" and "\<forall>q \<in> set (ancestors p). files fs q = None"
  shows "os_mkdir p fs = Inl (FileNotFoundError (path_str p))"
proof -
  obtain q where "find (\<lambda>q. q \<notin> dirs fs) (ancestors p) = Some q"
    using assms(1) by (cases "find (\<lambda>q. q \<notin> dirs fs) (ancestors p)") (auto simp: find_None_iff)
  moreover from this have "q \<in> set (ancestors p)"
    by (auto simp: find_Some_iff)
  ultimately show ?thesis
    using assms(2) by (simp add: os_mkdir_def)
qed


lemma path_mkdir_os_ok: "os_mkdir p fs = Inr fs' \<Longrightarrow> path_mkdir parents exist_ok p fs = Inr fs'"
  by (simp add: path_mkdir.simps [of parents exist_ok p fs])

lemma os_mkdir_file:
  "set (ancestors p) \<subseteq> dirs fs \<Longrightarrow> files fs p \<noteq> None \<Longrightarrow>
   os_mkdir p fs = Inl (FileExistsError (path_str p))"
  by (simp add: os_mkdir_def find_ancestors_None)

lemma path_mkdir_exists_not_dir:
  "os_mkdir p fs = Inl (FileExistsError m) \<Longrightarrow> p \<notin> dirs fs \<Longrightarrow>
   path_mkdir parents exist_ok p fs = Inl (FileExistsError m)"
  by (simp add: path_mkdir.simps [of parents exist_ok p fs])

lemma path_mkdir_creates:
  assumes wf: "fs_wf fs" and ok: "path_ok p"
    and nofile: "\<forall>q \<in> set (p # ancestors p). files fs q = None"
  shows "path_mkdir True True p fs = Inr (fs\<lparr>dirs := dirs fs \<union> set (p # ancestors p)\<rparr>)"
  using ok nofile
proof (induction "length (tail p)" arbitrary: p rule: less_induct)
  case less
  show ?case
  proof (cases "p \<in> dirs fs")
    case True
    have anc: "set (ancestors p) \<subseteq> dirs fs" using dirs_ancestors_closed [OF wf True] .
    have "os_mkdir p fs = Inl (FileExistsError (path_str p))" by (rule os_mkdir_exists [OF anc True])
    moreover have "dirs fs \<union> set (p # ancestors p) = dirs fs" using True anc by auto
    ultimately show ?thesis using True by (simp add: path_mkdir.simps [of True True p fs])
  next
    case new: False
    show ?thesis
    proof (cases "set (ancestors p) \<subseteq> dirs fs")
      case True
      with new less.prems have "os_mkdir p fs = Inr (fs\<lparr>dirs := insert p (dirs fs)\<rparr>)"
        by (simp add: os_mkdir_ok)
      moreover have "insert p (dirs fs) = dirs fs \<union> set (p # ancestors p)" using True by auto
      ultimately show ?thesis by (simp add: path_mkdir_os_ok)
    next
      case False
      with less.prems have miss: "os_mkdir p fs = Inl (FileNotFoundError (path_str p))"
        by (simp add: os_mkdir_missing)
      from False have tl: "tail p \<noteq> []" by (auto simp: ancestors_def)
      then have par_ne: "path_parent p \<noteq> p" by (simp add: path_parent_eq)
      have anc: "ancestors p = ancestors (path_parent p) @ [path_parent p]"
        using tl by (rule ancestors_parent)
      let ?fs1 = "fs\<lparr>dirs := dirs fs \<union> set (path_parent p # ancestors (path_parent p))\<rparr>"
      have "length (tail (path_parent p)) < length (tail p)"
        using tl by (simp add: path_parent_def)
      moreover have "path_ok (path_parent p)"
        using less.prems(1) by (rule path_ok_chain) (simp add: anc)
      moreover have "\<forall>q \<in> set (path_parent p # ancestors (path_parent p)). files fs q = None"
        using less.prems(2) by (auto simp: anc)
      ultimately have rec: "path_mkdir True True (path_parent p) fs = Inr ?fs1"
        by (rule less.hyps)
      have p_new: "p \<notin> dirs ?fs1"
        using new ancestors_shorter [of p p] by (auto simp: anc)
      have "os_mkdir p ?fs1 = Inr (?fs1\<lparr>dirs := insert p (dirs ?fs1)\<rparr>)"
        using p_new less.prems(2) by (intro os_mkdir_ok) (auto simp: anc)
      then have "path_mkdir False True p ?fs1 = Inr (?fs1\<lparr>dirs := insert p (dirs ?fs1)\<rparr>)"
        by (rule path_mkdir_os_ok)
      moreover have "insert p (dirs ?fs1) = dirs fs \<union> set (p # ancestors p)"
        by (auto simp: anc)
      ultimately show ?thesis
        using miss par_ne rec by (simp add: path_mkdir.simps [of True True p fs])
    qed
  qed
qed

lemma fs_wf_add_chain:
  assumes wf: "fs_wf fs" and ok: "path_ok p"
    and nofile: "\<forall>q \<in> set (p # ancestors p). files fs q = None"
  shows "fs_wf (fs\<lparr>dirs := dirs fs \<union> set (p # ancestors p)\<rparr>)"
proof -
  have chain: "path_ok d \<and> path_parent d \<in> set (p # ancestors p)"
    if "d \<in> set (p # ancestors p)" for d
    using path_ok_chain [OF ok that] parent_in_chain [OF that] by blast
  have "f \<notin> set (p # ancestors p)" if "files fs f \<noteq> None" for f
    using nofile that by force
  with wf chain show ?thesis
    unfolding fs_wf_def by (auto simp del: set_simps)
qed

lemma path_mkdir_file_in_way:
  assumes wf: "fs_wf fs" and ok: "path_ok p"
    and blocked: "\<exists>q \<in> set (p # ancestors p). files fs q \<noteq> None"
  shows "\<exists>e. path_mkdir True True p fs = Inl e"
  using ok blocked
proof (induction "length (tail p)" arbitrary: p rule: less_induct)
  case less
  have disj: "files fs d = None" if "d \<in> dirs fs" for d
    using wf that by (auto simp: fs_wf_def)
  show ?case
  proof (cases "p \<in> dirs fs")
    case True
    have "set (ancestors p) \<subseteq> dirs fs" using dirs_ancestors_closed [OF wf True] .
    with True less.prems(2) disj show ?thesis by auto
  next
    case new: False
    show ?thesis
    proof (cases "set (ancestors p) \<subseteq> dirs fs")
      case True
      with less.prems(2) disj have "files fs p \<noteq> None" by auto
      with True have "os_mkdir p fs = Inl (FileExistsError (path_str p))"
        by (rule os_mkdir_file)
      with new show ?thesis by (blast dest: path_mkdir_exists_not_dir)
    next
      case False
      then obtain q where q: "find (\<lambda>q. q \<notin> dirs fs) (ancestors p) = Some q"
        by (cases "find (\<lambda>q. q \<notin> dirs fs) (ancestors p)") (auto simp: find_None_iff)
      show ?thesis
      proof (cases "files fs q = None")
        case False
        with q new show ?thesis
          by (simp add: os_mkdir_def path_mkdir.simps [of True True p fs])
      next
        case True
        with q have miss: "os_mkdir p fs = Inl (FileNotFoundError (path_str p))"
          by (simp add: os_mkdir_def)
        from q have tl: "tail p \<noteq> []" by (auto simp: ancestors_def)
        then have par_ne: "path_parent p \<noteq> p" by (simp add: path_parent_eq)
        have anc: "ancestors p = ancestors (path_parent p) @ [path_parent p]"
          using tl by (rule ancestors_parent)
        have shorter: "length (tail (path_parent p)) < length (tail p)"
          using tl by (simp add: path_parent_def)
        have pok: "path_ok (path_parent p)"
          using less.prems(1) by (rule path_ok_chain) (simp add: anc)
        show ?thesis
        proof (cases "\<exists>q \<in> set (path_parent p # ancestors (path_parent p)). files fs q \<noteq> None")
          case True
          with shorter pok obtain e where "path_mkdir True True (path_parent p) fs = Inl e"
            using less.hyps by blast
          with miss par_ne show ?thesis by (simp add: path_mkdir.simps [of True True p fs])
        next
          case False
          let ?fs1 = "fs\<lparr>dirs := dirs fs \<union> set (path_parent p # ancestors (path_parent p))\<rparr>"
          from False have rec: "path_mkdir True True (path_parent p) fs = Inr ?fs1"
            using path_mkdir_creates [OF wf pok] by blast
          from False less.prems(2) have pfile: "files fs p \<noteq> None" by (auto simp: anc)
          then have "p \<notin> dirs ?fs1"
            using new ancestors_shorter [of p p] by (auto simp: anc)
          moreover have "set (ancestors p) \<subseteq> dirs ?fs1" by (auto simp: anc)
          then have "os_mkdir p ?fs1 = Inl (FileExistsError (path_str p))"
            using pfile by (intro os_mkdir_file) simp_all
          ultimately have "path_mkdir False True p ?fs1 = Inl (FileExistsError (path_str p))"
            by (rule_tac path_mkdir_exists_not_dir)
          with miss par_ne rec show ?thesis by (simp add: path_mkdir.simps [of True True p fs])
        qed
      qed
    qed
  qed
qed

subsection \<open>\<open>mkdir\<close> keeps the filesystem well formed\<close>

lemma os_mkdir_frame:
  "os_mkdir p fs = Inr fs' \<Longrightarrow> fs' = fs\<lparr>dirs := insert p (dirs fs)\<rparr> \<and> set (ancestors p) \<subseteq> dirs fs \<and>
     p \<notin> dirs fs \<and> files fs p = None"
  by (auto simp: os_mkdir_def find_None_iff split: option.splits if_splits)

lemma os_mkdir_wf:
  assumes wf: "fs_wf fs" and ok: "path_ok p" and mk: "os_mkdir p fs = Inr fs'"
  shows "fs_wf fs'"
proof -
  have fs': "fs' = fs\<lparr>dirs := insert p (dirs fs)\<rparr>" and anc: "set (ancestors p) \<subseteq> dirs fs"
    and new: "p \<notin> dirs fs" and nofile: "files fs p = None"
    using os_mkdir_frame [OF mk] by simp_all
  have "tail p \<noteq> []"
  proof
    assume "tail p = []"
    then have "p = \<lparr>root = root p, tail = []\<rparr>" by simp
    with ok wf new show False by (auto simp: path_ok_def fs_wf_def)
  qed
  then have "path_parent p \<in> set (ancestors p)" by (simp add: ancestors_parent)
  with anc have par: "path_parent p \<in> dirs fs" by blast
  show ?thesis
    using wf ok par nofile unfolding fs' fs_wf_def by auto
qed

lemma path_mkdir_wf:
  "fs_wf fs \<Longrightarrow> path_ok p \<Longrightarrow> path_mkdir parents exist_ok p fs = Inr fs' \<Longrightarrow>
   fs_wf fs' \<and> p \<in> dirs fs' \<and> fs' = fs\<lparr>dirs := dirs fs'\<rparr> \<and> dirs fs \<subseteq> dirs fs'"
proof (induction parents exist_ok p fs arbitrary: fs' rule: path_mkdir.induct)
  case (1 parents exist_ok p fs)
  show ?case
  proof (cases "os_mkdir p fs")
    case (Inr fs1)
    then have "fs' = fs1" using "1.prems"(3) by (simp add: path_mkdir.simps [of parents exist_ok p fs])
    with Inr "1.prems"(1,2) show ?thesis
      using os_mkdir_wf [OF "1.prems"(1,2) Inr] os_mkdir_frame [OF Inr] by auto
  next
    case (Inl e)
    note os = this
    show ?thesis
    proof (cases "\<exists>m. e = FileNotFoundError m")
      case False
      with os "1.prems" show ?thesis
        by (cases e) (auto simp: path_mkdir.simps [of parents exist_ok p fs] split: if_splits)
    next
      case True
      then obtain m where e: "e = FileNotFoundError m" by blast
      show ?thesis
      proof (cases "path_mkdir True True (path_parent p) fs")
        case (Inl e')
        with "1.prems"(3) os e show ?thesis
          by (simp add: path_mkdir.simps [of parents exist_ok p fs] split: if_splits)
      next
        case (Inr fs1)
        have go: "\<not> (\<not> parents \<or> path_parent p = p)"
          using "1.prems"(3) os e Inr by (auto simp: path_mkdir.simps [of parents exist_ok p fs] split: if_splits)
        have rec: "path_mkdir False exist_ok p fs1 = Inr fs'"
          using "1.prems"(3) unfolding path_mkdir.simps [of parents exist_ok p fs]
          using os e Inr go by simp
        have pok: "path_ok (path_parent p)"
          using "1.prems"(2) by (auto simp: path_ok_def path_parent_def dest: in_set_butlastD)
        have ih1: "fs_wf fs1 \<and> path_parent p \<in> dirs fs1 \<and> fs1 = fs\<lparr>dirs := dirs fs1\<rparr> \<and> dirs fs \<subseteq> dirs fs1"
          using "1.IH"(1) [OF os e go "1.prems"(1) pok Inr] .
        then have ih2: "fs_wf fs' \<and> p \<in> dirs fs' \<and> fs' = fs1\<lparr>dirs := dirs fs'\<rparr> \<and> dirs fs1 \<subseteq> dirs fs'"
          using "1.IH"(2) [OF os e go Inr _ "1.prems"(2) rec] by blast
        have upd: "fs1 = fs\<lparr>dirs := X\<rparr> \<Longrightarrow> fs1\<lparr>dirs := dirs fs'\<rparr> = fs\<lparr>dirs := dirs fs'\<rparr>" for X
          by simp
        have "fs1\<lparr>dirs := dirs fs'\<rparr> = fs\<lparr>dirs := dirs fs'\<rparr>"
          using ih1 by (blast intro: upd)
        with ih1 ih2 show ?thesis by auto
      qed
    qed
  qed
qed

lemma path_mkdir_files:
  "path_mkdir parents exist_ok p fs = Inr fs' \<Longrightarrow> files fs' = files fs"
proof (induction parents exist_ok p fs arbitrary: fs' rule: path_mkdir.induct)
  case (1 parents exist_ok p fs)
  show ?case
  proof (cases "os_mkdir p fs")
    case (Inr fs1)
    then have "fs' = fs1" using "1.prems" by (simp add: path_mkdir.simps [of parents exist_ok p fs])
    moreover have "fs1 = fs\<lparr>dirs := insert p (dirs fs)\<rparr>" using os_mkdir_frame [OF Inr] by simp
    ultimately show ?thesis by simp
  next
    case (Inl e)
    note def = path_mkdir.simps [of parents exist_ok p fs]
    show ?thesis
    proof (cases "(\<exists>m. e = FileNotFoundError m) \<and> parents \<and> path_parent p \<noteq> p")
      case True
      then obtain m where m: "e = FileNotFoundError m" and par: "\<not> (\<not> parents \<or> path_parent p = p)" by auto
      obtain fs2 where p1: "path_mkdir True True (path_parent p) fs = Inr fs2"
        and p2: "path_mkdir False exist_ok p fs2 = Inr fs'"
        using "1.prems" Inl m par def by (auto split: sum.splits)
      have "files fs2 = files fs" using "1.IH"(1) [OF Inl m par] p1 by blast
      moreover have "files fs' = files fs2" using "1.IH"(2) [OF Inl m par p1] p2 by blast
      ultimately show ?thesis by simp
    next
      case False
      then have "fs' = fs" using "1.prems" Inl def by (cases e) (auto split: if_splits)
      then show ?thesis by simp
    qed
  qed
qed

lemma fs_wf_add_file:
  assumes "fs_wf fs" and "path_ok f" and "path_parent f \<in> dirs fs" and "f \<notin> dirs fs"
  shows "fs_wf (fs\<lparr>files := (files fs)(f \<mapsto> v)\<rparr>)"
  using assms unfolding fs_wf_def by auto

subsection \<open>Printing and parsing\<close>

text \<open>
  \<open>str\<close> and \<open>pathlib.Path\<close> are inverse on parsed paths: a path prints and
  parses back to itself exactly when it has a POSIX root and plain components
  (no empty or \<open>.\<close> component, no slash inside one), which is the form every
  \<open>pathlib.Path(s)\<close> has.
\<close>

theorem path_str_roundtrip: "parse_path (path_str p) = p \<longleftrightarrow> path_ok p"
  using parse_path_str path_ok_parse_path by metis

end
