(* ===== verification/Process.thy ===== *)
theory Process
  imports PosixPath
begin

text \<open>
  The state of one run of createrole.py, and its two primitive effects.
  \<^item> \<open>pstate\<close> extends the filesystem with an event log (standard output lines,
    external commands started, JSON files written, in order) and the module's
    globals: \<open>AWS_ACCOUNT_ID\<close>, \<open>ARGS\<close>, and the current values of the mutable
    dictionaries \<open>ROLE_TEMPLATE\<close> and \<open>POLICY_TEMPLATE\<close>.
  \<^item> \<open>tools\<close> is the environment: the outcome of starting a command, given the
    commands started before it. It stands for the \<open>aws\<close> and \<open>eksctl\<close> binaries and
    the cloud behind them; every theorem holds for every environment unless it says
    otherwise. Captured standard output is given as what \<open>json.loads\<close> makes of it
    (\<open>None\<close> when it is not JSON).
  \<^item> \<open>run_command\<close> (createrole.py lines 40-43) prints the command and runs it through
    \<open>subprocess.run\<close>; \<open>check=True\<close> turns a non-zero exit status into
    \<open>CalledProcessError\<close>, a missing executable is \<open>FileNotFoundError\<close> in all cases.
  \<^item> \<open>json_dump_file\<close> is \<open>json.dump(doc, path.open("w"))\<close>.
\<close>

record args =
  accountname :: string
  clustername :: string
  region :: "string option"
  usernames :: "string list"
  workingdir :: py_path

datatype event =
    Stdout string
  | Exec "string list"
  | WriteJson py_path json

record pstate = fs +
  log :: "event list"
  AWS_ACCOUNT_ID :: "json option"
  ARGS :: "args option"
  role_template :: json
  policy_template :: json

datatype outcome = NotFound | Completed int "json option"

type_synonym tools = "string list list \<Rightarrow> string list \<Rightarrow> outcome"

fun calls_of :: "event list \<Rightarrow> string list list" where
  "calls_of [] = []"
| "calls_of (Exec c # es) = c # calls_of es"
| "calls_of (_ # es) = calls_of es"

definition emit :: "event \<Rightarrow> (pstate, unit) py" where
  "emit e = pmodify (\<lambda>s. s\<lparr>log := log s @ [e]\<rparr>)"

definition echo_line :: "string list \<Rightarrow> string" where
  "echo_line cmd = ''Running: '' @ join_with '' '' cmd"

definition run_command :: "tools \<Rightarrow> string list \<Rightarrow> bool \<Rightarrow> (pstate, int \<times> json option) py" where
  "run_command T cmd check =
     pbind (emit (Stdout (echo_line cmd))) (\<lambda>_.
     pbind (pgets (\<lambda>s. T (calls_of (log s)) cmd)) (\<lambda>r.
     case r of
       NotFound \<Rightarrow> praise (FileNotFoundError (hd cmd))
     | Completed rc out \<Rightarrow>
         pbind (emit (Exec cmd)) (\<lambda>_.
         if check \<and> rc \<noteq> 0 then praise (CalledProcessError rc cmd) else preturn (rc, out))))"

text \<open>
  \<open>path.open("w")\<close> resolves the ancestors like \<open>os.mkdir\<close>, refuses a directory,
  and creates or truncates the file; \<open>json.dump\<close> then writes the whole document.
\<close>

definition json_dump_file :: "json \<Rightarrow> py_path \<Rightarrow> (pstate, unit) py" where
  "json_dump_file v f s =
     (case find (\<lambda>q. q \<notin> dirs s) (ancestors f) of
        Some q \<Rightarrow>
          if files s q \<noteq> None then (Inl (NotADirectoryError (path_str f)), s)
          else (Inl (FileNotFoundError (path_str f)), s)
      | None \<Rightarrow>
          if f \<in> dirs s then (Inl (IsADirectoryError (path_str f)), s)
          else (Inr (), s\<lparr>files := (files s)(f \<mapsto> v), log := log s @ [WriteJson f v]\<rparr>))"

text \<open>Reading an attribute of \<open>ARGS\<close>, which is \<open>None\<close> until \<open>main\<close> sets it.\<close>

definition get_arg :: "string \<Rightarrow> (args \<Rightarrow> 'a) \<Rightarrow> (pstate, 'a) py" where
  "get_arg name f =
     pbind (pgets ARGS) (\<lambda>a. case a of None \<Rightarrow> praise (AttributeError name) | Some x \<Rightarrow> preturn (f x))"

text \<open>Every external command is echoed on the line just before it starts.\<close>

definition echoed :: "event list \<Rightarrow> bool" where
  "echoed es \<longleftrightarrow>
     (\<forall>i < length es. case es ! i of
        Exec c \<Rightarrow> 0 < i \<and> es ! (i - 1) = Stdout (echo_line c)
      | _ \<Rightarrow> True)"

subsection \<open>Effects of the primitives\<close>

lemma calls_of_append [simp]: "calls_of (xs @ ys) = calls_of xs @ calls_of ys"
  by (induction xs rule: calls_of.induct) simp_all

lemma emit_apply [simp]: "emit e s = (Inr (), s\<lparr>log := log s @ [e]\<rparr>)"
  by (simp add: emit_def pmodify_def)

lemma run_command_Completed:
  "T (calls_of (log s)) cmd = Completed rc out \<Longrightarrow>
   run_command T cmd check s =
     (if check \<and> rc \<noteq> 0 then Inl (CalledProcessError rc cmd) else Inr (rc, out),
      s\<lparr>log := log s @ [Stdout (echo_line cmd), Exec cmd]\<rparr>)"
  by (simp add: run_command_def pbind_def pgets_def praise_def preturn_def)

lemma run_command_NotFound:
  "T (calls_of (log s)) cmd = NotFound \<Longrightarrow>
   run_command T cmd check s =
     (Inl (FileNotFoundError (hd cmd)), s\<lparr>log := log s @ [Stdout (echo_line cmd)]\<rparr>)"
  by (simp add: run_command_def pbind_def pgets_def praise_def)

lemma json_dump_file_ok:
  "set (ancestors f) \<subseteq> dirs s \<Longrightarrow> f \<notin> dirs s \<Longrightarrow>
   json_dump_file v f s = (Inr (), s\<lparr>files := (files s)(f \<mapsto> v), log := log s @ [WriteJson f v]\<rparr>)"
  by (simp add: json_dump_file_def find_ancestors_None)

lemma json_dump_file_isdir:
  "set (ancestors f) \<subseteq> dirs s \<Longrightarrow> f \<in> dirs s \<Longrightarrow>
   json_dump_file v f s = (Inl (IsADirectoryError (path_str f)), s)"
  by (simp add: json_dump_file_def find_ancestors_None)

lemma get_arg_Some [simp]: "ARGS s = Some a \<Longrightarrow> get_arg name f s = (Inr (f a), s)"
  by (simp add: get_arg_def pbind_def pgets_def preturn_def)

lemma get_arg_None [simp]: "ARGS s = None \<Longrightarrow> get_arg name f s = (Inl (AttributeError name), s)"
  by (simp add: get_arg_def pbind_def pgets_def praise_def)

subsection \<open>The echo discipline\<close>

lemma echoed_Nil [simp]: "echoed []"
  by (simp add: echoed_def)

lemma echoed_snoc:
  assumes "echoed es" and "\<forall>c. e \<noteq> Exec c"
  shows "echoed (es @ [e])"
  unfolding echoed_def
proof (intro allI impI)
  fix i assume i: "i < length (es @ [e])"
  show "case (es @ [e]) ! i of Exec c \<Rightarrow> 0 < i \<and> (es @ [e]) ! (i - 1) = Stdout (echo_line c) | _ \<Rightarrow> True"
  proof (cases "i < length es")
    case True
    with assms(1) show ?thesis
      by (auto simp: echoed_def nth_append split: event.splits)
  next
    case False
    with i assms(2) show ?thesis by (cases e) (simp_all add: nth_append)
  qed
qed

lemma echoed_run:
  assumes "echoed es"
  shows "echoed (es @ [Stdout (echo_line c), Exec c])"
  unfolding echoed_def
proof (intro allI impI)
  fix i assume i: "i < length (es @ [Stdout (echo_line c), Exec c])"
  let ?es = "es @ [Stdout (echo_line c), Exec c]"
  show "case ?es ! i of Exec c' \<Rightarrow> 0 < i \<and> ?es ! (i - 1) = Stdout (echo_line c') | _ \<Rightarrow> True"
  proof (cases "i < length es")
    case True
    with assms show ?thesis
      by (auto simp: echoed_def nth_append split: event.splits)
  next
    case False
    with i have "i = length es \<or> i = Suc (length es)" by auto
    then show ?thesis by (auto simp: nth_append)
  qed
qed

lemmas echoed_steps = echoed_snoc echoed_run

subsection \<open>Frame of \<open>run_command\<close>\<close>

lemma run_command_frame:
  "run_command T cmd check s = (r, s') \<Longrightarrow> s' = s\<lparr>log := log s'\<rparr>"
  by (cases "T (calls_of (log s)) cmd")
     (auto simp: run_command_NotFound run_command_Completed split: if_splits)

lemma run_command_unchecked:
  assumes "T (calls_of (log s)) cmd \<noteq> NotFound"
  obtains rc out where
    "run_command T cmd False s = (Inr (rc, out), s\<lparr>log := log s @ [Stdout (echo_line cmd), Exec cmd]\<rparr>)"
  using assms by (cases "T (calls_of (log s)) cmd") (auto simp: run_command_Completed)

lemma run_command_log:
  "run_command T cmd check s = (r, s') \<Longrightarrow>
   s' = s\<lparr>log := log s @ [Stdout (echo_line cmd)]\<rparr> \<or>
   s' = s\<lparr>log := log s @ [Stdout (echo_line cmd), Exec cmd]\<rparr>"
  by (cases "T (calls_of (log s)) cmd") (auto simp: run_command_NotFound run_command_Completed)

lemma run_command_Inr:
  "run_command T cmd check s = (Inr x, s') \<Longrightarrow> s' = s\<lparr>log := log s @ [Stdout (echo_line cmd), Exec cmd]\<rparr>"
  by (cases "T (calls_of (log s)) cmd")
     (auto simp: run_command_NotFound run_command_Completed split: if_splits)

lemma preserves_get_arg_any [intro!]: "preserves I (get_arg name f)"
  unfolding get_arg_def by (rule preserves_pbind) (auto split: option.split)

text \<open>Reading \<open>ARGS\<close> in a state where it is known.\<close>

lemma preserves_get_arg:
  assumes "\<And>s. I s \<Longrightarrow> ARGS s = Some a" and "preserves I (k (f a))"
  shows "preserves I (pbind (get_arg name f) k)"
proof (rule preservesI)
  fix s r s' assume I: "I s" and run: "pbind (get_arg name f) k s = (r, s')"
  from I have "get_arg name f s = (Inr (f a), s)" by (simp add: assms(1))
  with run have "k (f a) s = (r, s')" by (simp add: pbind_Inr)
  with assms(2) I show "I s'" by (rule preservesD)
qed

end
