(* ===== verification/Account.thy ===== *)
theory Account
  imports Process
begin

text \<open>
  The account resolver, \<open>get_aws_account_id\<close> (createrole.py lines 46-57). It caches
  the account in the global \<open>AWS_ACCOUNT_ID\<close>, but the cache test is Python truth
  testing (\<open>if not AWS_ACCOUNT_ID\<close>), so a cached value that is falsy (an empty
  string, \<open>0\<close>, \<open>null\<close>, an empty list or object) is fetched again on every call.
  \<open>json.loads(run.stdout)["Account"]\<close> is the subscript of \<open>Json\<close>: a missing key is a
  \<open>KeyError\<close>, a non-dictionary a \<open>TypeError\<close>.
  \<open>get_account_times n\<close> calls it \<open>n\<close> times in a row, as \<open>create_aws_role\<close>'s list
  comprehension does once per user.
\<close>

definition identity_cmd :: "string list" where
  "identity_cmd = [''aws'', ''sts'', ''get-caller-identity'']"

definition py_truthy_opt :: "json option \<Rightarrow> bool" where
  "py_truthy_opt v = (case v of None \<Rightarrow> False | Some x \<Rightarrow> py_truthy x)"

definition fetch_account :: "tools \<Rightarrow> (pstate, json) py" where
  "fetch_account T =
     pbind (run_command T identity_cmd True) (\<lambda>(rc, out).
     case out of
       None \<Rightarrow> praise JSONDecodeError
     | Some doc \<Rightarrow>
         (case py_getitem doc (KStr ''Account'') of
            Inl e \<Rightarrow> praise e
          | Inr v \<Rightarrow> pbind (pmodify (\<lambda>s. s\<lparr>AWS_ACCOUNT_ID := Some v\<rparr>)) (\<lambda>_. preturn v)))"

definition get_aws_account_id :: "tools \<Rightarrow> (pstate, json) py" where
  "get_aws_account_id T =
     pbind (pgets AWS_ACCOUNT_ID) (\<lambda>cur.
     case cur of
       Some v \<Rightarrow> if py_truthy v then preturn v else fetch_account T
     | None \<Rightarrow> fetch_account T)"

definition get_account_times :: "tools \<Rightarrow> nat \<Rightarrow> (pstate, json list) py" where
  "get_account_times T n = py_map (\<lambda>_. get_aws_account_id T) (replicate n ())"

subsection \<open>Branches of the resolver\<close>

lemma get_account_cached:
  "AWS_ACCOUNT_ID s = Some v \<Longrightarrow> py_truthy v \<Longrightarrow> get_aws_account_id T s = (Inr v, s)"
  by (simp add: get_aws_account_id_def preturn_def)

lemma get_account_uncached:
  "\<not> py_truthy_opt (AWS_ACCOUNT_ID s) \<Longrightarrow> get_aws_account_id T s = fetch_account T s"
  by (simp add: get_aws_account_id_def py_truthy_opt_def split: option.splits)

lemma fetch_account_ok:
  assumes "T (calls_of (log s)) identity_cmd = Completed 0 (Some doc)"
    and "py_getitem doc (KStr ''Account'') = Inr v"
  shows "fetch_account T s =
    (Inr v, s\<lparr>log := log s @ [Stdout (echo_line identity_cmd), Exec identity_cmd],
              AWS_ACCOUNT_ID := Some v\<rparr>)"
  using assms by (simp add: fetch_account_def run_command_Completed py_run)

lemma fetch_account_error:
  assumes "T (calls_of (log s)) identity_cmd = Completed rc out"
    and "rc \<noteq> 0 \<or> out = None \<or> (\<exists>doc. out = Some doc \<and> isl (py_getitem doc (KStr ''Account'')))"
  shows "\<exists>e. fetch_account T s =
    (Inl e, s\<lparr>log := log s @ [Stdout (echo_line identity_cmd), Exec identity_cmd]\<rparr>)"
  using assms
  by (auto simp: fetch_account_def run_command_Completed pbind_def praise_def
      split: sum.splits option.splits)

lemma fetch_account_bad_output:
  assumes "T (calls_of (log s)) identity_cmd = Completed 0 out"
    and "out = None \<or> (\<exists>doc. out = Some doc \<and> isl (py_getitem doc (KStr ''Account'')))"
  shows "\<exists>e. fetch_account T s =
    (Inl e, s\<lparr>log := log s @ [Stdout (echo_line identity_cmd), Exec identity_cmd]\<rparr>) \<and>
    e \<in> {JSONDecodeError, KeyError (key_repr (KStr ''Account'')), TypeError}"
proof (cases out)
  case None
  with assms(1) show ?thesis by (simp add: fetch_account_def run_command_Completed py_run)
next
  case (Some doc)
  with assms(2) obtain e where e: "py_getitem doc (KStr ''Account'') = Inl e"
    by (cases "py_getitem doc (KStr ''Account'')") auto
  then have "e = KeyError (key_repr (KStr ''Account'')) \<or> e = TypeError"
    by (rule py_getitem_KStr_error)
  with assms(1) Some e show ?thesis
    by (auto simp: fetch_account_def run_command_Completed py_run simp del: key_repr.simps)
qed

lemma fetch_account_nonzero:
  assumes "T (calls_of (log s)) identity_cmd = Completed rc out" and "rc \<noteq> 0"
  shows "fetch_account T s =
    (Inl (CalledProcessError rc identity_cmd),
     s\<lparr>log := log s @ [Stdout (echo_line identity_cmd), Exec identity_cmd]\<rparr>)"
  using assms by (simp add: fetch_account_def run_command_Completed pbind_def)

lemma get_account_times_Suc:
  "get_account_times T (Suc n) =
     pbind (get_aws_account_id T) (\<lambda>v. pbind (get_account_times T n) (\<lambda>vs. preturn (v # vs)))"
  by (simp add: get_account_times_def)

text \<open>Once a truthy account is cached, further calls neither run anything nor change the state.\<close>

lemma get_account_times_cached:
  "AWS_ACCOUNT_ID s = Some v \<Longrightarrow> py_truthy v \<Longrightarrow>
   get_account_times T n s = (Inr (replicate n v), s)"
proof (induction n)
  case 0
  then show ?case by (simp add: get_account_times_def preturn_def)
next
  case (Suc n)
  then show ?case
    by (simp add: get_account_times_Suc get_account_cached pbind_def preturn_def)
qed

subsection \<open>Memoisation\<close>


text \<open>
  C3: the account resolver is memoised. From a state with no truthy cached account, when
  the identity check exits 0 with a truthy \<open>Account\<close>, any number of consecutive
  calls return that account and issue exactly one external command, the identity check,
  echoed before it runs; afterwards the account is cached.
\<close>

theorem get_account_memoised:
  assumes "\<not> py_truthy_opt (AWS_ACCOUNT_ID s)"
    and "T (calls_of (log s)) identity_cmd = Completed 0 (Some doc)"
    and "py_getitem doc (KStr ''Account'') = Inr v" and "py_truthy v"
  shows "get_account_times T (Suc n) s =
    (Inr (replicate (Suc n) v),
     s\<lparr>log := log s @ [Stdout (echo_line identity_cmd), Exec identity_cmd],
       AWS_ACCOUNT_ID := Some v\<rparr>)"
proof -
  let ?s1 = "s\<lparr>log := log s @ [Stdout (echo_line identity_cmd), Exec identity_cmd],
                AWS_ACCOUNT_ID := Some v\<rparr>"
  have first: "get_aws_account_id T s = (Inr v, ?s1)"
    using assms(1-3) by (simp add: get_account_uncached fetch_account_ok)
  have rest: "get_account_times T n ?s1 = (Inr (replicate n v), ?s1)"
    using assms(4) by (simp add: get_account_times_cached)
  from first rest show ?thesis
    by (simp add: get_account_times_Suc pbind_def preturn_def)
qed

text \<open>
  C8: the memoisation rests on Python truth testing. When the identity check reports a
  falsy account (here any falsy JSON value, e.g. the empty string), every one of
  \<open>n\<close> consecutive calls runs the identity check again: \<open>n\<close> external calls, not one.
\<close>

theorem get_account_falsy_refetched:
  assumes "\<not> py_truthy_opt (AWS_ACCOUNT_ID s)"
    and "\<forall>h. T h identity_cmd = Completed 0 (Some doc)"
    and "py_getitem doc (KStr ''Account'') = Inr v" and "\<not> py_truthy v"
  shows "\<exists>s'. get_account_times T n s = (Inr (replicate n v), s') \<and>
              calls_of (log s') = calls_of (log s) @ replicate n identity_cmd"
  using assms(1)
proof (induction n arbitrary: s)
  case 0
  then show ?case by (simp add: get_account_times_def preturn_def)
next
  case (Suc n)
  let ?s1 = "s\<lparr>log := log s @ [Stdout (echo_line identity_cmd), Exec identity_cmd],
                AWS_ACCOUNT_ID := Some v\<rparr>"
  have first: "get_aws_account_id T s = (Inr v, ?s1)"
    using Suc.prems assms(2,3) by (simp add: get_account_uncached fetch_account_ok)
  have "\<not> py_truthy_opt (AWS_ACCOUNT_ID ?s1)"
    using assms(4) by (simp add: py_truthy_opt_def)
  then obtain s' where rest: "get_account_times T n ?s1 = (Inr (replicate n v), s')"
    and calls: "calls_of (log s') = calls_of (log ?s1) @ replicate n identity_cmd"
    using Suc.IH by blast
  from first rest have "get_account_times T (Suc n) s = (Inr (replicate (Suc n) v), s')"
    by (simp add: get_account_times_Suc pbind_def preturn_def)
  moreover have "calls_of (log s') = calls_of (log s) @ replicate (Suc n) identity_cmd"
    using calls by (simp add: replicate_append_same)
  ultimately show ?case by blast
qed

theorem get_account_memoised_witness:
  "get_account_times (\<lambda>h c. Completed 0 (Some (JObj [(KStr ''Account'', JStr ''123456789012'')]))) 3
     (\<lparr>dirs = {}, files = Map.empty, log = [], AWS_ACCOUNT_ID = None, ARGS = None, role_template = JNull, policy_template = JNull\<rparr>) =
   (Inr (replicate 3 (JStr ''123456789012'')),
    \<lparr>dirs = {}, files = Map.empty, log = [Stdout (echo_line identity_cmd), Exec identity_cmd],
     AWS_ACCOUNT_ID = Some (JStr ''123456789012''), ARGS = None, role_template = JNull,
     policy_template = JNull\<rparr>)"
  using get_account_memoised [of "\<lparr>dirs = {}, files = Map.empty, log = [], AWS_ACCOUNT_ID = None, ARGS = None, role_template = JNull, policy_template = JNull\<rparr>"
      "\<lambda>h c. Completed 0 (Some (JObj [(KStr ''Account'', JStr ''123456789012'')]))"
      "JObj [(KStr ''Account'', JStr ''123456789012'')]" "JStr ''123456789012''" 2]
  by (simp add: py_truthy_opt_def numeral_3_eq_3)

theorem get_account_falsy_refetched_witness:
  "\<exists>s'. get_account_times (\<lambda>h c. Completed 0 (Some (JObj [(KStr ''Account'', JStr '''')]))) 3
          (\<lparr>dirs = {}, files = Map.empty, log = [], AWS_ACCOUNT_ID = None, ARGS = None, role_template = JNull, policy_template = JNull\<rparr>) = (Inr (replicate 3 (JStr '''')), s') \<and>
        calls_of (log s') = replicate 3 identity_cmd"
  using get_account_falsy_refetched [of "\<lparr>dirs = {}, files = Map.empty, log = [], AWS_ACCOUNT_ID = None, ARGS = None, role_template = JNull, policy_template = JNull\<rparr>"
      "\<lambda>h c. Completed 0 (Some (JObj [(KStr ''Account'', JStr '''')]))"
      "JObj [(KStr ''Account'', JStr '''')]" "JStr ''''" 3]
  by (simp add: py_truthy_opt_def)

subsection \<open>Frame of the resolver\<close>

lemma get_account_frame:
  assumes "get_aws_account_id T s = (r, s')"
  shows "s' = s\<lparr>log := log s', AWS_ACCOUNT_ID := AWS_ACCOUNT_ID s'\<rparr>"
proof (cases "py_truthy_opt (AWS_ACCOUNT_ID s)")
  case True
  with assms show ?thesis
    by (auto simp: get_aws_account_id_def py_truthy_opt_def preturn_def split: option.splits if_splits)
next
  case False
  then have f: "fetch_account T s = (r, s')" using assms by (simp add: get_account_uncached)
  show ?thesis
  proof (cases "run_command T identity_cmd True s")
    case (Pair r1 s1)
    then have s1: "s1 = s\<lparr>log := log s1\<rparr>" by (rule run_command_frame)
    with f Pair show ?thesis
      by (cases s, cases s1)
         (auto simp: fetch_account_def pbind_def praise_def pmodify_def preturn_def
          split: sum.splits option.splits prod.splits)
  qed
qed

lemma get_account_result_cached:
  assumes "get_aws_account_id T s = (Inr v, s')"
  shows "AWS_ACCOUNT_ID s' = Some v \<and> py_truthy_opt (AWS_ACCOUNT_ID s') = py_truthy v"
proof (cases "py_truthy_opt (AWS_ACCOUNT_ID s)")
  case True
  with assms show ?thesis
    by (auto simp: get_aws_account_id_def py_truthy_opt_def preturn_def split: option.splits if_splits)
next
  case False
  then have f: "fetch_account T s = (Inr v, s')" using assms by (simp add: get_account_uncached)
  then show ?thesis
    by (auto simp: fetch_account_def pbind_def praise_def pmodify_def preturn_def py_truthy_opt_def
        split: sum.splits option.splits prod.splits)
qed

end
