(* ===== verification/Iam.thy ===== *)
theory Iam
  imports Account
begin

text \<open>
  The four provisioning operations of createrole.py and the module's two policy
  templates.
  \<^item> \<open>ROLE_TEMPLATE\<close>, \<open>POLICY_TEMPLATE\<close> (lines 11-34): the initial values of the
    module-level dictionaries. The process state holds their current values
    (\<open>role_template\<close>, \<open>policy_template\<close>), because the operations assign into them
    in place through \<open>assign_template\<close>.
  \<^item> \<open>user_arn\<close>, \<open>role_arn\<close>: the f-strings of lines 63, 86, 112 and 154.
  \<^item> \<open>create_aws_role\<close> (lines 60-79), \<open>XXXcreate_aws_policy\<close> (82-100, dead code:
    its \<open>run_command\<close> is commented out), \<open>create_aws_group\<close> (103-141),
    \<open>create_identity_mapping\<close> (144-158): each is the whole function body, with
    Python's evaluation order (the attribute reads of \<open>ARGS\<close>, each
    \<open>get_aws_account_id()\<close> call, the template assignment, the file write and the
    commands, in that order). None of their commands passes \<open>check=True\<close>.
  \<^item> \<open>role_policy_doc\<close> and \<open>assume_role_policy_doc\<close> are the abstract documents:
    a fresh trust policy for a list of principals and a fresh assume-role policy for a
    resource, as the spec's design notes ask for.
\<close>

definition ROLE_TEMPLATE :: json where
  "ROLE_TEMPLATE =
     JObj [(KStr ''Version'', JStr ''2012-10-17''),
           (KStr ''Statement'', JList [JObj
              [(KStr ''Effect'', JStr ''Allow''),
               (KStr ''Action'', JStr ''sts:AssumeRole''),
               (KStr ''Principal'', JObj [(KStr ''AWS'', JList [])]),
               (KStr ''Condition'', JObj [])]])]"

definition POLICY_TEMPLATE :: json where
  "POLICY_TEMPLATE =
     JObj [(KStr ''Version'', JStr ''2012-10-17''),
           (KStr ''Statement'', JList [JObj
              [(KStr ''Sid'', JStr ''AllowAssumeOrganizationAccountRole''),
               (KStr ''Effect'', JStr ''Allow''),
               (KStr ''Action'', JStr ''sts:AssumeRole''),
               (KStr ''Resource'', JNull)]])]"

definition role_principal_path :: "key list" where
  "role_principal_path = [KStr ''Statement'', KInt 0, KStr ''Principal'', KStr ''AWS'']"

definition policy_resource_path :: "key list" where
  "policy_resource_path = [KStr ''Statement'', KInt 0, KStr ''Resource'']"

definition user_arn :: "json \<Rightarrow> string \<Rightarrow> string" where
  "user_arn acct u = ''arn:aws:iam::'' @ py_str acct @ '':user/'' @ u"

definition role_arn :: "json \<Rightarrow> string \<Rightarrow> string" where
  "role_arn acct r = ''arn:aws:iam::'' @ py_str acct @ '':role/'' @ r"

text \<open>\<open>TEMPLATE[k1]...[kn] = v\<close> on the module-level dictionary held in field \<open>get\<close>.\<close>

definition assign_template ::
  "(pstate \<Rightarrow> json) \<Rightarrow> ((json \<Rightarrow> json) \<Rightarrow> pstate \<Rightarrow> pstate) \<Rightarrow> key list \<Rightarrow> json \<Rightarrow> (pstate, unit) py" where
  "assign_template get upd ks v s =
     (case set_path ks v (get s) of
        Inl e \<Rightarrow> (Inl e, s)
      | Inr t \<Rightarrow> (Inr (), upd (\<lambda>_. t) s))"

definition create_role_cmd :: "string \<Rightarrow> py_path \<Rightarrow> string list" where
  "create_role_cmd rolename rolef =
     [''aws'', ''iam'', ''create-role'', ''--role-name'', rolename,
      ''--assume-role-policy-document'', ''file://'' @ path_str rolef]"

definition create_aws_role :: "tools \<Rightarrow> string \<Rightarrow> (pstate, unit) py" where
  "create_aws_role T rolename =
     pbind (get_arg ''usernames'' usernames) (\<lambda>us.
     pbind (py_map (\<lambda>u. pbind (get_aws_account_id T) (\<lambda>acct. preturn (user_arn acct u))) us) (\<lambda>userarns.
     pbind (assign_template role_template role_template_update role_principal_path
              (JList (map JStr userarns))) (\<lambda>_.
     pbind (get_arg ''workingdir'' workingdir) (\<lambda>wd.
     let rolef = path_div wd ''role_policy.json'' in
     pbind (pgets role_template) (\<lambda>doc.
     pbind (json_dump_file doc rolef) (\<lambda>_.
     pbind (run_command T (create_role_cmd rolename rolef) False) (\<lambda>_. preturn ())))))))"

definition XXXcreate_aws_policy :: "tools \<Rightarrow> string \<Rightarrow> string \<Rightarrow> (pstate, unit) py" where
  "XXXcreate_aws_policy T policyname rolename =
     pbind (get_aws_account_id T) (\<lambda>acct.
     pbind (assign_template policy_template policy_template_update policy_resource_path
              (JStr (role_arn acct rolename))) (\<lambda>_.
     pbind (get_arg ''workingdir'' workingdir) (\<lambda>wd.
     let policyf = path_div wd ''assume_role_policy.json'' in
     pbind (pgets policy_template) (\<lambda>doc.
     pbind (json_dump_file doc policyf) (\<lambda>_.
     emit (Stdout (path_str policyf)))))))"

definition create_group_cmd :: "string \<Rightarrow> string list" where
  "create_group_cmd groupname = [''aws'', ''iam'', ''create-group'', ''--group-name'', groupname]"

definition put_group_policy_cmd :: "string \<Rightarrow> string \<Rightarrow> py_path \<Rightarrow> string list" where
  "put_group_policy_cmd groupname policyname policyf =
     [''aws'', ''iam'', ''put-group-policy'', ''--group-name'', groupname,
      ''--policy-name'', policyname, ''--policy-document'', ''file://'' @ path_str policyf]"

definition add_user_cmd :: "string \<Rightarrow> string \<Rightarrow> string list" where
  "add_user_cmd groupname username =
     [''aws'', ''iam'', ''add-user-to-group'', ''--group-name'', groupname, ''--user-name'', username]"

definition create_aws_group :: "tools \<Rightarrow> string \<Rightarrow> string \<Rightarrow> string \<Rightarrow> (pstate, unit) py" where
  "create_aws_group T groupname rolename policyname =
     pbind (run_command T (create_group_cmd groupname) False) (\<lambda>_.
     pbind (get_aws_account_id T) (\<lambda>acct.
     pbind (assign_template policy_template policy_template_update policy_resource_path
              (JStr (role_arn acct rolename))) (\<lambda>_.
     pbind (get_arg ''workingdir'' workingdir) (\<lambda>wd.
     let policyf = path_div wd ''assume_role_policy.json'' in
     pbind (pgets policy_template) (\<lambda>doc.
     pbind (json_dump_file doc policyf) (\<lambda>_.
     pbind (run_command T (put_group_policy_cmd groupname policyname policyf) False) (\<lambda>_.
     pbind (get_arg ''usernames'' usernames) (\<lambda>us.
     py_for us (\<lambda>u. pbind (run_command T (add_user_cmd groupname u) False) (\<lambda>_. preturn ()))))))))))"

definition mapping_cmd :: "string \<Rightarrow> string \<Rightarrow> string \<Rightarrow> string list" where
  "mapping_cmd cluster arn eksusername =
     [''eksctl'', ''create'', ''iamidentitymapping'', ''--cluster'', cluster,
      ''--arn'', arn, ''--username'', eksusername]"

definition create_identity_mapping :: "tools \<Rightarrow> string \<Rightarrow> string \<Rightarrow> (pstate, unit) py" where
  "create_identity_mapping T rolename eksusername =
     pbind (get_arg ''clustername'' clustername) (\<lambda>cluster.
     pbind (get_aws_account_id T) (\<lambda>acct.
     pbind (run_command T (mapping_cmd cluster (role_arn acct rolename) eksusername) False) (\<lambda>_.
     preturn ())))"

definition role_policy_doc :: "string list \<Rightarrow> json" where
  "role_policy_doc arns =
     JObj [(KStr ''Version'', JStr ''2012-10-17''),
           (KStr ''Statement'', JList [JObj
              [(KStr ''Effect'', JStr ''Allow''),
               (KStr ''Action'', JStr ''sts:AssumeRole''),
               (KStr ''Principal'', JObj [(KStr ''AWS'', JList (map JStr arns))]),
               (KStr ''Condition'', JObj [])]])]"

definition assume_role_policy_doc :: "string \<Rightarrow> json" where
  "assume_role_policy_doc res =
     JObj [(KStr ''Version'', JStr ''2012-10-17''),
           (KStr ''Statement'', JList [JObj
              [(KStr ''Sid'', JStr ''AllowAssumeOrganizationAccountRole''),
               (KStr ''Effect'', JStr ''Allow''),
               (KStr ''Action'', JStr ''sts:AssumeRole''),
               (KStr ''Resource'', JStr res)]])]"

text \<open>
  The templates are reused across calls: each call overwrites one slot. The shape
  invariant says the current value is the initial template up to that slot.
\<close>

definition role_template_ok :: "json \<Rightarrow> bool" where
  "role_template_ok t \<longleftrightarrow> set_path role_principal_path (JList []) t = Inr ROLE_TEMPLATE"

definition policy_template_ok :: "json \<Rightarrow> bool" where
  "policy_template_ok t \<longleftrightarrow> set_path policy_resource_path JNull t = Inr POLICY_TEMPLATE"

subsection \<open>Templates and operations\<close>



lemma set_path_role_template:
  "role_template_ok t \<Longrightarrow>
   set_path role_principal_path (JList (map JStr xs)) t = Inr (role_policy_doc xs)"
proof -
  assume "role_template_ok t"
  then have "set_path role_principal_path (JList (map JStr xs)) ROLE_TEMPLATE =
             set_path role_principal_path (JList (map JStr xs)) t"
    unfolding role_template_ok_def by (rule set_path_twice)
  moreover have "set_path role_principal_path (JList (map JStr xs)) ROLE_TEMPLATE = Inr (role_policy_doc xs)"
    by (simp add: role_principal_path_def ROLE_TEMPLATE_def role_policy_doc_def seq_index_def)
  ultimately show ?thesis by simp
qed

lemma set_path_policy_template:
  "policy_template_ok t \<Longrightarrow>
   set_path policy_resource_path (JStr r) t = Inr (assume_role_policy_doc r)"
proof -
  assume "policy_template_ok t"
  then have "set_path policy_resource_path (JStr r) POLICY_TEMPLATE =
             set_path policy_resource_path (JStr r) t"
    unfolding policy_template_ok_def by (rule set_path_twice)
  moreover have "set_path policy_resource_path (JStr r) POLICY_TEMPLATE = Inr (assume_role_policy_doc r)"
    by (simp add: policy_resource_path_def POLICY_TEMPLATE_def assume_role_policy_doc_def seq_index_def)
  ultimately show ?thesis by simp
qed

lemma role_template_ok_doc [simp]: "role_template_ok (role_policy_doc xs)"
  by (simp add: role_template_ok_def role_principal_path_def ROLE_TEMPLATE_def role_policy_doc_def
      seq_index_def)

lemma policy_template_ok_doc [simp]: "policy_template_ok (assume_role_policy_doc r)"
  by (simp add: policy_template_ok_def policy_resource_path_def POLICY_TEMPLATE_def
      assume_role_policy_doc_def seq_index_def)

lemma templates_ok_init [simp]: "role_template_ok ROLE_TEMPLATE" "policy_template_ok POLICY_TEMPLATE"
  by (simp_all add: role_template_ok_def role_principal_path_def ROLE_TEMPLATE_def
      policy_template_ok_def policy_resource_path_def POLICY_TEMPLATE_def seq_index_def)

lemma assign_template_ok:
  "set_path ks v (get s) = Inr t \<Longrightarrow> assign_template get upd ks v s = (Inr (), upd (\<lambda>_. t) s)"
  by (simp add: assign_template_def)

text \<open>The list comprehension of \<open>create_aws_role\<close>: one resolver call per user.\<close>

lemma user_arns_cached:
  "AWS_ACCOUNT_ID s = Some acct \<Longrightarrow> py_truthy acct \<Longrightarrow>
   py_map (\<lambda>u. pbind (get_aws_account_id T) (\<lambda>a. preturn (user_arn a u))) us s =
   (Inr (map (user_arn acct) us), s)"
  by (induction us) (simp_all add: get_account_cached py_run)

lemma user_arns:
  assumes "get_aws_account_id T s = (Inr acct, s1)" and "py_truthy acct" and "us \<noteq> []"
  shows "py_map (\<lambda>u. pbind (get_aws_account_id T) (\<lambda>a. preturn (user_arn a u))) us s =
         (Inr (map (user_arn acct) us), s1)"
proof -
  obtain u us' where us: "us = u # us'" using assms(3) by (cases us) auto
  have "AWS_ACCOUNT_ID s1 = Some acct"
    using get_account_result_cached [OF assms(1)] by simp
  then have "py_map (\<lambda>u. pbind (get_aws_account_id T) (\<lambda>a. preturn (user_arn a u))) us' s1 =
             (Inr (map (user_arn acct) us'), s1)"
    using assms(2) by (rule user_arns_cached)
  with assms(1) us show ?thesis by (simp add: py_run)
qed

lemma create_aws_role_result:
  assumes args: "ARGS s = Some a" and users: "usernames a \<noteq> []"
    and acct: "get_aws_account_id T s = (Inr acct, s1)" "py_truthy acct"
    and tmpl: "role_template_ok (role_template s)"
    and dir: "set (ancestors (path_div (workingdir a) ''role_policy.json'')) \<subseteq> dirs s"
      "path_div (workingdir a) ''role_policy.json'' \<notin> dirs s"
    and tool: "T (calls_of (log s1))
                 (create_role_cmd rolename (path_div (workingdir a) ''role_policy.json'')) = Completed rc out"
  shows "create_aws_role T rolename s =
    (let rolef = path_div (workingdir a) ''role_policy.json'';
         doc = role_policy_doc (map (user_arn acct) (usernames a));
         cmd = create_role_cmd rolename rolef
     in (Inr (), s1\<lparr>role_template := doc, files := (files s1)(rolef \<mapsto> doc),
                    log := log s1 @ [WriteJson rolef doc, Stdout (echo_line cmd), Exec cmd]\<rparr>))"
proof -
  let ?rolef = "path_div (workingdir a) ''role_policy.json''"
  let ?doc = "role_policy_doc (map (user_arn acct) (usernames a))"
  have s1: "s1 = s\<lparr>log := log s1, AWS_ACCOUNT_ID := AWS_ACCOUNT_ID s1\<rparr>"
    using acct(1) by (rule get_account_frame)
  have arns: "py_map (\<lambda>u. pbind (get_aws_account_id T) (\<lambda>a. preturn (user_arn a u))) (usernames a) s =
              (Inr (map (user_arn acct) (usernames a)), s1)"
    using acct users by (rule user_arns)
  have args1: "ARGS s1 = Some a" and tmpl1: "role_template_ok (role_template s1)"
    and dir1: "set (ancestors ?rolef) \<subseteq> dirs s1" "?rolef \<notin> dirs s1"
    using args tmpl dir by (subst s1; simp)+
  have set: "set_path role_principal_path (JList (map JStr (map (user_arn acct) (usernames a))))
               (role_template s1) = Inr ?doc"
    using tmpl1 by (rule set_path_role_template)
  show ?thesis
    using args arns args1 set dir1 tool
    by (simp add: create_aws_role_def assign_template_def json_dump_file_ok
        run_command_Completed Let_def py_run)
qed

text \<open>
  C4: \<open>create_aws_role\<close> writes the trust policy and then runs \<open>create-role\<close> on it.
  With \<open>ARGS\<close> set, at least one user, the account resolving to a truthy value, and
  the template in its reachable shape, the file \<open><workingdir>/role_policy.json\<close>
  holds exactly the fresh trust policy whose principals are
  \<open>arn:aws:iam::<account>:user/<name>\<close> for the users in order. The log gains the
  file write, then the echo and start of \<open>aws iam create-role\<close> with
  \<open>file://<path>\<close>, whatever exit status that command has.
\<close>

theorem create_aws_role_ok:
  assumes args: "ARGS s = Some a" and users: "usernames a \<noteq> []"
    and acct: "get_aws_account_id T s = (Inr acct, s1)" "py_truthy acct"
    and tmpl: "role_template_ok (role_template s)"
    and dir: "set (ancestors (path_div (workingdir a) ''role_policy.json'')) \<subseteq> dirs s"
      "path_div (workingdir a) ''role_policy.json'' \<notin> dirs s"
    and tool: "T (calls_of (log s1))
                 (create_role_cmd rolename (path_div (workingdir a) ''role_policy.json'')) = Completed rc out"
  shows "create_aws_role T rolename s =
    (let rolef = path_div (workingdir a) ''role_policy.json'';
         doc = role_policy_doc (map (user_arn acct) (usernames a));
         cmd = create_role_cmd rolename rolef
     in (Inr (), s1\<lparr>role_template := doc, files := (files s1)(rolef \<mapsto> doc),
                    log := log s1 @ [WriteJson rolef doc, Stdout (echo_line cmd), Exec cmd]\<rparr>))"
  using assms by (rule create_aws_role_result)

lemma create_identity_mapping_ok:
  assumes args: "ARGS s = Some a"
    and acct: "get_aws_account_id T s = (Inr acct, s1)"
    and tool: "T (calls_of (log s1)) (mapping_cmd (clustername a) (role_arn acct rolename) eksusername)
                 = Completed rc out"
  shows "create_identity_mapping T rolename eksusername s =
    (Inr (), s1\<lparr>log := log s1 @
       [Stdout (echo_line (mapping_cmd (clustername a) (role_arn acct rolename) eksusername)),
        Exec (mapping_cmd (clustername a) (role_arn acct rolename) eksusername)]\<rparr>)"
  using args acct tool by (simp add: create_identity_mapping_def run_command_Completed py_run)


lemma add_users_ok:
  assumes "\<forall>h. \<forall>u \<in> set us. T h (add_user_cmd g u) \<noteq> NotFound"
  shows "py_for us (\<lambda>u. pbind (run_command T (add_user_cmd g u) False) (\<lambda>_. preturn ())) s =
    (Inr (), s\<lparr>log := log s @ concat (map (\<lambda>u. [Stdout (echo_line (add_user_cmd g u)),
                                                  Exec (add_user_cmd g u)]) us)\<rparr>)"
  using assms
proof (induction us arbitrary: s)
  case Nil
  then show ?case by (simp add: py_run)
next
  case (Cons u us)
  obtain rc out where
    "run_command T (add_user_cmd g u) False s =
       (Inr (rc, out), s\<lparr>log := log s @ [Stdout (echo_line (add_user_cmd g u)), Exec (add_user_cmd g u)]\<rparr>)"
    by (rule run_command_unchecked [of T s "add_user_cmd g u"]) (simp add: Cons.prems)
  with Cons.IH Cons.prems show ?case by (simp add: py_run)
qed

text \<open>
  C5: \<open>create_aws_group\<close> with a cached truthy account runs, in this order,
  \<open>create-group\<close>, writes \<open><workingdir>/assume_role_policy.json\<close> holding the
  assume-role policy whose \<open>Resource\<close> is \<open>arn:aws:iam::<account>:role/<role>\<close>,
  runs \<open>put-group-policy\<close> on that file, and then \<open>add-user-to-group\<close> once per user,
  each command echoed first. No exit status is checked, so a failing step does not stop
  the later ones (there is no rollback either).
\<close>

theorem create_aws_group_ok:
  assumes args: "ARGS s = Some a"
    and acct: "AWS_ACCOUNT_ID s = Some acct" "py_truthy acct"
    and tmpl: "policy_template_ok (policy_template s)"
    and dir: "set (ancestors (path_div (workingdir a) ''assume_role_policy.json'')) \<subseteq> dirs s"
      "path_div (workingdir a) ''assume_role_policy.json'' \<notin> dirs s"
    and tools: "\<forall>h c. T h c \<noteq> NotFound"
  shows "create_aws_group T groupname rolename policyname s =
    (let policyf = path_div (workingdir a) ''assume_role_policy.json'';
         doc = assume_role_policy_doc (role_arn acct rolename);
         c1 = create_group_cmd groupname;
         c2 = put_group_policy_cmd groupname policyname policyf
     in (Inr (), s\<lparr>policy_template := doc, files := (files s)(policyf \<mapsto> doc),
                    log := log s @ [Stdout (echo_line c1), Exec c1, WriteJson policyf doc,
                                    Stdout (echo_line c2), Exec c2] @
                           concat (map (\<lambda>u. [Stdout (echo_line (add_user_cmd groupname u)),
                                                Exec (add_user_cmd groupname u)]) (usernames a))\<rparr>))"
proof -
  let ?policyf = "path_div (workingdir a) ''assume_role_policy.json''"
  let ?doc = "assume_role_policy_doc (role_arn acct rolename)"
  let ?c1 = "create_group_cmd groupname"
  let ?c2 = "put_group_policy_cmd groupname policyname ?policyf"
  let ?s1 = "s\<lparr>log := log s @ [Stdout (echo_line ?c1), Exec ?c1]\<rparr>"
  let ?s2 = "?s1\<lparr>policy_template := ?doc, files := (files s)(?policyf \<mapsto> ?doc),
                    log := log ?s1 @ [WriteJson ?policyf ?doc]\<rparr>"
  let ?s3 = "?s2\<lparr>log := log ?s2 @ [Stdout (echo_line ?c2), Exec ?c2]\<rparr>"
  obtain rc1 out1 where r1: "run_command T ?c1 False s = (Inr (rc1, out1), ?s1)"
    by (rule run_command_unchecked [of T s ?c1]) (simp add: tools)
  have g: "get_aws_account_id T ?s1 = (Inr acct, ?s1)"
    using acct by (simp add: get_account_cached)
  have set: "set_path policy_resource_path (JStr (role_arn acct rolename)) (policy_template ?s1) = Inr ?doc"
    using tmpl by (simp add: set_path_policy_template)
  have dump: "json_dump_file ?doc ?policyf (?s1\<lparr>policy_template := ?doc\<rparr>) = (Inr (), ?s2)"
    using dir by (simp add: json_dump_file_ok)
  obtain rc2 out2 where r2: "run_command T ?c2 False ?s2 = (Inr (rc2, out2), ?s3)"
    by (rule run_command_unchecked [of T ?s2 ?c2]) (simp add: tools)
  have loop: "py_for (usernames a) (\<lambda>u. pbind (run_command T (add_user_cmd groupname u) False) (\<lambda>_. preturn ())) ?s3 =
    (Inr (), ?s3\<lparr>log := log ?s3 @ concat (map (\<lambda>u. [Stdout (echo_line (add_user_cmd groupname u)),
                                                  Exec (add_user_cmd groupname u)]) (usernames a))\<rparr>)"
    using tools by (intro add_users_ok) simp
  show ?thesis
    using args r1 g set dump r2 loop
    by (simp add: create_aws_group_def assign_template_def Let_def py_run)
qed


text \<open>
  C15: \<open>XXXcreate_aws_policy\<close>, the disabled policy creator: with \<open>ARGS\<close> set, a
  cached truthy account and the template in its reachable shape, it writes
  \<open><workingdir>/assume_role_policy.json\<close> holding the assume-role policy for
  \<open>arn:aws:iam::<account>:role/<role>\<close> and prints the file's path. Its
  \<open>create-policy\<close> command is commented out, so no external command runs, whatever
  the environment.
\<close>

theorem XXXcreate_aws_policy_ok:
  assumes args: "ARGS s = Some a"
    and acct: "AWS_ACCOUNT_ID s = Some acct" "py_truthy acct"
    and tmpl: "policy_template_ok (policy_template s)"
    and dir: "set (ancestors (path_div (workingdir a) ''assume_role_policy.json'')) \<subseteq> dirs s"
      "path_div (workingdir a) ''assume_role_policy.json'' \<notin> dirs s"
  shows "XXXcreate_aws_policy T policyname rolename s =
    (let policyf = path_div (workingdir a) ''assume_role_policy.json'';
         doc = assume_role_policy_doc (role_arn acct rolename)
     in (Inr (), s\<lparr>policy_template := doc, files := (files s)(policyf \<mapsto> doc),
                    log := log s @ [WriteJson policyf doc, Stdout (path_str policyf)]\<rparr>))"
proof -
  have g: "get_aws_account_id T s = (Inr acct, s)"
    using acct by (rule get_account_cached)
  have set: "set_path policy_resource_path (JStr (role_arn acct rolename)) (policy_template s) =
             Inr (assume_role_policy_doc (role_arn acct rolename))"
    using tmpl by (rule set_path_policy_template)
  show ?thesis
    using args g set dir
    by (simp add: XXXcreate_aws_policy_def assign_template_def json_dump_file_ok Let_def py_run)
qed

text \<open>
  C17: when \<open><workingdir>/role_policy.json\<close> is a directory, \<open>create_aws_role\<close>
  raises \<open>IsADirectoryError\<close> from \<open>rolef.open("w")\<close> after resolving the account
  and before \<open>create-role\<close>: no command runs after the identity check, no file is
  written, but the module's \<open>ROLE_TEMPLATE\<close> already holds the new principals.
\<close>

theorem create_aws_role_file_is_dir:
  assumes args: "ARGS s = Some a" and users: "usernames a \<noteq> []"
    and acct: "get_aws_account_id T s = (Inr acct, s1)" "py_truthy acct"
    and tmpl: "role_template_ok (role_template s)"
    and dir: "set (ancestors (path_div (workingdir a) ''role_policy.json'')) \<subseteq> dirs s"
      "path_div (workingdir a) ''role_policy.json'' \<in> dirs s"
  shows "create_aws_role T rolename s =
    (Inl (IsADirectoryError (path_str (path_div (workingdir a) ''role_policy.json''))),
     s1\<lparr>role_template := role_policy_doc (map (user_arn acct) (usernames a))\<rparr>)"
proof -
  let ?rolef = "path_div (workingdir a) ''role_policy.json''"
  have s1: "s1 = s\<lparr>log := log s1, AWS_ACCOUNT_ID := AWS_ACCOUNT_ID s1\<rparr>"
    using acct(1) by (rule get_account_frame)
  have arns: "py_map (\<lambda>u. pbind (get_aws_account_id T) (\<lambda>a. preturn (user_arn a u))) (usernames a) s =
              (Inr (map (user_arn acct) (usernames a)), s1)"
    using acct users by (rule user_arns)
  have args1: "ARGS s1 = Some a" and tmpl1: "role_template_ok (role_template s1)"
    and dir1: "set (ancestors ?rolef) \<subseteq> dirs s1" "?rolef \<in> dirs s1"
    using args tmpl dir by (subst s1; simp)+
  have set: "set_path role_principal_path (JList (map JStr (map (user_arn acct) (usernames a))))
               (role_template s1) = Inr (role_policy_doc (map (user_arn acct) (usernames a)))"
    using tmpl1 by (rule set_path_role_template)
  show ?thesis
    using args arns args1 set dir1
    by (simp add: create_aws_role_def assign_template_def json_dump_file_isdir Let_def py_run)
qed

end
