(* ===== verification/Cli.thy ===== *)
theory Cli
  imports Iam
begin

text \<open>
  The command line and the script's entry point.
  \<^item> \<open>namespace\<close> is what \<open>parser.parse_args()\<close> returns for the parser that
    \<open>getargs\<close> builds (createrole.py lines 161-194): the positional account name,
    \<open>--clustername\<close>, \<open>--region\<close>, the appended \<open>--usernames\<close> and
    \<open>--workingdir\<close> (default \<open>DEFAULT_WORKING_DIR\<close>, line 9), all as strings.
    \<open>getargs\<close> here starts from that result; theory \<open>Argv\<close> models the parsing
    of \<open>sys.argv\<close> that produces it.
  \<^item> \<open>getargs\<close> (lines 196-204): converts the working directory to a path, creates it
    with \<open>mkdir(exist_ok=True, parents=True)\<close>, then checks the user names in order;
    the first one containing \<open>:\<close> or \<open>/\<close> makes \<open>parser.error\<close> exit with status 2.
  \<^item> \<open>role_name\<close>, \<open>policy_name\<close>, \<open>group_name\<close>, \<open>eks_username\<close>: the four
    f-strings of \<open>main\<close> (lines 211-214).
  \<^item> \<open>main\<close> (lines 207-218): sets \<open>ARGS\<close>, derives the names from
    \<open>ARGS.accountname\<close> and calls only \<open>create_identity_mapping\<close>; the three other
    calls are commented out in the source.
  \<^item> \<open>exit_code\<close> and \<open>run_script\<close>: the process exit status of
    \<open>if __name__ == "__main__": main()\<close> (0 on return, 2 from \<open>parser.error\<close>,
    \<open>n\<close> from \<open>sys.exit(n)\<close>, 1 for any other uncaught exception);
    \<open>script_error\<close> names the exceptions that give status 1, and
    \<open>raises_create_identity_mapping\<close> shows that everything \<open>main\<close> does after
    \<open>getargs\<close> raises only those, so status 2 comes only from \<open>parser.error\<close>.
\<close>

record namespace =
  ns_accountname :: string
  ns_clustername :: string
  ns_region :: "string option"
  ns_usernames :: "string list"
  ns_workingdir :: string

definition DEFAULT_WORKING_DIR :: string where
  "DEFAULT_WORKING_DIR = ''./tmp/''"

definition username_error :: "string \<Rightarrow> string" where
  "username_error u = ''Username only should be passed, not a full ARN (f'' @ u @ '')''"

definition check_username :: "string \<Rightarrow> (pstate, unit) py" where
  "check_username u =
     (if CHR '':'' \<in> set u \<or> CHR ''/'' \<in> set u then praise (ParserExit (username_error u))
      else preturn ())"

definition valid_username :: "string \<Rightarrow> bool" where
  "valid_username u \<longleftrightarrow> CHR '':'' \<notin> set u \<and> CHR ''/'' \<notin> set u"

definition mkdir_workingdir :: "py_path \<Rightarrow> (pstate, unit) py" where
  "mkdir_workingdir wd s = (case path_mkdir True True wd s of Inl e \<Rightarrow> (Inl e, s) | Inr s' \<Rightarrow> (Inr (), s'))"

definition args_of :: "namespace \<Rightarrow> py_path \<Rightarrow> args" where
  "args_of ns wd =
     \<lparr>accountname = ns_accountname ns, clustername = ns_clustername ns, region = ns_region ns,
      usernames = ns_usernames ns, workingdir = wd\<rparr>"

definition getargs :: "namespace \<Rightarrow> (pstate, args) py" where
  "getargs ns =
     (let wd = parse_path (ns_workingdir ns) in
      pbind (mkdir_workingdir wd) (\<lambda>_.
      pbind (py_for (ns_usernames ns) check_username) (\<lambda>_.
      preturn (args_of ns wd))))"

definition role_name :: "string \<Rightarrow> string" where
  "role_name acc = ''eks-'' @ acc @ ''-role''"

definition policy_name :: "string \<Rightarrow> string" where
  "policy_name acc = ''eks-'' @ acc @ ''-assume-role-policy''"

definition group_name :: "string \<Rightarrow> string" where
  "group_name acc = ''eks-'' @ acc @ ''-group''"

definition eks_username :: "string \<Rightarrow> string" where
  "eks_username acc = ''eks-'' @ acc"

definition main :: "tools \<Rightarrow> namespace \<Rightarrow> (pstate, unit) py" where
  "main T ns =
     pbind (getargs ns) (\<lambda>a.
     pbind (pmodify (\<lambda>s. s\<lparr>ARGS := Some a\<rparr>)) (\<lambda>_.
     pbind (get_arg ''accountname'' accountname) (\<lambda>acc1.
     pbind (get_arg ''accountname'' accountname) (\<lambda>acc2.
     pbind (get_arg ''accountname'' accountname) (\<lambda>acc3.
     pbind (get_arg ''accountname'' accountname) (\<lambda>acc4.
     let rolename = role_name acc1; policyname = policy_name acc2;
         groupname = group_name acc3; eksusername = eks_username acc4
     in create_identity_mapping T rolename eksusername))))))"

definition exit_code :: "error + unit \<Rightarrow> int" where
  "exit_code r = (case r of Inr _ \<Rightarrow> 0 | Inl (ParserExit _) \<Rightarrow> 2 | Inl (SystemExit n) \<Rightarrow> n | Inl _ \<Rightarrow> 1)"

definition run_script :: "tools \<Rightarrow> namespace \<Rightarrow> pstate \<Rightarrow> int \<times> pstate" where
  "run_script T ns s = (case main T ns s of (r, s') \<Rightarrow> (exit_code r, s'))"

text \<open>The module's state when \<open>main\<close> starts: fresh globals over a given filesystem.\<close>

definition init_state :: "py_path set \<Rightarrow> (py_path \<Rightarrow> json option) \<Rightarrow> pstate" where
  "init_state ds fls =
     \<lparr>dirs = ds, files = fls, log = [], AWS_ACCOUNT_ID = None, ARGS = None,
      role_template = ROLE_TEMPLATE, policy_template = POLICY_TEMPLATE\<rparr>"

definition root_dirs :: "py_path set" where
  "root_dirs = {\<lparr>root = [], tail = []\<rparr>, \<lparr>root = ''/'', tail = []\<rparr>, \<lparr>root = ''//'', tail = []\<rparr>}"

text \<open>The exceptions that, uncaught, end the process with status 1: all but \<open>parser.error\<close> and \<open>sys.exit\<close>.\<close>

definition script_error :: "error \<Rightarrow> bool" where
  "script_error e \<longleftrightarrow> exit_code (Inl e) = 1"

subsection \<open>\<open>getargs\<close>\<close>

lemma check_usernames:
  "py_for us check_username s =
     (case find (\<lambda>u. \<not> valid_username u) us of
        None \<Rightarrow> (Inr (), s)
      | Some u \<Rightarrow> (Inl (ParserExit (username_error u)), s))"
  by (induction us) (auto simp: check_username_def valid_username_def py_run)

lemma mkdir_workingdir_ok:
  "fs_wf s \<Longrightarrow> path_ok wd \<Longrightarrow> \<forall>q \<in> set (wd # ancestors wd). files s q = None \<Longrightarrow>
   mkdir_workingdir wd s = (Inr (), s\<lparr>dirs := dirs s \<union> set (wd # ancestors wd)\<rparr>)"
  by (simp add: mkdir_workingdir_def path_mkdir_creates del: set_simps)

lemma getargs_cases:
  assumes "fs_wf s" and "\<forall>q \<in> set (parse_path (ns_workingdir ns) # ancestors (parse_path (ns_workingdir ns))).
             files s q = None"
  shows "getargs ns s =
    (let wd = parse_path (ns_workingdir ns);
         s' = s\<lparr>dirs := dirs s \<union> set (wd # ancestors wd)\<rparr>
     in case find (\<lambda>u. \<not> valid_username u) (ns_usernames ns) of
          None \<Rightarrow> (Inr (args_of ns wd), s')
        | Some u \<Rightarrow> (Inl (ParserExit (username_error u)), s'))"
  using assms
  by (simp add: getargs_def mkdir_workingdir_ok path_ok_parse_path check_usernames Let_def py_run
      del: set_simps split: option.splits)

text \<open>The fresh process of the examples: the three roots and no file.\<close>

lemma fs_wf_init_root_dirs: "fs_wf (init_state root_dirs Map.empty)"
  by (simp add: fs_wf_def init_state_def root_dirs_def path_ok_def path_parent_def slash_def)

lemma parse_path_default_workingdir: "parse_path DEFAULT_WORKING_DIR = \<lparr>root = [], tail = [''tmp'']\<rparr>"
  by (simp add: DEFAULT_WORKING_DIR_def parse_path_def splitroot_def slash_def)

subsection \<open>\<open>main\<close>\<close>

lemma main_after_getargs:
  "getargs ns s = (Inr a, s1) \<Longrightarrow>
   main T ns s = create_identity_mapping T (role_name (accountname a)) (eks_username (accountname a))
                   (s1\<lparr>ARGS := Some a\<rparr>)"
  by (simp add: main_def Let_def py_run)

lemma main_getargs_error:
  "getargs ns s = (Inl e, s1) \<Longrightarrow> main T ns s = (Inl e, s1)"
  by (simp add: main_def py_run)

lemma os_mkdir_exit_code: "os_mkdir p fs = Inl e \<Longrightarrow> exit_code (Inl e) = 1"
  by (auto simp: os_mkdir_def exit_code_def split: option.splits if_splits)

text \<open>Every exception \<open>Path.mkdir\<close> lets escape is an \<open>OSError\<close>: uncaught, it exits with status 1.\<close>

lemma path_mkdir_exit_code:
  "path_mkdir parents exist_ok p fs = Inl e \<Longrightarrow> exit_code (Inl e) = 1"
proof (induction parents exist_ok p fs arbitrary: e rule: path_mkdir.induct)
  case (1 parents exist_ok p fs)
  show ?case
  proof (cases "os_mkdir p fs")
    case (Inl e0)
    then have e0: "exit_code (Inl e0) = 1" by (rule os_mkdir_exit_code)
    show ?thesis
      using "1.prems" "1.IH" Inl e0
      by (auto simp: path_mkdir.simps [of parents exist_ok p fs] split: error.splits if_splits sum.splits)
  next
    case (Inr fs')
    with "1.prems" show ?thesis by (simp add: path_mkdir.simps [of parents exist_ok p fs])
  qed
qed

subsection \<open>The exceptions of \<open>main\<close>\<close>

lemma raises_run_command: "raises_only script_error (run_command T cmd check)"
  unfolding run_command_def emit_def
  by (intro raises_only_pbind raises_only_pmodify raises_only_pgets)
     (auto intro!: raises_only_pbind raises_only_praise simp: script_error_def exit_code_def
        split: outcome.split)

lemma raises_get_arg: "raises_only script_error (get_arg name f)"
  unfolding get_arg_def
  by (intro raises_only_pbind raises_only_pgets) (auto simp: script_error_def exit_code_def split: option.split)

lemma py_getitem_exit_code: "py_getitem d k = Inl e \<Longrightarrow> exit_code (Inl e) = 1"
  by (induction d k rule: py_getitem.induct) (auto simp: script_error_def exit_code_def split: option.splits)

lemma py_getitem_script_error: "py_getitem d k = Inl e \<Longrightarrow> script_error e"
  using py_getitem_exit_code by (simp add: script_error_def)

lemma raises_get_aws_account_id: "raises_only script_error (get_aws_account_id T)"
proof -
  have f: "raises_only script_error (fetch_account T)"
    unfolding fetch_account_def
    apply (intro raises_only_pbind raises_run_command)
    apply (auto intro!: raises_only_pbind raises_only_praise split: option.split sum.split)
     apply (simp add: script_error_def exit_code_def)
    apply (erule py_getitem_script_error)
    done
  show ?thesis
    unfolding get_aws_account_id_def
    by (intro raises_only_pbind raises_only_pgets) (auto intro: f split: option.split)
qed

lemma raises_mkdir_workingdir: "raises_only script_error (mkdir_workingdir wd)"
  by (auto simp: raises_only_def mkdir_workingdir_def script_error_def dest: path_mkdir_exit_code split: sum.splits)

lemma raises_create_identity_mapping: "raises_only script_error (create_identity_mapping T r u)"
  unfolding create_identity_mapping_def
  by (intro raises_only_pbind raises_only_preturn raises_get_arg raises_get_aws_account_id raises_run_command)

subsection \<open>\<open>main\<close> writes no file\<close>

lemma preserves_files_run_command: "preserves (\<lambda>s. files s = F) (run_command T cmd check)"
proof (rule preservesI)
  fix s r s' assume F: "files s = F" and run: "run_command T cmd check s = (r, s')"
  have e: "s' = s\<lparr>log := log s'\<rparr>" using run by (rule run_command_frame)
  show "files s' = F" using arg_cong [where f = files, OF e] F by simp
qed

lemma preserves_files_get_account: "preserves (\<lambda>s. files s = F) (get_aws_account_id T)"
proof (rule preservesI)
  fix s r s' assume F: "files s = F" and g: "get_aws_account_id T s = (r, s')"
  have e: "s' = s\<lparr>log := log s', AWS_ACCOUNT_ID := AWS_ACCOUNT_ID s'\<rparr>" using g by (rule get_account_frame)
  show "files s' = F" using arg_cong [where f = files, OF e] F by simp
qed

lemma preserves_files_mkdir_workingdir: "preserves (\<lambda>s. files s = F) (mkdir_workingdir wd)"
  by (rule preservesI)
     (auto simp: mkdir_workingdir_def dest: path_mkdir_files split: sum.splits)

lemma preserves_check_username [intro!]: "preserves I (check_username u)"
  by (auto simp: check_username_def)

lemma preserves_files_main: "preserves (\<lambda>s. files s = F) (main T ns)"
  unfolding main_def getargs_def create_identity_mapping_def Let_def
  by (intro preserves_pbind preserves_py_for preserves_pmodify preserves_preturn preserves_check_username
        preserves_get_arg_any preserves_files_run_command preserves_files_get_account
        preserves_files_mkdir_workingdir) simp

text \<open>With valid arguments and room for the working directory, \<open>main\<close> reaches its one call.\<close>

lemma main_valid_start:
  assumes wf: "fs_wf s"
    and room: "\<forall>q \<in> set (parse_path (ns_workingdir ns) # ancestors (parse_path (ns_workingdir ns))).
                 files s q = None"
    and valid: "\<forall>u \<in> set (ns_usernames ns). valid_username u"
  shows "main T ns s =
    create_identity_mapping T (role_name (ns_accountname ns)) (eks_username (ns_accountname ns))
      (s\<lparr>dirs := dirs s \<union> set (parse_path (ns_workingdir ns) # ancestors (parse_path (ns_workingdir ns))),
         ARGS := Some (args_of ns (parse_path (ns_workingdir ns)))\<rparr>)"
proof -
  have "find (\<lambda>u. \<not> valid_username u) (ns_usernames ns) = None"
    using valid by (simp add: find_None_iff)
  then have "getargs ns s =
      (Inr (args_of ns (parse_path (ns_workingdir ns))),
       s\<lparr>dirs := dirs s \<union> set (parse_path (ns_workingdir ns) # ancestors (parse_path (ns_workingdir ns)))\<rparr>)"
    using getargs_cases [OF wf room] by (simp add: Let_def)
  then show ?thesis by (simp add: main_after_getargs args_of_def)
qed

lemma main_runs:
  assumes wf: "fs_wf (init_state ds fls)"
    and room: "\<forall>q \<in> set (parse_path (ns_workingdir ns) # ancestors (parse_path (ns_workingdir ns))).
                 fls q = None"
    and valid: "\<forall>u \<in> set (ns_usernames ns). valid_username u"
    and ident: "T [] identity_cmd = Completed 0 (Some doc)"
      "py_getitem doc (KStr ''Account'') = Inr acct"
    and eks: "T [identity_cmd]
      (mapping_cmd (ns_clustername ns) (role_arn acct (role_name (ns_accountname ns)))
         (eks_username (ns_accountname ns))) = Completed rc out"
  shows "main T ns (init_state ds fls) =
    (Inr (), (init_state ds fls)\<lparr>dirs := ds \<union> set (parse_path (ns_workingdir ns) # ancestors (parse_path (ns_workingdir ns))),
       ARGS := Some (args_of ns (parse_path (ns_workingdir ns))),
       log := [Stdout (echo_line identity_cmd), Exec identity_cmd,
              Stdout (echo_line (mapping_cmd (ns_clustername ns)
                 (role_arn acct (role_name (ns_accountname ns))) (eks_username (ns_accountname ns)))),
              Exec (mapping_cmd (ns_clustername ns)
                 (role_arn acct (role_name (ns_accountname ns))) (eks_username (ns_accountname ns)))],
       AWS_ACCOUNT_ID := Some acct\<rparr>)"
proof -
  let ?wd = "parse_path (ns_workingdir ns)"
  let ?a = "args_of ns ?wd"
  let ?s1 = "(init_state ds fls)\<lparr>dirs := ds \<union> set (?wd # ancestors ?wd)\<rparr>"
  let ?s2 = "?s1\<lparr>ARGS := Some ?a\<rparr>"
  let ?s3 = "?s2\<lparr>log := [Stdout (echo_line identity_cmd), Exec identity_cmd], AWS_ACCOUNT_ID := Some acct\<rparr>"
  have "find (\<lambda>u. \<not> valid_username u) (ns_usernames ns) = None"
    using valid by (simp add: find_None_iff)
  then have ga: "getargs ns (init_state ds fls) = (Inr ?a, ?s1)"
    using getargs_cases [OF wf] room by (simp add: init_state_def Let_def)
  have acc: "get_aws_account_id T ?s2 = (Inr acct, ?s3)"
    using ident by (simp add: get_account_uncached fetch_account_ok py_truthy_opt_def init_state_def)
  have "create_identity_mapping T (role_name (ns_accountname ns)) (eks_username (ns_accountname ns)) ?s2 =
    (Inr (), ?s3\<lparr>log := log ?s3 @
       [Stdout (echo_line (mapping_cmd (ns_clustername ns) (role_arn acct (role_name (ns_accountname ns)))
                             (eks_username (ns_accountname ns)))),
        Exec (mapping_cmd (ns_clustername ns) (role_arn acct (role_name (ns_accountname ns)))
                (eks_username (ns_accountname ns)))]\<rparr>)"
    using create_identity_mapping_ok [of ?s2 ?a T acct ?s3] acc eks by (simp add: args_of_def)
  with ga show ?thesis
    by (simp add: main_after_getargs args_of_def)
qed


text \<open>
  C1: end to end, with the script's defaults. From a fresh process over a well-formed
  filesystem where the working directory can be created, with valid user names, an
  identity check that exits 0 with an \<open>Account\<close>, and any outcome of \<open>eksctl\<close>
  (its exit status is not checked), the script exits 0 and its whole log is: the echo
  and run of \<open>aws sts get-caller-identity\<close>, then the echo and run of
  \<open>eksctl create iamidentitymapping\<close> with the cluster, the ARN of role
  \<open>eks-<account>-role\<close> and user name \<open>eks-<account>\<close>. No file is written and no
  other command runs.
\<close>

theorem main_end_to_end:
  assumes wf: "fs_wf (init_state ds fls)"
    and room: "\<forall>q \<in> set (parse_path (ns_workingdir ns) # ancestors (parse_path (ns_workingdir ns))).
                 fls q = None"
    and valid: "\<forall>u \<in> set (ns_usernames ns). valid_username u"
    and ident: "T [] identity_cmd = Completed 0 (Some doc)"
      "py_getitem doc (KStr ''Account'') = Inr acct"
    and eks: "T [identity_cmd]
      (mapping_cmd (ns_clustername ns) (role_arn acct (role_name (ns_accountname ns)))
         (eks_username (ns_accountname ns))) = Completed rc out"
  shows "\<exists>s'. run_script T ns (init_state ds fls) = (0, s') \<and>
    log s' = [Stdout (echo_line identity_cmd), Exec identity_cmd,
              Stdout (echo_line (mapping_cmd (ns_clustername ns)
                 (role_arn acct (role_name (ns_accountname ns))) (eks_username (ns_accountname ns)))),
              Exec (mapping_cmd (ns_clustername ns)
                 (role_arn acct (role_name (ns_accountname ns))) (eks_username (ns_accountname ns)))]"
  using main_runs [OF assms] by (simp add: run_script_def exit_code_def)

theorem main_end_to_end_witness:
  "\<exists>s'. run_script
      (\<lambda>h c. if c = identity_cmd then Completed 0 (Some (JObj [(KStr ''Account'', JStr ''123456789012'')]))
              else Completed 0 None)
      \<lparr>ns_accountname = ''team1'', ns_clustername = ''prod'', ns_region = None,
       ns_usernames = [''dave''], ns_workingdir = DEFAULT_WORKING_DIR\<rparr>
      (init_state root_dirs Map.empty) = (0, s') \<and>
    log s' = [Stdout ''Running: aws sts get-caller-identity'', Exec [''aws'', ''sts'', ''get-caller-identity''],
              Stdout ''Running: eksctl create iamidentitymapping --cluster prod --arn arn:aws:iam::123456789012:role/eks-team1-role --username eks-team1'',
              Exec [''eksctl'', ''create'', ''iamidentitymapping'', ''--cluster'', ''prod'',
                    ''--arn'', ''arn:aws:iam::123456789012:role/eks-team1-role'', ''--username'', ''eks-team1'']]"
proof -
  let ?T = "\<lambda>h c. if c = identity_cmd then Completed 0 (Some (JObj [(KStr ''Account'', JStr ''123456789012'')]))
              else Completed 0 None"
  let ?ns = "\<lparr>ns_accountname = ''team1'', ns_clustername = ''prod'', ns_region = None,
       ns_usernames = [''dave''], ns_workingdir = DEFAULT_WORKING_DIR\<rparr>"
  note wf = fs_wf_init_root_dirs
  note wd = parse_path_default_workingdir
  show ?thesis
    using main_end_to_end [OF wf, of ?ns ?T "JObj [(KStr ''Account'', JStr ''123456789012'')]"
        "JStr ''123456789012''" 0 None]
    by (simp add: wd identity_cmd_def valid_username_def mapping_cmd_def role_arn_def role_name_def
        eks_username_def echo_line_def)
qed

text \<open>
  C2: a user name containing \<open>:\<close> or \<open>/\<close> (a full ARN) is refused before any
  external call: \<open>main\<close> raises \<open>parser.error\<close>'s exit with the message for the first
  such name, the log is unchanged (no command, no output modelled), the exit status is
  2; the working directory has already been created, since \<open>getargs\<close> runs
  \<open>mkdir\<close> before the check.
\<close>

theorem main_rejects_arn_username:
  assumes wf: "fs_wf s"
    and room: "\<forall>q \<in> set (parse_path (ns_workingdir ns) # ancestors (parse_path (ns_workingdir ns))).
                 files s q = None"
    and bad: "find (\<lambda>u. \<not> valid_username u) (ns_usernames ns) = Some u"
  shows "main T ns s =
           (Inl (ParserExit (''Username only should be passed, not a full ARN (f'' @ u @ '')'')),
            s\<lparr>dirs := dirs s \<union> set (parse_path (ns_workingdir ns) # ancestors (parse_path (ns_workingdir ns)))\<rparr>) \<and>
         fst (run_script T ns s) = 2"
proof -
  have "getargs ns s =
          (Inl (ParserExit (username_error u)),
           s\<lparr>dirs := dirs s \<union> set (parse_path (ns_workingdir ns) # ancestors (parse_path (ns_workingdir ns)))\<rparr>)"
    using getargs_cases [OF wf room] bad by (simp add: Let_def)
  then show ?thesis
    by (simp add: main_getargs_error run_script_def exit_code_def username_error_def)
qed

theorem main_rejects_arn_username_witness:
  "main (\<lambda>h c. Completed 0 None) \<lparr>ns_accountname = ''team1'', ns_clustername = ''prod'', ns_region = None,
       ns_usernames = [''dave'', ''arn:aws:iam::1:user/eve''], ns_workingdir = DEFAULT_WORKING_DIR\<rparr>
      (init_state root_dirs Map.empty) =
    (Inl (ParserExit ''Username only should be passed, not a full ARN (farn:aws:iam::1:user/eve)''),
     (init_state root_dirs Map.empty)\<lparr>dirs := root_dirs \<union> {\<lparr>root = [], tail = [''tmp'']\<rparr>}\<rparr>) \<and>
   fst (run_script (\<lambda>h c. Completed 0 None) \<lparr>ns_accountname = ''team1'', ns_clustername = ''prod'', ns_region = None,
       ns_usernames = [''dave'', ''arn:aws:iam::1:user/eve''], ns_workingdir = DEFAULT_WORKING_DIR\<rparr>
      (init_state root_dirs Map.empty)) = 2"
proof -
  note wf = fs_wf_init_root_dirs
  note wd = parse_path_default_workingdir
  have bad: "find (\<lambda>u. \<not> valid_username u) [''dave'', ''arn:aws:iam::1:user/eve''] = Some ''arn:aws:iam::1:user/eve''"
    by (simp add: valid_username_def)
  show ?thesis
    using main_rejects_arn_username [OF wf, of "\<lparr>ns_accountname = ''team1'', ns_clustername = ''prod'', ns_region = None,
       ns_usernames = [''dave'', ''arn:aws:iam::1:user/eve''], ns_workingdir = DEFAULT_WORKING_DIR\<rparr>" "''arn:aws:iam::1:user/eve''"
        "\<lambda>h c. Completed 0 None"] bad
    by (simp add: wd ancestors_def init_state_def root_dirs_def insert_commute)
qed

text \<open>
  C6: when the identity check exits non-zero, \<open>main\<close> stops with
  \<open>CalledProcessError\<close> right after it: the identity check is the last command
  of the log, and the script exits with status 1.
\<close>

theorem main_identity_failure:
  assumes wf: "fs_wf s"
    and room: "\<forall>q \<in> set (parse_path (ns_workingdir ns) # ancestors (parse_path (ns_workingdir ns))).
                 files s q = None"
    and valid: "\<forall>u \<in> set (ns_usernames ns). valid_username u"
    and nocache: "AWS_ACCOUNT_ID s = None"
    and fail: "T (calls_of (log s)) identity_cmd = Completed rc out" "rc \<noteq> 0"
  shows "\<exists>s'. main T ns s = (Inl (CalledProcessError rc identity_cmd), s') \<and>
              log s' = log s @ [Stdout (echo_line identity_cmd), Exec identity_cmd] \<and>
              fst (run_script T ns s) = 1"
proof -
  let ?wd = "parse_path (ns_workingdir ns)"
  let ?s2 = "s\<lparr>dirs := dirs s \<union> set (?wd # ancestors ?wd), ARGS := Some (args_of ns ?wd)\<rparr>"
  have start: "main T ns s =
      create_identity_mapping T (role_name (ns_accountname ns)) (eks_username (ns_accountname ns)) ?s2"
    using wf room valid by (rule main_valid_start)
  have acc: "get_aws_account_id T ?s2 =
     (Inl (CalledProcessError rc identity_cmd),
      ?s2\<lparr>log := log s @ [Stdout (echo_line identity_cmd), Exec identity_cmd]\<rparr>)"
    using nocache fail by (simp add: get_account_uncached fetch_account_nonzero py_truthy_opt_def)
  have "create_identity_mapping T (role_name (ns_accountname ns)) (eks_username (ns_accountname ns)) ?s2 =
     (Inl (CalledProcessError rc identity_cmd),
      ?s2\<lparr>log := log s @ [Stdout (echo_line identity_cmd), Exec identity_cmd]\<rparr>)"
    using acc by (simp add: create_identity_mapping_def py_run args_of_def)
  with start show ?thesis
    by (simp add: run_script_def exit_code_def)
qed

theorem main_identity_failure_witness:
  "\<exists>s'. main (\<lambda>h c. Completed 255 None) \<lparr>ns_accountname = ''team1'', ns_clustername = ''prod'', ns_region = None,
       ns_usernames = [''dave''], ns_workingdir = DEFAULT_WORKING_DIR\<rparr>
      (init_state root_dirs Map.empty) = (Inl (CalledProcessError 255 identity_cmd), s') \<and>
    log s' = [Stdout (echo_line identity_cmd), Exec identity_cmd] \<and>
    fst (run_script (\<lambda>h c. Completed 255 None) \<lparr>ns_accountname = ''team1'', ns_clustername = ''prod'', ns_region = None,
       ns_usernames = [''dave''], ns_workingdir = DEFAULT_WORKING_DIR\<rparr>
      (init_state root_dirs Map.empty)) = 1"
proof -
  note wf = fs_wf_init_root_dirs
  note wd = parse_path_default_workingdir
  show ?thesis
    using main_identity_failure [OF wf, of "\<lparr>ns_accountname = ''team1'', ns_clustername = ''prod'', ns_region = None,
       ns_usernames = [''dave''], ns_workingdir = DEFAULT_WORKING_DIR\<rparr>" "\<lambda>h c. Completed 255 None" 255 None]
    by (simp add: wd ancestors_def init_state_def root_dirs_def valid_username_def)
qed

text \<open>
  C7: when a file lies on the working directory's path (the directory itself or an
  ancestor), \<open>mkdir\<close> fails, \<open>main\<close> raises an \<open>OSError\<close> with the state
  untouched (no command, no file) and the script exits with status 1.
\<close>

theorem main_workingdir_blocked:
  assumes wf: "fs_wf s"
    and blocked: "\<exists>q \<in> set (parse_path (ns_workingdir ns) # ancestors (parse_path (ns_workingdir ns))).
                    files s q \<noteq> None"
  shows "\<exists>e. main T ns s = (Inl e, s) \<and> fst (run_script T ns s) = 1"
proof -
  obtain e where mk: "path_mkdir True True (parse_path (ns_workingdir ns)) s = Inl e"
    using path_mkdir_file_in_way [OF wf path_ok_parse_path blocked] by blast
  have "getargs ns s = (Inl e, s)"
    using mk by (simp add: getargs_def mkdir_workingdir_def Let_def py_run)
  moreover have "exit_code (Inl e) = 1"
    using mk by (rule path_mkdir_exit_code)
  ultimately show ?thesis
    by (simp add: main_getargs_error run_script_def)
qed

theorem main_workingdir_blocked_witness:
  "\<exists>e. main (\<lambda>h c. Completed 0 None) \<lparr>ns_accountname = ''team1'', ns_clustername = ''prod'', ns_region = None,
       ns_usernames = [''dave''], ns_workingdir = DEFAULT_WORKING_DIR\<rparr>
      (init_state root_dirs [\<lparr>root = [], tail = [''tmp'']\<rparr> \<mapsto> JNull]) =
      (Inl e, init_state root_dirs [\<lparr>root = [], tail = [''tmp'']\<rparr> \<mapsto> JNull]) \<and>
    fst (run_script (\<lambda>h c. Completed 0 None) \<lparr>ns_accountname = ''team1'', ns_clustername = ''prod'', ns_region = None,
       ns_usernames = [''dave''], ns_workingdir = DEFAULT_WORKING_DIR\<rparr>
      (init_state root_dirs [\<lparr>root = [], tail = [''tmp'']\<rparr> \<mapsto> JNull])) = 1"
proof -
  have wf: "fs_wf (init_state root_dirs [\<lparr>root = [], tail = [''tmp'']\<rparr> \<mapsto> JNull])"
    by (auto simp: fs_wf_def init_state_def root_dirs_def path_ok_def path_parent_def slash_def)
  note wd = parse_path_default_workingdir
  show ?thesis
    using main_workingdir_blocked [OF wf, of "\<lparr>ns_accountname = ''team1'', ns_clustername = ''prod'', ns_region = None,
       ns_usernames = [''dave''], ns_workingdir = DEFAULT_WORKING_DIR\<rparr>" "\<lambda>h c. Completed 0 None"]
    by (simp add: wd init_state_def)
qed

text \<open>
  C16: when the identity check exits 0 but its output is not JSON, or is JSON without
  a usable \<open>Account\<close> (not an object, or no such key), \<open>json.loads(...)["Account"]\<close>
  raises \<open>JSONDecodeError\<close>, \<open>KeyError\<close> or \<open>TypeError\<close> right after the
  identity check: nothing is cached, no other command runs, and the script exits with
  status 1.
\<close>

theorem main_identity_unparsable:
  assumes wf: "fs_wf s"
    and room: "\<forall>q \<in> set (parse_path (ns_workingdir ns) # ancestors (parse_path (ns_workingdir ns))).
                 files s q = None"
    and valid: "\<forall>u \<in> set (ns_usernames ns). valid_username u"
    and nocache: "AWS_ACCOUNT_ID s = None"
    and ans: "T (calls_of (log s)) identity_cmd = Completed 0 out"
    and bad: "out = None \<or> (\<exists>doc. out = Some doc \<and> isl (py_getitem doc (KStr ''Account'')))"
  shows "\<exists>e s'. main T ns s = (Inl e, s') \<and>
           e \<in> {JSONDecodeError, KeyError (key_repr (KStr ''Account'')), TypeError} \<and>
           log s' = log s @ [Stdout (echo_line identity_cmd), Exec identity_cmd] \<and>
           AWS_ACCOUNT_ID s' = None \<and> fst (run_script T ns s) = 1"
proof -
  let ?wd = "parse_path (ns_workingdir ns)"
  let ?s2 = "s\<lparr>dirs := dirs s \<union> set (?wd # ancestors ?wd), ARGS := Some (args_of ns ?wd)\<rparr>"
  have start: "main T ns s =
      create_identity_mapping T (role_name (ns_accountname ns)) (eks_username (ns_accountname ns)) ?s2"
    using wf room valid by (rule main_valid_start)
  obtain e where fe: "fetch_account T ?s2 =
      (Inl e, ?s2\<lparr>log := log ?s2 @ [Stdout (echo_line identity_cmd), Exec identity_cmd]\<rparr>)"
    and ee: "e \<in> {JSONDecodeError, KeyError (key_repr (KStr ''Account'')), TypeError}"
    using fetch_account_bad_output [of T ?s2 out] ans bad by auto
  have "create_identity_mapping T (role_name (ns_accountname ns)) (eks_username (ns_accountname ns)) ?s2 =
      (Inl e, ?s2\<lparr>log := log ?s2 @ [Stdout (echo_line identity_cmd), Exec identity_cmd]\<rparr>)"
    using fe nocache
    by (simp add: create_identity_mapping_def get_account_uncached py_truthy_opt_def py_run args_of_def)
  with start ee nocache show ?thesis
    by (auto simp: run_script_def exit_code_def simp del: key_repr.simps)
qed

theorem main_identity_unparsable_witness:
  "\<exists>e s'. main (\<lambda>h c. Completed 0 (Some (JObj [(KStr ''Error'', JStr ''ExpiredToken'')])))
      \<lparr>ns_accountname = ''team1'', ns_clustername = ''prod'', ns_region = None,
       ns_usernames = [''dave''], ns_workingdir = DEFAULT_WORKING_DIR\<rparr>
      (init_state root_dirs Map.empty) = (Inl e, s') \<and>
    e \<in> {JSONDecodeError, KeyError (key_repr (KStr ''Account'')), TypeError} \<and>
    log s' = [Stdout (echo_line identity_cmd), Exec identity_cmd] \<and>
    AWS_ACCOUNT_ID s' = None \<and>
    fst (run_script (\<lambda>h c. Completed 0 (Some (JObj [(KStr ''Error'', JStr ''ExpiredToken'')])))
      \<lparr>ns_accountname = ''team1'', ns_clustername = ''prod'', ns_region = None,
       ns_usernames = [''dave''], ns_workingdir = DEFAULT_WORKING_DIR\<rparr>
      (init_state root_dirs Map.empty)) = 1"
  using main_identity_unparsable [OF fs_wf_init_root_dirs,
      of "\<lparr>ns_accountname = ''team1'', ns_clustername = ''prod'', ns_region = None,
       ns_usernames = [''dave''], ns_workingdir = DEFAULT_WORKING_DIR\<rparr>"
      "\<lambda>h c. Completed 0 (Some (JObj [(KStr ''Error'', JStr ''ExpiredToken'')]))"
      "Some (JObj [(KStr ''Error'', JStr ''ExpiredToken'')])"]
  by (simp add: parse_path_default_workingdir ancestors_def init_state_def root_dirs_def
      valid_username_def del: key_repr.simps)

subsection \<open>The user-name check against the spec\<close>

text \<open>
  C26: the validation loop of \<open>getargs\<close> (\<open>for username in args.usernames: if ":"
  in username or "/" in username: parser.error(...)\<close>) is equivalent to the spec's
  declarative rule: it succeeds exactly when every name is free of \<open>:\<close> and
  \<open>/\<close>, and otherwise fails with the message for the first offending name; it
  changes no state either way.
\<close>

theorem check_usernames_declarative:
  "py_for us check_username s =
     (if list_all valid_username us then (Inr (), s)
      else (Inl (ParserExit (username_error (hd (filter (\<lambda>u. \<not> valid_username u) us)))), s))"
  by (induction us) (auto simp: check_username_def valid_username_def py_run)

end
