(* ===== verification/Session.thy ===== *)
theory Session
  imports Cli
begin

text \<open>
  A session of the module: \<open>main\<close> sets \<open>ARGS\<close> from \<open>getargs()\<close> and then calls
  the module's operations. The released \<open>main\<close> (createrole.py lines 207-218) calls
  only \<open>create_identity_mapping\<close>; the calls of \<open>create_aws_role\<close>,
  \<open>create_aws_policy\<close> and \<open>create_aws_group\<close> are commented out (lines 215-217).
  \<open>reachable\<close> therefore lets any sequence of the operations run after a successful
  \<open>getargs\<close>, which covers the released \<open>main\<close> and every version of it with some
  of those lines enabled, in any order, with any results (an exception ends a real
  run, but the state it leaves is reachable too).
  \<^item> \<open>op\<close>, \<open>exec_op\<close>: the operations and their bodies from \<open>Account\<close> and \<open>Iam\<close>.
  \<^item> \<open>inv_at a\<close>: the session invariant once \<open>ARGS = a\<close>: the arguments passed
    validation, the working directory exists, the filesystem is well formed, every
    command was echoed, both templates differ from their initial values only in the
    slot the script assigns, the account is cached only after the identity check
    ran, and every file written is one of the two policy files of the working
    directory (\<open>writes_ok\<close>).
  \<^item> \<open>preserves_exec_op\<close>: every operation keeps \<open>inv_at a\<close>, whatever it returns
    or raises; \<open>reachable_inv\<close> follows by rule induction.
\<close>

datatype op =
    GetAccount
  | CreateRole string
  | CreatePolicy string string
  | CreateGroup string string string
  | CreateMapping string string

fun exec_op :: "tools \<Rightarrow> op \<Rightarrow> (pstate, unit) py" where
  "exec_op T GetAccount = pbind (get_aws_account_id T) (\<lambda>_. preturn ())"
| "exec_op T (CreateRole r) = create_aws_role T r"
| "exec_op T (CreatePolicy p r) = XXXcreate_aws_policy T p r"
| "exec_op T (CreateGroup g r p) = create_aws_group T g r p"
| "exec_op T (CreateMapping r u) = create_identity_mapping T r u"

inductive reachable :: "tools \<Rightarrow> pstate \<Rightarrow> bool" for T where
  boot: "fs_wf (init_state ds fls) \<Longrightarrow> getargs ns (init_state ds fls) = (Inr a, s) \<Longrightarrow>
         reachable T (s\<lparr>ARGS := Some a\<rparr>)"
| step: "reachable T s \<Longrightarrow> exec_op T c s = (r, s') \<Longrightarrow> reachable T s'"

definition args_ok :: "args \<Rightarrow> bool" where
  "args_ok a \<longleftrightarrow> path_ok (workingdir a) \<and> list_all valid_username (usernames a)"

definition cache_ok :: "pstate \<Rightarrow> bool" where
  "cache_ok s \<longleftrightarrow> AWS_ACCOUNT_ID s = None \<or> identity_cmd \<in> set (calls_of (log s))"

definition policy_files :: "args \<Rightarrow> py_path set" where
  "policy_files a =
     {path_div (workingdir a) ''role_policy.json'', path_div (workingdir a) ''assume_role_policy.json''}"

definition writes_ok :: "args \<Rightarrow> event list \<Rightarrow> bool" where
  "writes_ok a es \<longleftrightarrow> (\<forall>f v. WriteJson f v \<in> set es \<longrightarrow> f \<in> policy_files a)"

definition inv_at :: "args \<Rightarrow> pstate \<Rightarrow> bool" where
  "inv_at a s \<longleftrightarrow>
     ARGS s = Some a \<and> args_ok a \<and> workingdir a \<in> dirs s \<and> fs_wf s \<and> echoed (log s) \<and>
     role_template_ok (role_template s) \<and> policy_template_ok (policy_template s) \<and> cache_ok s \<and>
     writes_ok a (log s)"

definition session_inv :: "pstate \<Rightarrow> bool" where
  "session_inv s \<longleftrightarrow> (case ARGS s of None \<Rightarrow> False | Some a \<Rightarrow> inv_at a s)"

subsection \<open>The invariant under the primitives\<close>

lemma inv_at_log:
  "inv_at a s \<Longrightarrow> echoed (log s @ es) \<Longrightarrow> \<forall>f v. WriteJson f v \<notin> set es \<Longrightarrow>
   inv_at a (s\<lparr>log := log s @ es\<rparr>)"
  by (auto simp: inv_at_def cache_ok_def fs_wf_def writes_ok_def)

lemma preserves_run_command: "preserves (inv_at a) (run_command T cmd check)"
proof (rule preservesI)
  fix s r s' assume I: "inv_at a s" and run: "run_command T cmd check s = (r, s')"
  have ech: "echoed (log s)" using I by (simp add: inv_at_def)
  from run_command_log [OF run] show "inv_at a s'"
    using I ech by (auto intro: inv_at_log echoed_steps)
qed

lemma preserves_emit_stdout: "preserves (inv_at a) (emit (Stdout line))"
proof (rule preservesI)
  fix s r s' assume I: "inv_at a s" and run: "emit (Stdout line) s = (r, s')"
  have "echoed (log s @ [Stdout line])" using I by (auto simp: inv_at_def intro: echoed_snoc)
  with I run show "inv_at a s'" by (auto intro: inv_at_log)
qed

lemma preserves_fetch_account: "preserves (inv_at a) (fetch_account T)"
proof (rule preservesI)
  fix s r s' assume I: "inv_at a s" and f: "fetch_account T s = (r, s')"
  obtain r1 s1 where run: "run_command T identity_cmd True s = (r1, s1)" by force
  have I1: "inv_at a s1" using preserves_run_command I run by (rule preservesD)
  show "inv_at a s'"
  proof (cases r1)
    case (Inl e)
    with f run I1 show ?thesis by (simp add: fetch_account_def py_run)
  next
    case (Inr x)
    with run have "identity_cmd \<in> set (calls_of (log s1))"
      by (auto dest: run_command_Inr)
    with I1 have "inv_at a (s1\<lparr>AWS_ACCOUNT_ID := v\<rparr>)" for v
      by (simp add: inv_at_def cache_ok_def fs_wf_def)
    with f run I1 Inr show ?thesis
      by (auto simp: fetch_account_def py_run split: prod.splits option.splits sum.splits)
  qed
qed

lemma preserves_get_account: "preserves (inv_at a) (get_aws_account_id T)"
proof (rule preservesI)
  fix s r s' assume I: "inv_at a s" and g: "get_aws_account_id T s = (r, s')"
  show "inv_at a s'"
  proof (cases "py_truthy_opt (AWS_ACCOUNT_ID s)")
    case True
    with g I show ?thesis
      by (auto simp: get_aws_account_id_def py_truthy_opt_def py_run split: option.splits if_splits)
  next
    case False
    with g have "fetch_account T s = (r, s')" by (simp add: get_account_uncached)
    with preserves_fetch_account I show ?thesis by (rule preservesD)
  qed
qed

lemma role_template_ok_set:
  "role_template_ok t \<Longrightarrow> set_path role_principal_path v t = Inr t' \<Longrightarrow> role_template_ok t'"
  unfolding role_template_ok_def by (metis set_path_twice)

lemma policy_template_ok_set:
  "policy_template_ok t \<Longrightarrow> set_path policy_resource_path v t = Inr t' \<Longrightarrow> policy_template_ok t'"
  unfolding policy_template_ok_def by (metis set_path_twice)

lemma preserves_assign_role:
  "preserves (inv_at a) (assign_template role_template role_template_update role_principal_path v)"
proof (rule preservesI)
  fix s r s' assume I: "inv_at a s"
    and as: "assign_template role_template role_template_update role_principal_path v s = (r, s')"
  show "inv_at a s'"
  proof (cases "set_path role_principal_path v (role_template s)")
    case (Inl e)
    with as I show ?thesis by (simp add: assign_template_def)
  next
    case (Inr t)
    with I have ok: "role_template_ok t" by (auto simp: inv_at_def intro: role_template_ok_set)
    from as Inr have "s' = s\<lparr>role_template := t\<rparr>" by (simp add: assign_template_def)
    with ok I show ?thesis by (simp add: inv_at_def cache_ok_def fs_wf_def)
  qed
qed

lemma preserves_assign_policy:
  "preserves (inv_at a) (assign_template policy_template policy_template_update policy_resource_path v)"
proof (rule preservesI)
  fix s r s' assume I: "inv_at a s"
    and as: "assign_template policy_template policy_template_update policy_resource_path v s = (r, s')"
  show "inv_at a s'"
  proof (cases "set_path policy_resource_path v (policy_template s)")
    case (Inl e)
    with as I show ?thesis by (simp add: assign_template_def)
  next
    case (Inr t)
    with I have ok: "policy_template_ok t" by (auto simp: inv_at_def intro: policy_template_ok_set)
    from as Inr have "s' = s\<lparr>policy_template := t\<rparr>" by (simp add: assign_template_def)
    with ok I show ?thesis by (simp add: inv_at_def cache_ok_def fs_wf_def)
  qed
qed

lemma preserves_dump_workingdir:
  assumes name: "name \<noteq> []" "name \<noteq> ''.''" "slash \<notin> set name"
    and known: "name \<in> {''role_policy.json'', ''assume_role_policy.json''}"
  shows "preserves (inv_at a) (json_dump_file v (path_div (workingdir a) name))"
proof (rule preservesI)
  let ?f = "path_div (workingdir a) name"
  fix s r s' assume I: "inv_at a s" and d: "json_dump_file v ?f s = (r, s')"
  have ok: "path_ok (workingdir a)" and wd: "workingdir a \<in> dirs s" and wf: "fs_wf s"
    and ech: "echoed (log s)"
    using I by (simp_all add: inv_at_def args_ok_def)
  have f: "?f = (workingdir a)\<lparr>tail := tail (workingdir a) @ [name]\<rparr>"
    using ok name by (rule path_div_name)
  then have fok: "path_ok ?f" and par: "path_parent ?f = workingdir a"
    using ok name by (auto simp: path_ok_def path_parent_def)
  show "inv_at a s'"
  proof (cases "s' = s")
    case True
    with I show ?thesis by simp
  next
    case False
    with d have s': "s' = s\<lparr>files := (files s)(?f \<mapsto> v), log := log s @ [WriteJson ?f v]\<rparr>"
      and nd: "?f \<notin> dirs s"
      by (auto simp: json_dump_file_def split: option.splits if_splits)
    have "fs_wf (s\<lparr>files := (files s)(?f \<mapsto> v)\<rparr>)"
      using wf fok par wd nd by (intro fs_wf_add_file) simp_all
    moreover have "echoed (log s @ [WriteJson ?f v])"
      using ech by (rule echoed_snoc) simp
    moreover have "?f \<in> policy_files a" using known by (auto simp: policy_files_def)
    ultimately show ?thesis
      using I s' by (simp add: inv_at_def cache_ok_def fs_wf_def writes_ok_def)
  qed
qed

lemma preserves_get_arg_inv:
  "preserves (inv_at a) (k (f a)) \<Longrightarrow> preserves (inv_at a) (pbind (get_arg name f) k)"
  by (rule preserves_get_arg) (simp_all add: inv_at_def)

lemmas preserves_ops =
  preserves_get_arg_inv preserves_pbind preserves_py_map preserves_py_for
  preserves_preturn preserves_praise preserves_pgets
  preserves_run_command preserves_emit_stdout preserves_get_account
  preserves_assign_role preserves_assign_policy preserves_dump_workingdir

subsection \<open>Every operation keeps the invariant\<close>

lemma preserves_exec_op: "preserves (inv_at a) (exec_op T c)"
proof (cases c)
  case GetAccount
  then show ?thesis by (simp add: preserves_ops)
next
  case (CreateRole r)
  show ?thesis
    unfolding CreateRole exec_op.simps create_aws_role_def Let_def
    by (intro preserves_ops) (simp_all add: slash_def)
next
  case (CreatePolicy p r)
  show ?thesis
    unfolding CreatePolicy exec_op.simps XXXcreate_aws_policy_def Let_def
    by (intro preserves_ops) (simp_all add: slash_def)
next
  case (CreateGroup g r p)
  show ?thesis
    unfolding CreateGroup exec_op.simps create_aws_group_def Let_def
    by (intro preserves_ops) (simp_all add: slash_def)
next
  case (CreateMapping r u)
  show ?thesis
    unfolding CreateMapping exec_op.simps create_identity_mapping_def
    by (intro preserves_ops)
qed

subsection \<open>Boot and reachability\<close>

lemma getargs_Inr:
  assumes wf: "fs_wf s" and g: "getargs ns s = (Inr a, s')"
  shows "s' = s\<lparr>dirs := dirs s'\<rparr> \<and> fs_wf s' \<and> workingdir a \<in> dirs s' \<and> dirs s \<subseteq> dirs s' \<and>
         a = args_of ns (parse_path (ns_workingdir ns)) \<and> args_ok a"
proof -
  let ?wd = "parse_path (ns_workingdir ns)"
  obtain s1 where mk: "path_mkdir True True ?wd s = Inr s1"
  proof (cases "path_mkdir True True ?wd s")
    case (Inl e)
    then have "getargs ns s = (Inl e, s)"
      by (simp add: getargs_def mkdir_workingdir_def Let_def pbind_Inl)
    with g show ?thesis by simp
  qed
  have mk1: "fs_wf s1 \<and> ?wd \<in> dirs s1 \<and> s1 = s\<lparr>dirs := dirs s1\<rparr> \<and> dirs s \<subseteq> dirs s1"
    using wf path_ok_parse_path mk by (rule path_mkdir_wf)
  have "mkdir_workingdir ?wd s = (Inr (), s1)" using mk by (simp add: mkdir_workingdir_def)
  then have g2: "pbind (py_for (ns_usernames ns) check_username) (\<lambda>_. preturn (args_of ns ?wd)) s1 = (Inr a, s')"
    using g by (simp add: getargs_def Let_def pbind_Inr)
  have nf: "find (\<lambda>u. \<not> valid_username u) (ns_usernames ns) = None"
    and a: "a = args_of ns ?wd" and s': "s' = s1"
    using g2 by (simp_all add: check_usernames py_run split: option.splits)
  have "list_all valid_username (ns_usernames ns)"
    using nf by (auto simp: find_None_iff list_all_iff)
  with mk1 a s' show ?thesis
    by (simp add: args_ok_def args_of_def path_ok_parse_path)
qed

lemma getargs_inv:
  assumes wf: "fs_wf s" and g: "getargs ns s = (Inr a, s')"
    and fresh: "log s = []" "AWS_ACCOUNT_ID s = None"
      "role_template_ok (role_template s)" "policy_template_ok (policy_template s)"
  shows "inv_at a (s'\<lparr>ARGS := Some a\<rparr>)"
proof -
  have g1: "s' = s\<lparr>dirs := dirs s'\<rparr> \<and> fs_wf s' \<and> workingdir a \<in> dirs s' \<and> args_ok a"
    using getargs_Inr [OF wf g] by blast
  then have e1: "s' = s\<lparr>dirs := dirs s'\<rparr>" by blast
  have fr: "log s' = log s" "AWS_ACCOUNT_ID s' = AWS_ACCOUNT_ID s"
    "role_template s' = role_template s" "policy_template s' = policy_template s"
    using arg_cong [where f = log, OF e1] arg_cong [where f = AWS_ACCOUNT_ID, OF e1]
      arg_cong [where f = role_template, OF e1] arg_cong [where f = policy_template, OF e1]
    by simp_all
  with g1 fresh show ?thesis
    by (simp add: inv_at_def cache_ok_def fs_wf_def writes_ok_def)
qed

lemma reachable_inv: "reachable T s \<Longrightarrow> session_inv s"
proof (induction rule: reachable.induct)
  case (boot ds fls ns a s)
  have "inv_at a (s\<lparr>ARGS := Some a\<rparr>)"
    using boot.hyps by (rule getargs_inv) (simp_all add: init_state_def)
  then show ?case by (simp add: session_inv_def)
next
  case (step s c r s')
  then obtain a where I: "inv_at a s" by (auto simp: session_inv_def split: option.splits)
  from preserves_exec_op I step.hyps(2) have "inv_at a s'" by (rule preservesD)
  then show ?case by (simp add: session_inv_def inv_at_def)
qed

lemma reachable_boot:
  assumes wf: "fs_wf (init_state ds fls)"
    and room: "\<forall>q \<in> set (parse_path (ns_workingdir ns) # ancestors (parse_path (ns_workingdir ns))).
                 fls q = None"
    and valid: "list_all valid_username (ns_usernames ns)"
  shows "reachable T ((init_state ds fls)
           \<lparr>dirs := ds \<union> set (parse_path (ns_workingdir ns) # ancestors (parse_path (ns_workingdir ns))),
            ARGS := Some (args_of ns (parse_path (ns_workingdir ns)))\<rparr>)"
proof -
  have "find (\<lambda>u. \<not> valid_username u) (ns_usernames ns) = None"
    using valid by (simp add: find_None_iff list_all_iff)
  then have "getargs ns (init_state ds fls) =
      (Inr (args_of ns (parse_path (ns_workingdir ns))),
       (init_state ds fls)\<lparr>dirs := ds \<union> set (parse_path (ns_workingdir ns) # ancestors (parse_path (ns_workingdir ns)))\<rparr>)"
    using getargs_cases [OF wf] room by (simp add: init_state_def Let_def)
  with wf show ?thesis by (rule reachable.boot)
qed

text \<open>
  The example session of the witnesses: the script's defaults, user \<open>alice\<close>, and an
  identity check answering account \<open>123456789012\<close>; after booting, the account is
  resolved once.
\<close>

lemma reachable_example:
  "reachable (\<lambda>h c. if c = identity_cmd then Completed 0 (Some (JObj [(KStr ''Account'', JStr ''123456789012'')]))
                   else Completed 0 None)
     ((init_state root_dirs Map.empty)
        \<lparr>dirs := insert \<lparr>root = [], tail = [''tmp'']\<rparr> root_dirs,
         ARGS := Some \<lparr>accountname = ''team1'', clustername = ''prod'', region = None,
                       usernames = [''alice''], workingdir = \<lparr>root = [], tail = [''tmp'']\<rparr>\<rparr>,
         log := [Stdout (echo_line identity_cmd), Exec identity_cmd],
         AWS_ACCOUNT_ID := Some (JStr ''123456789012'')\<rparr>)"
  (is "reachable ?T ?s1")
proof -
  let ?ns = "\<lparr>ns_accountname = ''team1'', ns_clustername = ''prod'', ns_region = None,
              ns_usernames = [''alice''], ns_workingdir = DEFAULT_WORKING_DIR\<rparr>"
  let ?b = "(init_state root_dirs Map.empty)
        \<lparr>dirs := insert \<lparr>root = [], tail = [''tmp'']\<rparr> root_dirs,
         ARGS := Some \<lparr>accountname = ''team1'', clustername = ''prod'', region = None,
                       usernames = [''alice''], workingdir = \<lparr>root = [], tail = [''tmp'']\<rparr>\<rparr>\<rparr>"
  have "reachable ?T ((init_state root_dirs Map.empty)
           \<lparr>dirs := root_dirs \<union> set (parse_path (ns_workingdir ?ns) # ancestors (parse_path (ns_workingdir ?ns))),
            ARGS := Some (args_of ?ns (parse_path (ns_workingdir ?ns)))\<rparr>)"
    by (rule reachable_boot [OF fs_wf_init_root_dirs])
       (simp_all add: parse_path_default_workingdir ancestors_def valid_username_def)
  then have b: "reachable ?T ?b"
    by (simp add: parse_path_default_workingdir ancestors_def args_of_def root_dirs_def)
  have "exec_op ?T GetAccount ?b = (Inr (), ?s1)"
    by (simp add: get_account_uncached fetch_account_ok init_state_def py_truthy_opt_def py_run)
  with b show ?thesis by (rule reachable.step)
qed

subsection \<open>Properties of every reachable state\<close>

text \<open>
  C9: in every reachable state, every external command in the log is immediately
  preceded by its \<open>Running: ...\<close> line, as \<open>run_command\<close> prints it.
\<close>

theorem reachable_echoed: "reachable T s \<Longrightarrow> echoed (log s)"
  by (drule reachable_inv) (auto simp: session_inv_def inv_at_def split: option.splits)

text \<open>
  C10: the module-level templates are reused across calls, but in every reachable state
  assigning the slot the script assigns yields exactly the fresh document: the trust
  policy for the given principals, and the assume-role policy for the given resource.
  Nothing a previous call wrote survives into the next document.
\<close>

theorem reachable_templates_fresh:
  "reachable T s \<Longrightarrow>
   set_path role_principal_path (JList (map JStr arns)) (role_template s) = Inr (role_policy_doc arns) \<and>
   set_path policy_resource_path (JStr res) (policy_template s) = Inr (assume_role_policy_doc res)"
  by (drule reachable_inv)
     (auto simp: session_inv_def inv_at_def set_path_role_template set_path_policy_template
      split: option.splits)

text \<open>
  An account is cached only after \<open>aws sts get-caller-identity\<close> has been started.
\<close>

theorem reachable_cache_sound:
  "reachable T s \<Longrightarrow> AWS_ACCOUNT_ID s = Some v \<Longrightarrow> identity_cmd \<in> set (calls_of (log s))"
  by (drule reachable_inv) (auto simp: session_inv_def inv_at_def cache_ok_def split: option.splits)

text \<open>
  C12: in every reachable state \<open>ARGS\<close> is set, its user names passed validation, its
  working directory exists, the filesystem is well formed, and every file the session
  has written is \<open>role_policy.json\<close> or \<open>assume_role_policy.json\<close> in that working
  directory, whatever the operations did since.
\<close>

theorem reachable_workdir:
  "reachable T s \<Longrightarrow>
   \<exists>a. ARGS s = Some a \<and> workingdir a \<in> dirs s \<and> fs_wf s \<and> list_all valid_username (usernames a) \<and>
       (\<forall>f v. WriteJson f v \<in> set (log s) \<longrightarrow>
          f = path_div (workingdir a) ''role_policy.json'' \<or> f = path_div (workingdir a) ''assume_role_policy.json'')"
  by (drule reachable_inv)
     (auto simp: session_inv_def inv_at_def args_ok_def writes_ok_def policy_files_def split: option.splits)

theorem reachable_echoed_witness:
  "reachable (\<lambda>h c. if c = identity_cmd then Completed 0 (Some (JObj [(KStr ''Account'', JStr ''123456789012'')]))
                   else Completed 0 None)
     ((init_state root_dirs Map.empty)
        \<lparr>dirs := insert \<lparr>root = [], tail = [''tmp'']\<rparr> root_dirs,
         ARGS := Some \<lparr>accountname = ''team1'', clustername = ''prod'', region = None,
                       usernames = [''alice''], workingdir = \<lparr>root = [], tail = [''tmp'']\<rparr>\<rparr>,
         log := [Stdout (echo_line identity_cmd), Exec identity_cmd],
         AWS_ACCOUNT_ID := Some (JStr ''123456789012'')\<rparr>) \<and>
   echoed [Stdout (echo_line identity_cmd), Exec identity_cmd]"
  using reachable_echoed [OF reachable_example] reachable_example by simp

theorem reachable_templates_fresh_witness:
  "set_path role_principal_path (JList [JStr ''arn:aws:iam::123456789012:user/alice'']) ROLE_TEMPLATE =
     Inr (role_policy_doc [''arn:aws:iam::123456789012:user/alice'']) \<and>
   set_path policy_resource_path (JStr ''arn:aws:iam::123456789012:role/eks-team1-role'') POLICY_TEMPLATE =
     Inr (assume_role_policy_doc ''arn:aws:iam::123456789012:role/eks-team1-role'')"
  using reachable_templates_fresh [OF reachable_example, of "[''arn:aws:iam::123456789012:user/alice'']"
      "''arn:aws:iam::123456789012:role/eks-team1-role''"]
  by (simp add: init_state_def)

theorem reachable_workdir_witness:
  "\<lparr>root = [], tail = [''tmp'']\<rparr> \<in> insert \<lparr>root = [], tail = [''tmp'']\<rparr> root_dirs \<and>
   list_all valid_username [''alice''] \<and>
   (\<forall>f v. WriteJson f v \<notin> set [Stdout (echo_line identity_cmd), Exec identity_cmd])"
  using reachable_workdir [OF reachable_example] by auto

text \<open>
  C14: the working directory is created if absent and reused if present: on the
  filesystem a successful \<open>getargs\<close> leaves, running it again with the same arguments
  succeeds with the same configuration and changes nothing.
\<close>

theorem getargs_reuses_workingdir:
  assumes wf: "fs_wf s" and g: "getargs ns s = (Inr a, s')"
  shows "getargs ns s' = (Inr a, s')"
proof -
  let ?wd = "parse_path (ns_workingdir ns)"
  have G: "s' = s\<lparr>dirs := dirs s'\<rparr> \<and> fs_wf s' \<and> workingdir a \<in> dirs s' \<and> dirs s \<subseteq> dirs s' \<and>
           a = args_of ns ?wd \<and> args_ok a"
    using wf g by (rule getargs_Inr)
  then have wf': "fs_wf s'" and a: "a = args_of ns ?wd" and ok: "args_ok a" by blast+
  with G have wd: "?wd \<in> dirs s'" by (simp add: args_of_def)
  have chain: "set (?wd # ancestors ?wd) \<subseteq> dirs s'"
    using dirs_ancestors_closed [OF wf' wd] wd by simp
  have room: "\<forall>q \<in> set (?wd # ancestors ?wd). files s' q = None"
    using chain wf' by (auto simp: fs_wf_def)
  have nf: "find (\<lambda>u. \<not> valid_username u) (ns_usernames ns) = None"
    using ok a by (simp add: args_ok_def args_of_def find_None_iff list_all_iff)
  have same: "dirs s' \<union> set (?wd # ancestors ?wd) = dirs s'"
    using chain by blast
  show ?thesis
    using getargs_cases [OF wf' room] nf a same by (simp add: Let_def del: set_simps)
qed

theorem getargs_reuses_workingdir_witness:
  "getargs \<lparr>ns_accountname = ''team1'', ns_clustername = ''prod'', ns_region = None,
            ns_usernames = [''alice''], ns_workingdir = DEFAULT_WORKING_DIR\<rparr>
     ((init_state root_dirs Map.empty)\<lparr>dirs := insert \<lparr>root = [], tail = [''tmp'']\<rparr> root_dirs\<rparr>) =
   (Inr \<lparr>accountname = ''team1'', clustername = ''prod'', region = None,
         usernames = [''alice''], workingdir = \<lparr>root = [], tail = [''tmp'']\<rparr>\<rparr>,
    (init_state root_dirs Map.empty)\<lparr>dirs := insert \<lparr>root = [], tail = [''tmp'']\<rparr> root_dirs\<rparr>)"
proof -
  let ?ns = "\<lparr>ns_accountname = ''team1'', ns_clustername = ''prod'', ns_region = None,
              ns_usernames = [''alice''], ns_workingdir = DEFAULT_WORKING_DIR\<rparr>"
  have "getargs ?ns (init_state root_dirs Map.empty) =
     (Inr \<lparr>accountname = ''team1'', clustername = ''prod'', region = None,
           usernames = [''alice''], workingdir = \<lparr>root = [], tail = [''tmp'']\<rparr>\<rparr>,
      (init_state root_dirs Map.empty)\<lparr>dirs := insert \<lparr>root = [], tail = [''tmp'']\<rparr> root_dirs\<rparr>)"
    using getargs_cases [OF fs_wf_init_root_dirs, of ?ns]
    by (simp add: parse_path_default_workingdir ancestors_def init_state_def root_dirs_def
        valid_username_def args_of_def Let_def insert_commute)
  with fs_wf_init_root_dirs show ?thesis by (rule getargs_reuses_workingdir)
qed

end
