(* ===== verification/AccountOnce.thy ===== *)
theory AccountOnce
  imports Session
begin

text \<open>
  Memoisation across a whole session. When the identity check always answers with the
  same truthy account, \<open>aws sts get-caller-identity\<close> runs at most once in any
  reachable session, however many operations resolve the account (\<open>create_aws_role\<close>
  once per user, \<open>XXXcreate_aws_policy\<close>, \<open>create_aws_group\<close> and
  \<open>create_identity_mapping\<close> once each). \<open>memo_ok v\<close> is the invariant: either
  nothing is cached and the check never ran, or \<open>v\<close> is cached and it ran exactly
  once. Every other command of the module differs from the identity check, so only
  \<open>get_aws_account_id\<close> can change the count.
\<close>

definition memo_ok :: "json \<Rightarrow> pstate \<Rightarrow> bool" where
  "memo_ok v s \<longleftrightarrow>
     (AWS_ACCOUNT_ID s = None \<and> count_list (calls_of (log s)) identity_cmd = 0) \<or>
     (AWS_ACCOUNT_ID s = Some v \<and> count_list (calls_of (log s)) identity_cmd = 1)"

text \<open>
  Without any assumption on the environment: \<open>identity_ok T h\<close> says that the identity
  check, started after the commands \<open>h\<close>, exits 0 with a truthy \<open>Account\<close> (the answer
  \<open>get_aws_account_id\<close> caches for good). \<open>identity_once T cs\<close> says that in the command
  sequence \<open>cs\<close> the identity check is never started again after such an answer;
  \<open>memo_inv\<close> adds that such an answer is still in the cache.
\<close>

definition identity_ok :: "tools \<Rightarrow> string list list \<Rightarrow> bool" where
  "identity_ok T h \<longleftrightarrow>
     (case T h identity_cmd of
        Completed rc (Some doc) \<Rightarrow>
          rc = 0 \<and> (case py_getitem doc (KStr ''Account'') of Inr v \<Rightarrow> py_truthy v | Inl _ \<Rightarrow> False)
      | _ \<Rightarrow> False)"

definition identity_once :: "tools \<Rightarrow> string list list \<Rightarrow> bool" where
  "identity_once T cs \<longleftrightarrow>
     (\<forall>i j. i < j \<longrightarrow> j < length cs \<longrightarrow> cs ! i = identity_cmd \<longrightarrow> cs ! j = identity_cmd \<longrightarrow>
            \<not> identity_ok T (take i cs))"

definition answered :: "tools \<Rightarrow> string list list \<Rightarrow> bool" where
  "answered T cs \<longleftrightarrow> (\<exists>i < length cs. cs ! i = identity_cmd \<and> identity_ok T (take i cs))"

definition memo_inv :: "tools \<Rightarrow> pstate \<Rightarrow> bool" where
  "memo_inv T s \<longleftrightarrow>
     identity_once T (calls_of (log s)) \<and>
     (answered T (calls_of (log s)) \<longrightarrow> py_truthy_opt (AWS_ACCOUNT_ID s))"

subsection \<open>The invariant under the primitives\<close>

lemma memo_ok_log:
  "memo_ok v s \<Longrightarrow> identity_cmd \<notin> set (calls_of es) \<Longrightarrow> memo_ok v (s\<lparr>log := log s @ es\<rparr>)"
  by (auto simp: memo_ok_def count_list_0_iff)

lemma preserves_memo_run:
  assumes cmd: "cmd \<noteq> identity_cmd"
  shows "preserves (memo_ok v) (run_command T cmd check)"
proof (rule preservesI)
  fix s r s' assume M: "memo_ok v s" and run: "run_command T cmd check s = (r, s')"
  from run_command_log [OF run] show "memo_ok v s'"
    using M cmd by (auto intro: memo_ok_log)
qed

lemma preserves_memo_stdout: "preserves (memo_ok v) (emit (Stdout line))"
  by (rule preservesI) (auto intro: memo_ok_log)

lemma preserves_memo_dump: "preserves (memo_ok v) (json_dump_file d f)"
  by (rule preservesI)
     (auto simp: json_dump_file_def memo_ok_def split: option.splits if_splits)

lemma preserves_memo_assign:
  "preserves (memo_ok v) (assign_template role_template role_template_update ks x)"
  "preserves (memo_ok v) (assign_template policy_template policy_template_update ks x)"
  by (auto simp: preserves_def assign_template_def memo_ok_def split: sum.splits)

lemma preserves_memo_account:
  assumes ans: "\<And>h. T h identity_cmd = Completed 0 (Some doc)"
    and acct: "py_getitem doc (KStr ''Account'') = Inr v" and tv: "py_truthy v"
  shows "preserves (memo_ok v) (get_aws_account_id T)"
proof (rule preservesI)
  fix s r s' assume M: "memo_ok v s" and g: "get_aws_account_id T s = (r, s')"
  show "memo_ok v s'"
  proof (cases "AWS_ACCOUNT_ID s")
    case None
    have "fetch_account T s =
      (Inr v, s\<lparr>log := log s @ [Stdout (echo_line identity_cmd), Exec identity_cmd],
                AWS_ACCOUNT_ID := Some v\<rparr>)"
      using ans acct by (rule fetch_account_ok)
    with g None M show ?thesis
      by (auto simp: get_account_uncached py_truthy_opt_def memo_ok_def)
  next
    case (Some w)
    with M have "w = v" by (simp add: memo_ok_def)
    with g Some M tv show ?thesis by (simp add: get_account_cached)
  qed
qed

lemmas memo_cmds_differ =
  identity_cmd_def create_role_cmd_def create_group_cmd_def put_group_policy_cmd_def
  add_user_cmd_def mapping_cmd_def

lemma preserves_memo_exec_op:
  assumes ans: "\<And>h. T h identity_cmd = Completed 0 (Some doc)"
    and acct: "py_getitem doc (KStr ''Account'') = Inr v" and tv: "py_truthy v"
  shows "preserves (memo_ok v) (exec_op T c)"
proof -
  have g: "preserves (memo_ok v) (get_aws_account_id T)"
    using ans acct tv by (rule preserves_memo_account)
  show ?thesis
  proof (cases c)
    case GetAccount
    with g show ?thesis by auto
  next
    case (CreateRole r)
    show ?thesis
      unfolding CreateRole exec_op.simps create_aws_role_def Let_def
      by (intro preserves_pbind preserves_py_map preserves_get_arg_any preserves_pgets
          preserves_preturn g preserves_memo_assign preserves_memo_dump preserves_memo_run)
         (simp add: memo_cmds_differ)
  next
    case (CreatePolicy p r)
    show ?thesis
      unfolding CreatePolicy exec_op.simps XXXcreate_aws_policy_def Let_def
      by (intro preserves_pbind preserves_get_arg_any preserves_pgets g
          preserves_memo_assign preserves_memo_dump preserves_memo_stdout)
  next
    case (CreateGroup g' r p)
    show ?thesis
      unfolding CreateGroup exec_op.simps create_aws_group_def Let_def
      by (intro preserves_pbind preserves_py_for preserves_get_arg_any preserves_pgets
          preserves_preturn g preserves_memo_assign preserves_memo_dump preserves_memo_run)
         (simp_all add: memo_cmds_differ)
  next
    case (CreateMapping r u)
    show ?thesis
      unfolding CreateMapping exec_op.simps create_identity_mapping_def
      by (intro preserves_pbind preserves_get_arg_any preserves_preturn g preserves_memo_run)
         (simp add: memo_cmds_differ)
  qed
qed

lemma getargs_log:
  assumes "fs_wf s" and "getargs ns s = (Inr a, s')"
  shows "log s' = log s \<and> AWS_ACCOUNT_ID s' = AWS_ACCOUNT_ID s"
proof -
  have e1: "s' = s\<lparr>dirs := dirs s'\<rparr>" using getargs_Inr [OF assms] by blast
  show ?thesis
    using arg_cong [where f = log, OF e1] arg_cong [where f = AWS_ACCOUNT_ID, OF e1] by simp
qed

subsection \<open>At most one identity check per session\<close>

text \<open>
  C13: when the identity check always exits 0 with the same truthy \<open>Account\<close>, every
  reachable session (the released \<open>main\<close>, or \<open>main\<close> with any of its disabled
  steps enabled, in any order and number) has started
  \<open>aws sts get-caller-identity\<close> at most once.
\<close>

theorem reachable_identity_once:
  assumes ans: "\<forall>h. T h identity_cmd = Completed 0 (Some doc)"
    and acct: "py_getitem doc (KStr ''Account'') = Inr v" and tv: "py_truthy v"
    and r: "reachable T s"
  shows "count_list (calls_of (log s)) identity_cmd \<le> 1"
proof -
  have ans': "\<And>h. T h identity_cmd = Completed 0 (Some doc)" using ans by blast
  have mp: "preserves (memo_ok v) (exec_op T c)" for c
    using ans' acct tv by (rule preserves_memo_exec_op)
  have "memo_ok v s"
    using r
  proof (induction rule: reachable.induct)
    case (boot ds fls ns a s)
    have "log s = [] \<and> AWS_ACCOUNT_ID s = None"
      using getargs_log [OF boot.hyps] by (simp add: init_state_def)
    then show ?case by (simp add: memo_ok_def)
  next
    case (step s c r s')
    from mp step.IH step.hyps(2) show ?case
      by (rule preservesD)
  qed
  then show ?thesis by (auto simp: memo_ok_def)
qed

theorem reachable_identity_once_witness:
  "count_list (calls_of [Stdout (echo_line identity_cmd), Exec identity_cmd]) identity_cmd \<le> 1"
  using reachable_identity_once [OF _ _ _ reachable_example,
      of "JObj [(KStr ''Account'', JStr ''123456789012'')]" "JStr ''123456789012''"]
  by simp

subsection \<open>The answer is never asked again\<close>

lemma identity_in_prefix:
  assumes "identity_cmd \<notin> set ds" "j < length (cs @ ds)" "(cs @ ds) ! j = identity_cmd"
  shows "j < length cs"
proof (rule ccontr)
  assume "\<not> j < length cs"
  with assms(2,3) have "ds ! (j - length cs) = identity_cmd" "j - length cs < length ds"
    by (simp_all add: nth_append)
  with assms(1) show False by (metis nth_mem)
qed

lemma memo_inv_frame:
  assumes I: "memo_inv T s" and l: "log s' = log s @ es" and n: "identity_cmd \<notin> set (calls_of es)"
    and c: "AWS_ACCOUNT_ID s' = AWS_ACCOUNT_ID s"
  shows "memo_inv T s'"
proof -
  let ?cs = "calls_of (log s)" and ?ds = "calls_of es"
  have cs': "calls_of (log s') = ?cs @ ?ds" using l by simp
  have pre: "j < length ?cs" if "j < length (?cs @ ?ds)" "(?cs @ ?ds) ! j = identity_cmd" for j
    using n that by (rule identity_in_prefix)
  have "identity_once T (?cs @ ?ds)"
    unfolding identity_once_def
  proof (intro allI impI)
    fix i j assume ij: "i < j" "j < length (?cs @ ?ds)" "(?cs @ ?ds) ! i = identity_cmd" "(?cs @ ?ds) ! j = identity_cmd"
    then have "j < length ?cs" by (intro pre)
    with ij I show "\<not> identity_ok T (take i (?cs @ ?ds))"
      by (simp add: memo_inv_def identity_once_def nth_append)
  qed
  moreover have "answered T (?cs @ ?ds) \<Longrightarrow> answered T ?cs"
    unfolding answered_def using pre by (fastforce simp: nth_append)
  ultimately show ?thesis using I cs' c by (simp add: memo_inv_def)
qed

lemma preserves_inv_run:
  assumes cmd: "cmd \<noteq> identity_cmd"
  shows "preserves (memo_inv T) (run_command T cmd check)"
proof (rule preservesI)
  fix s r s' assume I: "memo_inv T s" and run: "run_command T cmd check s = (r, s')"
  from run_command_log [OF run] show "memo_inv T s'"
    using I cmd by (auto elim: memo_inv_frame)
qed

lemma preserves_inv_stdout: "preserves (memo_inv T) (emit (Stdout line))"
  by (rule preservesI) (auto elim: memo_inv_frame)

lemma preserves_inv_dump: "preserves (memo_inv T) (json_dump_file d f)"
  by (rule preservesI)
     (auto simp: json_dump_file_def elim: memo_inv_frame split: option.splits if_splits)

lemma preserves_inv_assign:
  "preserves (memo_inv T) (assign_template role_template role_template_update ks x)"
  "preserves (memo_inv T) (assign_template policy_template policy_template_update ks x)"
  by (auto simp: preserves_def assign_template_def memo_inv_def split: sum.splits)

text \<open>One run of the identity check: the log gains it, and a good answer is cached.\<close>

lemma fetch_account_answer:
  assumes t: "T (calls_of (log s)) identity_cmd = Completed rc out" and f: "fetch_account T s = (r, s')"
  shows "log s' = log s @ [Stdout (echo_line identity_cmd), Exec identity_cmd] \<and>
         (identity_ok T (calls_of (log s)) \<longrightarrow> py_truthy_opt (AWS_ACCOUNT_ID s'))"
proof (cases "rc = 0 \<and> (\<exists>doc v. out = Some doc \<and> py_getitem doc (KStr ''Account'') = Inr v)")
  case True
  then obtain doc v where o: "out = Some doc" "py_getitem doc (KStr ''Account'') = Inr v" by blast
  with True t have "fetch_account T s =
      (Inr v, s\<lparr>log := log s @ [Stdout (echo_line identity_cmd), Exec identity_cmd], AWS_ACCOUNT_ID := Some v\<rparr>)"
    by (intro fetch_account_ok) simp_all
  with f have s': "s' = s\<lparr>log := log s @ [Stdout (echo_line identity_cmd), Exec identity_cmd],
                            AWS_ACCOUNT_ID := Some v\<rparr>" by simp
  have "identity_ok T (calls_of (log s)) \<longleftrightarrow> py_truthy v"
    using t o True by (simp add: identity_ok_def)
  with s' show ?thesis by (simp add: py_truthy_opt_def)
next
  case False
  then have "rc \<noteq> 0 \<or> out = None \<or> (\<exists>doc. out = Some doc \<and> isl (py_getitem doc (KStr ''Account'')))"
    by (cases out; cases "py_getitem (the out) (KStr ''Account'')") auto
  from fetch_account_error [of T s rc out, OF t this] f have "log s' = log s @ [Stdout (echo_line identity_cmd), Exec identity_cmd]"
    by auto
  moreover have "\<not> identity_ok T (calls_of (log s))"
    using t False by (auto simp: identity_ok_def split: option.splits sum.splits)
  ultimately show ?thesis by simp
qed

lemma preserves_inv_account: "preserves (memo_inv T) (get_aws_account_id T)"
proof (rule preservesI)
  fix s r s' assume I: "memo_inv T s" and g: "get_aws_account_id T s = (r, s')"
  let ?cs = "calls_of (log s)"
  show "memo_inv T s'"
  proof (cases "py_truthy_opt (AWS_ACCOUNT_ID s)")
    case True
    then obtain v where "AWS_ACCOUNT_ID s = Some v" "py_truthy v" by (auto simp: py_truthy_opt_def split: option.splits)
    with g I show ?thesis by (simp add: get_account_cached)
  next
    case False
    with g have f: "fetch_account T s = (r, s')" by (simp add: get_account_uncached)
    have fresh: "\<not> answered T ?cs" using I False by (simp add: memo_inv_def)
    show ?thesis
    proof (cases "T ?cs identity_cmd")
      case NotFound
      then have "s' = s\<lparr>log := log s @ [Stdout (echo_line identity_cmd)]\<rparr>"
        using f by (simp add: fetch_account_def run_command_NotFound py_run)
      with I show ?thesis by (auto elim: memo_inv_frame)
    next
      case (Completed rc out)
      from fetch_account_answer [OF Completed f]
      have l: "calls_of (log s') = ?cs @ [identity_cmd]"
        and ok: "identity_ok T ?cs \<longrightarrow> py_truthy_opt (AWS_ACCOUNT_ID s')" by simp_all
      have "identity_once T (?cs @ [identity_cmd])"
        unfolding identity_once_def
      proof (intro allI impI)
        fix i j assume ij: "i < j" "j < length (?cs @ [identity_cmd])"
          "(?cs @ [identity_cmd]) ! i = identity_cmd" "(?cs @ [identity_cmd]) ! j = identity_cmd"
        show "\<not> identity_ok T (take i (?cs @ [identity_cmd]))"
        proof (cases "j < length ?cs")
          case True
          with ij I show ?thesis by (simp add: memo_inv_def identity_once_def nth_append)
        next
          case False
          with ij fresh show ?thesis by (auto simp: answered_def nth_append)
        qed
      qed
      moreover have "answered T (?cs @ [identity_cmd]) \<Longrightarrow> identity_ok T ?cs"
        using fresh by (auto simp: answered_def nth_append less_Suc_eq split: if_splits)
      ultimately show ?thesis using l ok by (simp add: memo_inv_def)
    qed
  qed
qed

lemma preserves_inv_exec_op: "preserves (memo_inv T) (exec_op T c)"
proof (cases c)
  case GetAccount
  then show ?thesis by (auto intro: preserves_inv_account)
next
  case (CreateRole r)
  show ?thesis
    unfolding CreateRole exec_op.simps create_aws_role_def Let_def
    by (intro preserves_pbind preserves_py_map preserves_get_arg_any preserves_pgets
        preserves_preturn preserves_inv_account preserves_inv_assign preserves_inv_dump preserves_inv_run)
       (simp add: memo_cmds_differ)
next
  case (CreatePolicy p r)
  show ?thesis
    unfolding CreatePolicy exec_op.simps XXXcreate_aws_policy_def Let_def
    by (intro preserves_pbind preserves_get_arg_any preserves_pgets preserves_inv_account
        preserves_inv_assign preserves_inv_dump preserves_inv_stdout)
next
  case (CreateGroup g' r p)
  show ?thesis
    unfolding CreateGroup exec_op.simps create_aws_group_def Let_def
    by (intro preserves_pbind preserves_py_for preserves_get_arg_any preserves_pgets
        preserves_preturn preserves_inv_account preserves_inv_assign preserves_inv_dump preserves_inv_run)
       (simp_all add: memo_cmds_differ)
next
  case (CreateMapping r u)
  show ?thesis
    unfolding CreateMapping exec_op.simps create_identity_mapping_def
    by (intro preserves_pbind preserves_get_arg_any preserves_preturn preserves_inv_account preserves_inv_run)
       (simp add: memo_cmds_differ)
qed

text \<open>
  C11: whatever the environment answers, in every reachable session the identity check
  is never started again once it has exited 0 with a truthy \<open>Account\<close>: every later
  lookup, by any operation, takes the cached value. (Answers that fail, or give a falsy
  account, are asked again.)
\<close>

theorem reachable_identity_not_repeated:
  "reachable T s \<Longrightarrow> identity_once T (calls_of (log s))"
proof -
  assume r: "reachable T s"
  have "memo_inv T s"
    using r
  proof (induction rule: reachable.induct)
    case (boot ds fls ns a s)
    have "log s = []" using getargs_log [OF boot.hyps] by (simp add: init_state_def)
    then show ?case by (simp add: memo_inv_def identity_once_def answered_def)
  next
    case (step s c r s')
    from preserves_inv_exec_op step.IH step.hyps(2) show ?case by (rule preservesD)
  qed
  then show ?thesis by (simp add: memo_inv_def)
qed

theorem reachable_identity_not_repeated_witness:
  "identity_once (\<lambda>h c. if c = identity_cmd then Completed 0 (Some (JObj [(KStr ''Account'', JStr ''123456789012'')]))
                       else Completed 0 None)
     [identity_cmd]"
  using reachable_identity_not_repeated [OF reachable_example] by simp

end
