(* ===== verification/Argv.thy ===== *)
theory Argv
  imports Cli
begin

text \<open>
  \<open>parser.parse_args()\<close> of \<open>getargs\<close> (createrole.py lines 161-194): the parser the
  script configures, run by \<open>argparse\<close> over \<open>sys.argv[1:]\<close>. The model follows
  \<open>ArgumentParser._parse_known_args\<close> of CPython 3.11.10 for this configuration.
  \<^item> \<open>parser_options\<close>: the option strings in registration order: \<open>-h\<close>/\<open>--help\<close>
    (added by \<open>ArgumentParser()\<close>, \<open>nargs=0\<close>), then \<open>--clustername\<close>/\<open>-c\<close>,
    \<open>--region\<close>/\<open>-r\<close> and \<open>--workingdir\<close> (\<open>store\<close>, one argument),
    \<open>--usernames\<close>/\<open>-u\<close> (\<open>append\<close>, one argument). The positional
    \<open>accountname\<close> takes one argument.
  \<^item> \<open>parse_optional\<close>, \<open>get_option_tuples\<close>: the classification of one argument string
    (exact option, \<open>--opt=value\<close>, unique prefix of a long option, \<open>-cVALUE\<close>,
    negative number, string with a space, unknown option), with the \<open>ambiguous option\<close>
    error; \<open>classify\<close> runs it over \<open>argv\<close> up to the first \<open>--\<close>.
  \<^item> \<open>consume_opt\<close>: \<open>consume_optional\<close>, including the loop that splits combined
    single-dash flags (\<open>-hc\<close>); \<open>take_action\<close>: the store, append and help actions;
    \<open>consume\<close>: the loop that alternates positionals and optionals and collects the
    unrecognised strings.
  \<^item> \<open>parse_argv\<close>: the whole of \<open>parse_args\<close>; \<open>finish_parse\<close> is its end, the
    required-arguments check and the \<open>unrecognized arguments\<close> error. Every \<open>parser.error(msg)\<close> is
    \<open>ParserExit msg\<close> (exit status 2); \<open>--help\<close> prints the help text (not modelled)
    and raises \<open>SystemExit 0\<close>.
  Strings are lists of 8-bit characters; for them Python's \<open>\d\<close> is the ASCII digits.
\<close>

datatype optkind = OHelp | OClustername | ORegion | OUsernames | OWorkingdir

definition parser_options :: "(string \<times> optkind) list" where
  "parser_options =
     [(''-h'', OHelp), (''--help'', OHelp),
      (''--clustername'', OClustername), (''-c'', OClustername),
      (''--region'', ORegion), (''-r'', ORegion),
      (''--usernames'', OUsernames), (''-u'', OUsernames),
      (''--workingdir'', OWorkingdir)]"

text \<open>\<open>_get_action_name\<close>: the action's option strings joined by \<open>/\<close>.\<close>

definition action_name :: "optkind \<Rightarrow> string" where
  "action_name k = join_with ''/'' (map fst (filter (\<lambda>(s, k'). k' = k) parser_options))"

definition lookup_opt :: "string \<Rightarrow> optkind option" where
  "lookup_opt s = map_of parser_options s"

text \<open>\<open>s.partition('=')\<close>: the part before the first \<open>=\<close>, and the rest after it if there is one.\<close>

definition partition_eq :: "string \<Rightarrow> string \<times> string option" where
  "partition_eq s =
     (if CHR ''='' \<in> set s
      then (takeWhile (\<lambda>c. c \<noteq> CHR ''='') s, Some (tl (dropWhile (\<lambda>c. c \<noteq> CHR ''='') s)))
      else (s, None))"

definition is_digit :: "char \<Rightarrow> bool" where
  "is_digit c \<longleftrightarrow> c \<in> set ''0123456789''"

text \<open>
  \<open>_negative_number_matcher\<close>, the pattern \<open>^-\d+$|^-\d*\.\d+$\<close>; \<open>$\<close> also matches
  before a final newline.
\<close>

definition neg_number :: "string \<Rightarrow> bool" where
  "neg_number s =
     (let t = (if s \<noteq> [] \<and> last s = CHR 0x0A then butlast s else s) in
      case t of
        [] \<Rightarrow> False
      | c # r \<Rightarrow>
          c = CHR ''-'' \<and>
          (let a = takeWhile is_digit r; b = dropWhile is_digit r in
           (a \<noteq> [] \<and> b = []) \<or>
           (case b of [] \<Rightarrow> False | d # b' \<Rightarrow> d = CHR ''.'' \<and> b' \<noteq> [] \<and> list_all is_digit b')))"

text \<open>
  An option tuple \<open>(action, option_string, sep, explicit_arg)\<close>; the action is
  \<open>None\<close> for an option string the parser does not know.
\<close>

type_synonym opt_tuple = "optkind option \<times> string \<times> string option \<times> string option"

definition get_option_tuples :: "string \<Rightarrow> opt_tuple list" where
  "get_option_tuples arg =
     (if take 1 (drop 1 arg) = ''-'' then
        (let (pre, ex) = partition_eq arg in
         map (\<lambda>(s, k). (Some k, s, map_option (\<lambda>_. ''='') ex, ex))
           (filter (\<lambda>(s, k). take (length pre) s = pre) parser_options))
      else
        concat (map (\<lambda>(s, k).
          if s = take 2 arg then [(Some k, s, Some [], Some (drop 2 arg))]
          else if take (length arg) s = arg then [(Some k, s, None, None)]
          else []) parser_options))"

definition parse_optional :: "string \<Rightarrow> error + opt_tuple option" where
  "parse_optional arg =
     (if arg = [] \<or> hd arg \<noteq> CHR ''-'' then Inr None
      else case lookup_opt arg of
        Some k \<Rightarrow> Inr (Some (Some k, arg, None, None))
      | None \<Rightarrow>
          if length arg = 1 then Inr None
          else
            (let (ostr, ex) = partition_eq arg in
             case (ex, lookup_opt ostr) of
               (Some e, Some k) \<Rightarrow> Inr (Some (Some k, ostr, Some ''='', Some e))
             | _ \<Rightarrow>
                 (case get_option_tuples arg of
                    [t] \<Rightarrow> Inr (Some t)
                  | t1 # t2 # ts \<Rightarrow>
                      Inl (ParserExit (''ambiguous option: '' @ arg @ '' could match '' @
                        join_with '', '' (map (\<lambda>(_, s, _). s) (t1 # t2 # ts))))
                  | [] \<Rightarrow>
                      if neg_number arg then Inr None
                      else if CHR '' '' \<in> set arg then Inr None
                      else Inr (Some (None, arg, None, None)))))"

text \<open>
  The classified argument strings: \<open>TArg\<close> (pattern \<open>A\<close>), the first \<open>--\<close>
  (\<open>TDash\<close>, pattern \<open>-\<close>; every string after it is an argument), and options
  (pattern \<open>O\<close>).
\<close>

datatype tok = TArg string | TDash | TOpt opt_tuple

fun classify :: "string list \<Rightarrow> error + tok list" where
  "classify [] = Inr []"
| "classify (a # as) =
     (if a = ''--'' then Inr (TDash # map TArg as)
      else case parse_optional a of
        Inl e \<Rightarrow> Inl e
      | Inr r \<Rightarrow>
          (case classify as of
             Inl e \<Rightarrow> Inl e
           | Inr ts \<Rightarrow> Inr ((case r of None \<Rightarrow> TArg a | Some t \<Rightarrow> TOpt t) # ts)))"

fun tok_str :: "tok \<Rightarrow> string" where
  "tok_str (TArg s) = s"
| "tok_str TDash = ''--''"
| "tok_str (TOpt (_, s, _, _)) = s"

text \<open>
  The namespace while it is filled: the defaults are \<open>None\<close>, except
  \<open>workingdir\<close>, whose default is \<open>DEFAULT_WORKING_DIR\<close> (a string, which
  \<open>argparse\<close> passes through the identity \<open>type\<close> at the end).
\<close>

record apns =
  ap_accountname :: "string option"
  ap_clustername :: "string option"
  ap_region :: "string option"
  ap_usernames :: "string list option"
  ap_workingdir :: string

definition ap_init :: apns where
  "ap_init = \<lparr>ap_accountname = None, ap_clustername = None, ap_region = None,
              ap_usernames = None, ap_workingdir = DEFAULT_WORKING_DIR\<rparr>"

text \<open>
  \<open>take_action\<close> for an option: \<open>--help\<close> prints the help and calls
  \<open>parser.exit()\<close>; \<open>store\<close> sets the attribute; \<open>append\<close> appends to a copy of the
  list (a fresh one when it is \<open>None\<close>). A store or append action receives exactly one
  string (\<open>nargs=None\<close>), the help action none.
\<close>

fun take_action :: "optkind \<Rightarrow> string list \<Rightarrow> apns \<Rightarrow> error + apns" where
  "take_action OHelp vs st = Inl (SystemExit 0)"
| "take_action OClustername vs st = Inr (st\<lparr>ap_clustername := Some (hd vs)\<rparr>)"
| "take_action ORegion vs st = Inr (st\<lparr>ap_region := Some (hd vs)\<rparr>)"
| "take_action OWorkingdir vs st = Inr (st\<lparr>ap_workingdir := hd vs\<rparr>)"
| "take_action OUsernames vs st =
     Inr (st\<lparr>ap_usernames := Some ((case ap_usernames st of None \<Rightarrow> [] | Some us \<Rightarrow> us) @ [hd vs])\<rparr>)"

fun apply_actions :: "(optkind \<times> string list) list \<Rightarrow> apns \<Rightarrow> error + apns" where
  "apply_actions [] st = Inr st"
| "apply_actions ((k, vs) # acts) st =
     (case take_action k vs st of Inl e \<Rightarrow> Inl e | Inr st' \<Rightarrow> apply_actions acts st')"

definition arg_error :: "optkind \<Rightarrow> string \<Rightarrow> error" where
  "arg_error k msg = ParserExit (''argument '' @ action_name k @ '': '' @ msg)"

text \<open>
  \<open>consume_optional\<close>: the option at the head, its following tokens \<open>ts\<close>, and the
  actions queued so far. It returns how many following tokens it consumed, the actions
  to take in order, and the strings it adds to the unrecognised ones. The recursion is
  the \<open>while True\<close> loop over combined single-dash flags (\<open>-hc\<close> is \<open>-h -c\<close>);
  each round takes one character off the explicit argument.
\<close>

function consume_opt ::
  "optkind option \<Rightarrow> string \<Rightarrow> string option \<Rightarrow> string option \<Rightarrow> tok list \<Rightarrow>
   (optkind \<times> string list) list \<Rightarrow> error + nat \<times> (optkind \<times> string list) list \<times> string list" where
  "consume_opt None ostr sep ex ts q = Inr (0, q, [ostr])"
| "consume_opt (Some k) ostr sep (Some e) ts q =
     (if k = OHelp then
        (if take 1 (drop 1 ostr) \<noteq> ''-'' \<and> e \<noteq> [] then
           (if sep = Some ''='' \<or> hd e = CHR ''-''
            then Inl (arg_error k (''ignored explicit argument '' @ str_repr e))
            else
              (let q' = q @ [(k, [])]; ostr' = [hd ostr, hd e]; e' = tl e in
               case lookup_opt ostr' of
                 Some k' \<Rightarrow>
                   (if e' = [] then consume_opt (Some k') ostr' None None ts q'
                    else if hd e' = CHR ''='' then consume_opt (Some k') ostr' (Some ''='') (Some (tl e')) ts q'
                    else consume_opt (Some k') ostr' (Some []) (Some e') ts q')
               | None \<Rightarrow> Inr (0, q', [hd ostr # e])))
         else Inl (arg_error k (''ignored explicit argument '' @ str_repr e)))
      else Inr (0, q @ [(k, [e])], []))"
| "consume_opt (Some k) ostr sep None ts q =
     (if k = OHelp then Inr (0, q @ [(k, [])], [])
      else case ts of
        TArg v # _ \<Rightarrow> Inr (1, q @ [(k, [v])], [])
      | _ \<Rightarrow> Inl (arg_error k ''expected one argument''))"
  by pat_completeness auto
termination
  by (relation "measure (\<lambda>(k, ostr, sep, ex, ts, q). case ex of None \<Rightarrow> 0 | Some e \<Rightarrow> Suc (length e))")
     auto

fun is_opt :: "tok \<Rightarrow> bool" where
  "is_opt (TOpt _) = True"
| "is_opt _ = False"

text \<open>
  The pattern \<open>(-*A-*)\<close> of the positional \<open>accountname\<close>, matched at the start of the
  remaining tokens: the number of tokens it takes.
\<close>

definition pos_match :: "tok list \<Rightarrow> nat option" where
  "pos_match ts =
     (let d = length (takeWhile (\<lambda>t. t = TDash) ts) in
      case drop d ts of
        TArg _ # rest \<Rightarrow> Some (d + 1 + length (takeWhile (\<lambda>t. t = TDash) rest))
      | _ \<Rightarrow> None)"

text \<open>
  \<open>take_action\<close> for the positional: \<open>_get_values\<close> removes the first \<open>--\<close> of the
  matched strings; the one string left is the account name (the match holds the
  \<open>--\<close> marker at most once).
\<close>

definition take_positional :: "tok list \<Rightarrow> apns \<Rightarrow> apns" where
  "take_positional ms st = st\<lparr>ap_accountname := Some (hd (remove1 ''--'' (map tok_str ms)))\<rparr>"

text \<open>
  The main loop of \<open>_parse_known_args\<close>. \<open>p\<close> says whether the positional is still
  to be filled. At an option, \<open>consume_optional\<close> runs and its actions are taken; at a
  run of non-option tokens, the positional takes what its pattern matches, and the
  rest of the run up to the next option is unrecognised.
\<close>

function consume :: "bool \<Rightarrow> tok list \<Rightarrow> apns \<Rightarrow> error + apns \<times> string list" where
  "consume p [] st = Inr (st, [])"
| "consume p (t # ts) st =
     (case t of
        TOpt (a, ostr, sep, ex) \<Rightarrow>
          (case consume_opt a ostr sep ex ts [] of
             Inl e \<Rightarrow> Inl e
           | Inr (n, q, xs) \<Rightarrow>
               (case apply_actions q st of
                  Inl e \<Rightarrow> Inl e
                | Inr st' \<Rightarrow>
                    (case consume p (drop n ts) st' of
                       Inl e \<Rightarrow> Inl e
                     | Inr (st'', ys) \<Rightarrow> Inr (st'', xs @ ys))))
      | _ \<Rightarrow>
          (case (if p then pos_match (t # ts) else None) of
             Some m \<Rightarrow> consume False (drop m (t # ts)) (take_positional (take m (t # ts)) st)
           | None \<Rightarrow>
               (case consume p (dropWhile (\<lambda>u. \<not> is_opt u) (t # ts)) st of
                  Inl e \<Rightarrow> Inl e
                | Inr (st', ys) \<Rightarrow> Inr (st', map tok_str (takeWhile (\<lambda>u. \<not> is_opt u) (t # ts)) @ ys))))"
  by pat_completeness auto
termination
  by (relation "measure (\<lambda>(p, ts, st). length ts)")
     (auto simp: le_imp_less_Suc length_dropWhile_le pos_match_def Let_def
      split: tok.splits if_splits list.splits)

definition missing_required :: "apns \<Rightarrow> string list" where
  "missing_required st =
     (if ap_accountname st = None then [''accountname''] else []) @
     (if ap_clustername st = None then [action_name OClustername] else []) @
     (if ap_usernames st = None then [action_name OUsernames] else [])"

text \<open>The finished namespace; used once no required argument is missing.\<close>

definition ns_of :: "apns \<Rightarrow> namespace" where
  "ns_of st =
     \<lparr>ns_accountname = the (ap_accountname st), ns_clustername = the (ap_clustername st),
      ns_region = ap_region st, ns_usernames = the (ap_usernames st),
      ns_workingdir = ap_workingdir st\<rparr>"

text \<open>
  The end of parsing: the required-arguments check of \<open>_parse_known_args\<close>, then the
  \<open>unrecognized arguments\<close> check of \<open>parse_args\<close>.
\<close>

definition finish_parse :: "apns \<times> string list \<Rightarrow> error + namespace" where
  "finish_parse r =
     (case r of (st, extras) \<Rightarrow>
        if missing_required st \<noteq> []
        then Inl (ParserExit (''the following arguments are required: '' @
                              join_with '', '' (missing_required st)))
        else if extras \<noteq> []
        then Inl (ParserExit (''unrecognized arguments: '' @ join_with '' '' extras))
        else Inr (ns_of st))"

definition parse_argv :: "string list \<Rightarrow> error + namespace" where
  "parse_argv argv =
     (case classify argv of
        Inl e \<Rightarrow> Inl e
      | Inr ts \<Rightarrow> (case consume True ts ap_init of Inl e \<Rightarrow> Inl e | Inr r \<Rightarrow> finish_parse r))"

text \<open>
  \<open>ARGS = getargs()\<close> with \<open>args = parser.parse_args()\<close> first: \<open>main_argv\<close> is
  \<open>main\<close> run on the namespace \<open>parse_args\<close> returns, and \<open>run_script_argv\<close> the
  exit status of the process started with \<open>argv\<close> as \<open>sys.argv[1:]\<close>.
\<close>

text \<open>
  A namespace written as a command line that \<open>argparse\<close> reads back whatever the
  values are: every option in the \<open>--opt=value\<close> form, the account name after
  \<open>--\<close>.
\<close>

definition render_argv :: "namespace \<Rightarrow> string list" where
  "render_argv ns =
     (''--clustername='' @ ns_clustername ns) # map (\<lambda>u. ''--usernames='' @ u) (ns_usernames ns) @
     (case ns_region ns of None \<Rightarrow> [] | Some r \<Rightarrow> [''--region='' @ r]) @
     [''--workingdir='' @ ns_workingdir ns, ''--'', ns_accountname ns]"

definition parse_args :: "string list \<Rightarrow> (pstate, namespace) py" where
  "parse_args argv = (case parse_argv argv of Inl e \<Rightarrow> praise e | Inr ns \<Rightarrow> preturn ns)"

definition main_argv :: "tools \<Rightarrow> string list \<Rightarrow> (pstate, unit) py" where
  "main_argv T argv = pbind (parse_args argv) (main T)"

definition run_script_argv :: "tools \<Rightarrow> string list \<Rightarrow> pstate \<Rightarrow> int \<times> pstate" where
  "run_script_argv T argv s = (case main_argv T argv s of (r, s') \<Rightarrow> (exit_code r, s'))"

text \<open>The exceptions the parser raises: \<open>parser.error\<close>, and \<open>SystemExit 0\<close> after the help.\<close>

definition parser_exit :: "error \<Rightarrow> bool" where
  "parser_exit e = (case e of ParserExit _ \<Rightarrow> True | SystemExit n \<Rightarrow> n = 0 | _ \<Rightarrow> False)"

subsection \<open>Classifying option strings\<close>

lemma parser_options_forms:
  "\<forall>s \<in> fst ` set parser_options. hd s = CHR ''-'' \<and> CHR ''='' \<notin> set s \<and> 2 \<le> length s"
  by (simp add: parser_options_def)

lemma lookup_opt_SomeD:
  "lookup_opt ostr = Some k \<Longrightarrow> hd ostr = CHR ''-'' \<and> CHR ''='' \<notin> set ostr \<and> 2 \<le> length ostr"
  unfolding lookup_opt_def using parser_options_forms
  by (metis (no_types, lifting) fst_conv image_eqI map_of_SomeD)

lemma lookup_opt_eq_None: "CHR ''='' \<in> set x \<Longrightarrow> lookup_opt x = None"
  using lookup_opt_SomeD by fastforce

lemma partition_eq_form:
  assumes "CHR ''='' \<notin> set ostr"
  shows "partition_eq (ostr @ CHR ''='' # v) = (ostr, Some v)"
proof -
  have "\<forall>c \<in> set ostr. c \<noteq> CHR ''=''" using assms by auto
  then show ?thesis by (simp add: partition_eq_def takeWhile_append2 dropWhile_append2)
qed

lemma parse_optional_eq_form:
  assumes "lookup_opt ostr = Some k"
  shows "parse_optional (ostr @ CHR ''='' # v) = Inr (Some (Some k, ostr, Some ''='', Some v))"
proof -
  have o: "hd ostr = CHR ''-''" "CHR ''='' \<notin> set ostr" "2 \<le> length ostr"
    using lookup_opt_SomeD [OF assms] by simp_all
  then have "ostr \<noteq> []" by auto
  moreover have "lookup_opt (ostr @ CHR ''='' # v) = None" by (simp add: lookup_opt_eq_None)
  ultimately show ?thesis
    using o assms by (simp add: parse_optional_def partition_eq_form)
qed

lemma classify_eq_forms:
  "\<forall>(ostr, v) \<in> set ovs. lookup_opt ostr \<noteq> None \<Longrightarrow>
   classify (map (\<lambda>(ostr, v). ostr @ CHR ''='' # v) ovs @ ''--'' # rest) =
   Inr (map (\<lambda>(ostr, v). TOpt (lookup_opt ostr, ostr, Some ''='', Some v)) ovs @ TDash # map TArg rest)"
proof (induction ovs)
  case (Cons ov ovs)
  obtain ostr v where ov: "ov = (ostr, v)" by fastforce
  with Cons.prems obtain k where k: "lookup_opt ostr = Some k" by auto
  have eq: "CHR ''='' \<in> set (ostr @ CHR ''='' # v)" by simp
  have "ostr @ CHR ''='' # v \<noteq> ''--''"
  proof
    assume "ostr @ CHR ''='' # v = ''--''"
    with eq have "CHR ''='' \<in> set ''--''" by metis
    then show False by simp
  qed
  with Cons ov k show ?case by (simp add: parse_optional_eq_form)
qed simp

subsection \<open>Consuming stored options\<close>

lemma case_sum_pair_Nil [simp]: "(case x of Inl e \<Rightarrow> Inl e | Inr (a, b) \<Rightarrow> Inr (a, [] @ b)) = x"
  by (cases x) auto

lemma consume_store:
  "k \<noteq> OHelp \<Longrightarrow>
   consume p (TOpt (Some k, ostr, Some ''='', Some v) # ts) st =
   (case take_action k [v] st of Inl e \<Rightarrow> Inl e | Inr st' \<Rightarrow> consume p ts st')"
  by (simp split: sum.splits prod.splits)

lemma consume_usernames:
  "consume p (map (\<lambda>u. TOpt (Some OUsernames, ''--usernames'', Some ''='', Some u)) us @ ts) st =
   consume p ts (if us = [] then st
                 else st\<lparr>ap_usernames := Some ((case ap_usernames st of None \<Rightarrow> [] | Some l \<Rightarrow> l) @ us)\<rparr>)"
proof (induction us arbitrary: st)
  case (Cons u us)
  let ?old = "case ap_usernames st of None \<Rightarrow> [] | Some l \<Rightarrow> l"
  have "consume p (map (\<lambda>u. TOpt (Some OUsernames, ''--usernames'', Some ''='', Some u)) (u # us) @ ts) st =
        consume p (map (\<lambda>u. TOpt (Some OUsernames, ''--usernames'', Some ''='', Some u)) us @ ts)
          (st\<lparr>ap_usernames := Some (?old @ [u])\<rparr>)"
    by (simp add: consume_store)
  also have "\<dots> = consume p ts (if us = [] then st\<lparr>ap_usernames := Some (?old @ [u])\<rparr>
                                  else st\<lparr>ap_usernames := Some ((?old @ [u]) @ us)\<rparr>)"
    by (simp add: Cons.IH)
  finally show ?case by simp
qed simp

subsection \<open>Round trip\<close>

text \<open>
  C18: every namespace with at least one user name is read back exactly from the command
  line \<open>render_argv\<close> writes for it: \<open>parse_args\<close> inverts the rendering, for any
  strings as values (values that look like options, contain \<open>=\<close>, or are \<open>--\<close>
  included).
\<close>

theorem parse_argv_render:
  assumes users: "ns_usernames ns \<noteq> []"
  shows "parse_argv (render_argv ns) = Inr ns"
proof -
  obtain acc c r us w where ns:
    "ns = \<lparr>ns_accountname = acc, ns_clustername = c, ns_region = r, ns_usernames = us, ns_workingdir = w\<rparr>"
    by (cases ns)
  let ?ovs = "(''--clustername'', c) # map (\<lambda>u. (''--usernames'', u)) us @
              (case r of None \<Rightarrow> [] | Some x \<Rightarrow> [(''--region'', x)]) @ [(''--workingdir'', w)]"
  have argv: "render_argv ns = map (\<lambda>(ostr, v). ostr @ CHR ''='' # v) ?ovs @ ''--'' # [acc]"
    by (cases r) (simp_all add: ns render_argv_def)
  have lk: "\<forall>(ostr, v) \<in> set ?ovs. lookup_opt ostr \<noteq> None"
    by (cases r) (auto simp: lookup_opt_def parser_options_def)
  have cl: "classify (render_argv ns) =
      Inr (map (\<lambda>(ostr, v). TOpt (lookup_opt ostr, ostr, Some ''='', Some v)) ?ovs @ TDash # map TArg [acc])"
    unfolding argv by (rule classify_eq_forms [OF lk])
  have us: "us \<noteq> []" using users ns by simp
  have lks: "lookup_opt ''--clustername'' = Some OClustername" "lookup_opt ''--usernames'' = Some OUsernames"
    "lookup_opt ''--region'' = Some ORegion" "lookup_opt ''--workingdir'' = Some OWorkingdir"
    by (simp_all add: lookup_opt_def parser_options_def)
  have toks: "map (\<lambda>(ostr, v). TOpt (lookup_opt ostr, ostr, Some ''='', Some v)) ?ovs @ TDash # map TArg [acc] =
      TOpt (Some OClustername, ''--clustername'', Some ''='', Some c) #
      map (\<lambda>u. TOpt (Some OUsernames, ''--usernames'', Some ''='', Some u)) us @
      (case r of None \<Rightarrow> [] | Some x \<Rightarrow> [TOpt (Some ORegion, ''--region'', Some ''='', Some x)]) @
      [TOpt (Some OWorkingdir, ''--workingdir'', Some ''='', Some w), TDash, TArg acc]"
    by (cases r) (simp_all add: lks)
  show ?thesis
    unfolding parse_argv_def finish_parse_def cl toks using us
    by (cases r)
       (simp_all add: consume_store consume_usernames pos_match_def take_positional_def ap_init_def
        missing_required_def ns_of_def ns)
qed

subsection \<open>Shape of a successful parse\<close>

lemma take_action_users:
  "take_action k vs st = Inr st' \<Longrightarrow> ap_usernames st \<noteq> Some [] \<Longrightarrow> ap_usernames st' \<noteq> Some []"
  by (cases k) (auto split: option.splits)

lemma apply_actions_users:
  "apply_actions q st = Inr st' \<Longrightarrow> ap_usernames st \<noteq> Some [] \<Longrightarrow> ap_usernames st' \<noteq> Some []"
proof (induction q arbitrary: st)
  case (Cons kv q)
  obtain k vs where kv: "kv = (k, vs)" by fastforce
  with Cons.prems obtain st1 where t: "take_action k vs st = Inr st1" and r: "apply_actions q st1 = Inr st'"
    by (cases "take_action k vs st") auto
  from t Cons.prems(2) have "ap_usernames st1 \<noteq> Some []" by (rule take_action_users)
  with r show ?case by (rule Cons.IH)
qed simp

lemma consume_users:
  "consume p ts st = Inr (st', xs) \<Longrightarrow> ap_usernames st \<noteq> Some [] \<Longrightarrow> ap_usernames st' \<noteq> Some []"
proof (induction p ts st arbitrary: st' xs rule: consume.induct)
  case (2 p t ts st)
  show ?case
  proof (cases "\<exists>tup. t = TOpt tup")
    case True
    then obtain a ostr sep ex where t: "t = TOpt (a, ostr, sep, ex)" by auto
    from "2.prems"(1) t obtain n q ys st1 ys' where
      co: "consume_opt a ostr sep ex ts [] = Inr (n, q, ys)" and ap: "apply_actions q st = Inr st1"
      and rec: "consume p (drop n ts) st1 = Inr (st', ys')"
      by (auto split: sum.splits prod.splits)
    have u1: "ap_usernames st1 \<noteq> Some []" using ap "2.prems"(2) by (rule apply_actions_users)
    show ?thesis using "2.IH"(5) [OF t refl refl refl co refl refl ap rec u1] .
  next
    case False
    with "2.IH"(1-4) "2.prems" show ?thesis
      by (cases t) (auto simp: take_positional_def split: option.splits sum.splits prod.splits if_splits)
  qed
qed simp

text \<open>
  C19: \<open>--usernames\<close> is required and appends: every namespace \<open>parse_args\<close>
  returns has at least one user name.
\<close>

theorem parse_argv_usernames:
  "parse_argv argv = Inr ns \<Longrightarrow> ns_usernames ns \<noteq> []"
proof -
  assume p: "parse_argv argv = Inr ns"
  then obtain ts st extras where c: "consume True ts ap_init = Inr (st, extras)"
    and miss: "missing_required st = []" and ns: "ns = ns_of st"
    by (auto simp: parse_argv_def finish_parse_def split: sum.splits prod.splits if_splits)
  have "ap_usernames ap_init \<noteq> Some []" by (simp add: ap_init_def)
  with c have "ap_usernames st \<noteq> Some []" by (rule consume_users)
  with miss ns show ?thesis by (auto simp: missing_required_def ns_of_def split: if_splits)
qed

subsection \<open>The usual command lines\<close>

lemma parse_optional_plain: "x = [] \<or> hd x \<noteq> CHR ''-'' \<Longrightarrow> parse_optional x = Inr None"
  by (auto simp: parse_optional_def)

lemma classify_plain:
  "x = [] \<or> hd x \<noteq> CHR ''-'' \<Longrightarrow>
   classify (x # rest) = (case classify rest of Inl e \<Rightarrow> Inl e | Inr ts \<Rightarrow> Inr (TArg x # ts))"
proof -
  assume x: "x = [] \<or> hd x \<noteq> CHR ''-''"
  then have "x \<noteq> ''--''" by auto
  with x show ?thesis by (simp add: parse_optional_plain split: sum.split)
qed

lemma classify_option:
  "lookup_opt x \<noteq> None \<Longrightarrow>
   classify (x # rest) =
   (case classify rest of Inl e \<Rightarrow> Inl e | Inr ts \<Rightarrow> Inr (TOpt (lookup_opt x, x, None, None) # ts))"
proof -
  assume k: "lookup_opt x \<noteq> None"
  then obtain k where k': "lookup_opt x = Some k" by auto
  moreover have "lookup_opt ''--'' = None" by (simp add: lookup_opt_def parser_options_def)
  ultimately have "x \<noteq> ''--''" by auto
  with k' lookup_opt_SomeD [OF k'] show ?thesis by (auto simp: parse_optional_def split: sum.split)
qed

lemma lookup_opt_short [simp]:
  "lookup_opt ''-h'' = Some OHelp" "lookup_opt ''--help'' = Some OHelp"
  "lookup_opt ''-c'' = Some OClustername" "lookup_opt ''-u'' = Some OUsernames"
  by (simp_all add: lookup_opt_def parser_options_def)

lemma classify_user_pairs:
  "\<forall>u \<in> set us. u = [] \<or> hd u \<noteq> CHR ''-'' \<Longrightarrow>
   classify (concat (map (\<lambda>u. [''-u'', u]) us)) =
   Inr (concat (map (\<lambda>u. [TOpt (Some OUsernames, ''-u'', None, None), TArg u]) us))"
  by (induction us) (simp_all add: classify_option classify_plain del: classify.simps(2))

lemma consume_user_pairs:
  "consume p (concat (map (\<lambda>u. [TOpt (Some OUsernames, ''-u'', None, None), TArg u]) us)) st =
   Inr (if us = [] then st
        else st\<lparr>ap_usernames := Some ((case ap_usernames st of None \<Rightarrow> [] | Some l \<Rightarrow> l) @ us)\<rparr>, [])"
proof (induction us arbitrary: st)
  case (Cons u us)
  let ?old = "case ap_usernames st of None \<Rightarrow> [] | Some l \<Rightarrow> l"
  have "consume p (concat (map (\<lambda>u. [TOpt (Some OUsernames, ''-u'', None, None), TArg u]) (u # us))) st =
        consume p (concat (map (\<lambda>u. [TOpt (Some OUsernames, ''-u'', None, None), TArg u]) us))
          (st\<lparr>ap_usernames := Some (?old @ [u])\<rparr>)"
    by simp
  also have "\<dots> = Inr (if us = [] then st\<lparr>ap_usernames := Some (?old @ [u])\<rparr>
                       else st\<lparr>ap_usernames := Some ((?old @ [u]) @ us)\<rparr>, [])"
    by (simp add: Cons.IH)
  finally show ?case by simp
qed simp

text \<open>
  C20: \<open>-h\<close> or \<open>--help\<close> as the first argument prints the help and exits with
  status 0 before anything else happens: no directory, no command, no file. Only an error
  of the classification pass, which runs over all arguments first (an ambiguous
  \<open>--=...\<close>), can come before it.
\<close>

theorem run_script_argv_help:
  assumes a: "a = ''-h'' \<or> a = ''--help''" and rest: "classify rest = Inr ts"
  shows "run_script_argv T (a # rest) s = (0, s)"
proof -
  have h: "lookup_opt a = Some OHelp" using a by auto
  then have "classify (a # rest) = Inr (TOpt (Some OHelp, a, None, None) # ts)"
    using classify_option [of a rest] rest by (simp del: classify.simps(2))
  then have "parse_argv (a # rest) = Inl (SystemExit 0)"
    by (simp add: parse_argv_def finish_parse_def)
  then show ?thesis
    by (simp add: run_script_argv_def main_argv_def parse_args_def exit_code_def py_run)
qed

text \<open>
  C21: the usual command line without \<open>-u\<close> is refused by \<open>argparse\<close> with
  \<open>the following arguments are required: --usernames/-u\<close>, exit status 2, before
  anything else happens.
\<close>

theorem run_script_argv_missing_usernames:
  assumes acc: "acc = [] \<or> hd acc \<noteq> CHR ''-''" and c: "c = [] \<or> hd c \<noteq> CHR ''-''"
  shows "main_argv T [acc, ''-c'', c] s =
           (Inl (ParserExit ''the following arguments are required: --usernames/-u''), s) \<and>
         fst (run_script_argv T [acc, ''-c'', c] s) = 2"
proof -
  have "classify [acc, ''-c'', c] = Inr [TArg acc, TOpt (Some OClustername, ''-c'', None, None), TArg c]"
    using acc c by (simp add: classify_plain classify_option del: classify.simps(2))
  then have "parse_argv [acc, ''-c'', c] = Inl (ParserExit ''the following arguments are required: --usernames/-u'')"
    by (simp add: parse_argv_def finish_parse_def pos_match_def take_positional_def ap_init_def missing_required_def
        action_name_def parser_options_def)
  then show ?thesis
    by (simp add: run_script_argv_def main_argv_def parse_args_def exit_code_def py_run)
qed

text \<open>
  C22: the command line of the spec's CLI surface,
  \<open><account> -c <cluster> -u <user1> ... -u <userN>\<close> with values that do not start
  with \<open>-\<close>, gives exactly that configuration: the users in order, no region, and the
  default working directory.
\<close>

theorem parse_argv_usual:
  assumes us: "us \<noteq> []" and plain: "\<forall>x \<in> set (acc # c # us). x = [] \<or> hd x \<noteq> CHR ''-''"
  shows "parse_argv ([acc, ''-c'', c] @ concat (map (\<lambda>u. [''-u'', u]) us)) =
    Inr \<lparr>ns_accountname = acc, ns_clustername = c, ns_region = None, ns_usernames = us,
         ns_workingdir = DEFAULT_WORKING_DIR\<rparr>"
proof -
  let ?pairs = "concat (map (\<lambda>u. [TOpt (Some OUsernames, ''-u'', None, None), TArg u]) us)"
  have acc: "acc \<noteq> ''--''" using plain by auto
  have "classify ([acc, ''-c'', c] @ concat (map (\<lambda>u. [''-u'', u]) us)) =
        Inr (TArg acc # TOpt (Some OClustername, ''-c'', None, None) # TArg c # ?pairs)"
    using plain by (simp add: classify_plain classify_option classify_user_pairs del: classify.simps(2))
  moreover have "consume True (TArg acc # TOpt (Some OClustername, ''-c'', None, None) # TArg c # ?pairs) ap_init =
      Inr (\<lparr>ap_accountname = Some acc, ap_clustername = Some c, ap_region = None,
             ap_usernames = Some us, ap_workingdir = DEFAULT_WORKING_DIR\<rparr>, [])"
    using us acc by (simp add: pos_match_def take_positional_def ap_init_def consume_user_pairs)
  ultimately show ?thesis
    by (simp add: parse_argv_def finish_parse_def missing_required_def ns_of_def)
qed

subsection \<open>Exit status of the script\<close>

lemma parse_optional_error: "parse_optional a = Inl e \<Longrightarrow> parser_exit e"
  unfolding parse_optional_def
  by (auto simp: parser_exit_def split: if_split_asm option.split_asm prod.split_asm list.split_asm)

lemma classify_error: "classify as = Inl e \<Longrightarrow> parser_exit e"
  by (induction as) (auto dest: parse_optional_error split: if_split_asm sum.split_asm)

lemma apply_actions_error: "apply_actions q st = Inl e \<Longrightarrow> parser_exit e"
proof (induction q st rule: apply_actions.induct)
  case (2 k vs acts st)
  then show ?case by (cases k) (auto simp: parser_exit_def split: sum.split_asm)
qed simp

lemma consume_opt_error: "consume_opt a ostr sep ex ts q = Inl e \<Longrightarrow> parser_exit e"
  by (induction a ostr sep ex ts q rule: consume_opt.induct)
     (auto simp: arg_error_def parser_exit_def Let_def
      split: if_split_asm option.split_asm tok.split_asm list.split_asm)

lemma consume_error: "consume p ts st = Inl e \<Longrightarrow> parser_exit e"
proof (induction p ts st rule: consume.induct)
  case (2 p t ts st)
  show ?case
  proof (cases t)
    case (TOpt o4)
    obtain a ostr sep ex where o4: "o4 = (a, ostr, sep, ex)" by (cases o4) auto
    show ?thesis
    proof (cases "consume_opt a ostr sep ex ts []")
      case (Inl e')
      with "2.prems" TOpt o4 show ?thesis by (auto dest: consume_opt_error)
    next
      case (Inr r)
      obtain n q xs where r: "r = (n, q, xs)" by (cases r) auto
      show ?thesis
      proof (cases "apply_actions q st")
        case (Inl e')
        with "2.prems" TOpt o4 Inr r show ?thesis by (auto dest: apply_actions_error)
      next
        case (Inr st')
        note IH = "2.IH"(5) [OF TOpt o4 [symmetric] refl refl \<open>consume_opt a ostr sep ex ts [] = Inr r\<close>
                               r [symmetric] refl Inr]
        from "2.prems" TOpt o4 \<open>consume_opt a ostr sep ex ts [] = Inr r\<close> r Inr show ?thesis
          by (auto intro: IH split: sum.split_asm prod.split_asm)
      qed
    qed
  qed (use "2.prems" "2.IH"(1-4) in \<open>auto split: option.split_asm if_split_asm sum.split_asm prod.split_asm\<close>)
qed simp

lemma parse_argv_error: "parse_argv argv = Inl e \<Longrightarrow> parser_exit e"
  by (auto simp: parse_argv_def finish_parse_def parser_exit_def dest: classify_error consume_error
      split: sum.split_asm prod.split_asm if_split_asm)

text \<open>
  C23: the exit status 2. The script ends with status 2 exactly when \<open>argparse\<close>
  refuses the command line, or when it parses, the working directory can be created,
  and a user name contains \<open>:\<close> or \<open>/\<close>. The help ends with 0; a working directory
  that cannot be created, and every failure after \<open>getargs\<close>, end with 1, so a bad
  user name behind a blocked directory gives 1, not 2.
\<close>

theorem run_script_argv_exit_2:
  "fst (run_script_argv T argv s) = 2 \<longleftrightarrow>
   (case parse_argv argv of
      Inl e \<Rightarrow> e \<noteq> SystemExit 0
    | Inr ns \<Rightarrow> fst (mkdir_workingdir (parse_path (ns_workingdir ns)) s) = Inr () \<and>
                \<not> list_all valid_username (ns_usernames ns))"
proof (cases "parse_argv argv")
  case (Inl e)
  then have "parser_exit e" by (rule parse_argv_error)
  with Inl show ?thesis
    by (auto simp: run_script_argv_def main_argv_def parse_args_def exit_code_def parser_exit_def py_run
        split: error.splits)
next
  case (Inr ns)
  let ?wd = "parse_path (ns_workingdir ns)"
  have run: "fst (run_script_argv T argv s) = exit_code (fst (main T ns s))"
    using Inr by (simp add: run_script_argv_def main_argv_def parse_args_def py_run split: prod.split)
  obtain r1 s1 where mk: "mkdir_workingdir ?wd s = (r1, s1)" by fastforce
  show ?thesis
  proof (cases r1)
    case (Inl e)
    with mk have "getargs ns s = (Inl e, s1)" by (simp add: getargs_def Let_def py_run)
    then have "main T ns s = (Inl e, s1)" by (rule main_getargs_error)
    moreover have "script_error e" using raises_mkdir_workingdir mk Inl by (blast intro: raises_onlyD)
    ultimately show ?thesis using Inr mk Inl run by (simp add: script_error_def)
  next
    case (Inr u)
    show ?thesis
    proof (cases "list_all valid_username (ns_usernames ns)")
      case True
      then have "find (\<lambda>u. \<not> valid_username u) (ns_usernames ns) = None"
        by (simp add: find_None_iff list_all_iff)
      with mk Inr have g: "getargs ns s = (Inr (args_of ns ?wd), s1)"
        by (simp add: getargs_def Let_def check_usernames py_run)
      obtain r s' where m: "main T ns s = (r, s')" by fastforce
      have "script_error e" if "r = Inl e" for e
      proof -
        have "create_identity_mapping T (role_name (accountname (args_of ns ?wd)))
                (eks_username (accountname (args_of ns ?wd))) (s1\<lparr>ARGS := Some (args_of ns ?wd)\<rparr>) = (Inl e, s')"
          using main_after_getargs [OF g, of T] m that by simp
        with raises_create_identity_mapping show ?thesis by (blast intro: raises_onlyD)
      qed
      with m run True \<open>parse_argv argv = Inr ns\<close> show ?thesis
        by (cases r) (auto simp: script_error_def exit_code_def)
    next
      case False
      then obtain u' where "find (\<lambda>u. \<not> valid_username u) (ns_usernames ns) = Some u'"
        by (cases "find (\<lambda>u. \<not> valid_username u) (ns_usernames ns)") (auto simp: find_None_iff list_all_iff)
      with mk Inr have "getargs ns s = (Inl (ParserExit (username_error u')), s1)"
        by (simp add: getargs_def Let_def check_usernames py_run)
      then have "main T ns s = (Inl (ParserExit (username_error u')), s1)" by (rule main_getargs_error)
      with run False mk Inr \<open>parse_argv argv = Inr ns\<close> show ?thesis by (simp add: exit_code_def)
    qed
  qed
qed

subsection \<open>The claims at concrete command lines\<close>

theorem parse_argv_render_witness:
  "ns_usernames \<lparr>ns_accountname = ''team1'', ns_clustername = ''prod'', ns_region = Some ''eu-west-1'',
                 ns_usernames = [''dave'', ''-u''], ns_workingdir = ''./tmp/''\<rparr> \<noteq> [] \<and>
   parse_argv (render_argv \<lparr>ns_accountname = ''team1'', ns_clustername = ''prod'',
                 ns_region = Some ''eu-west-1'', ns_usernames = [''dave'', ''-u''], ns_workingdir = ''./tmp/''\<rparr>) =
   Inr \<lparr>ns_accountname = ''team1'', ns_clustername = ''prod'', ns_region = Some ''eu-west-1'',
        ns_usernames = [''dave'', ''-u''], ns_workingdir = ''./tmp/''\<rparr>"
  using parse_argv_render [of "\<lparr>ns_accountname = ''team1'', ns_clustername = ''prod'',
      ns_region = Some ''eu-west-1'', ns_usernames = [''dave'', ''-u''], ns_workingdir = ''./tmp/''\<rparr>"]
  by simp

theorem parse_argv_usernames_witness:
  "parse_argv [''team1'', ''--clustername=prod'', ''-u'', ''dave''] =
     Inr \<lparr>ns_accountname = ''team1'', ns_clustername = ''prod'', ns_region = None,
          ns_usernames = [''dave''], ns_workingdir = ''./tmp/''\<rparr> \<and>
   ns_usernames \<lparr>ns_accountname = ''team1'', ns_clustername = ''prod'', ns_region = None,
          ns_usernames = [''dave''], ns_workingdir = ''./tmp/''\<rparr> \<noteq> []"
proof -
  have p: "parse_argv [''team1'', ''--clustername=prod'', ''-u'', ''dave''] =
     Inr \<lparr>ns_accountname = ''team1'', ns_clustername = ''prod'', ns_region = None,
          ns_usernames = [''dave''], ns_workingdir = ''./tmp/''\<rparr>"
    by code_simp
  show ?thesis using parse_argv_usernames [OF p] p by simp
qed

theorem run_script_argv_help_witness:
  "run_script_argv (\<lambda>_ _. NotFound) [''--help'', ''team1''] (init_state root_dirs Map.empty) =
   (0, init_state root_dirs Map.empty)"
proof -
  have c: "classify [''team1''] = Inr [TArg ''team1'']" by (simp add: parse_optional_def)
  show ?thesis
    using run_script_argv_help [of "''--help''", OF _ c] by simp
qed

theorem run_script_argv_missing_usernames_witness:
  "main_argv (\<lambda>_ _. NotFound) [''team1'', ''-c'', ''prod''] (init_state root_dirs Map.empty) =
     (Inl (ParserExit ''the following arguments are required: --usernames/-u''),
      init_state root_dirs Map.empty) \<and>
   fst (run_script_argv (\<lambda>_ _. NotFound) [''team1'', ''-c'', ''prod''] (init_state root_dirs Map.empty)) = 2"
  using run_script_argv_missing_usernames [of "''team1''" "''prod''"] by simp

theorem parse_argv_usual_witness:
  "parse_argv [''team1'', ''-c'', ''prod'', ''-u'', ''dave'', ''-u'', ''erin''] =
   Inr \<lparr>ns_accountname = ''team1'', ns_clustername = ''prod'', ns_region = None,
        ns_usernames = [''dave'', ''erin''], ns_workingdir = DEFAULT_WORKING_DIR\<rparr>"
  using parse_argv_usual [of "[''dave'', ''erin'']" "''team1''" "''prod''"] by simp

theorem run_script_argv_exit_2_witness:
  "fst (run_script_argv (\<lambda>_ _. NotFound) [''team1'', ''-c'', ''prod'', ''-u'', ''a:b''] (init_state root_dirs Map.empty)) = 2"
  using run_script_argv_exit_2 [of "\<lambda>_ _. NotFound" "[''team1'', ''-c'', ''prod'', ''-u'', ''a:b'']"
      "init_state root_dirs Map.empty"]
  by code_simp

end
