(* ===== verification/ArgvSpec.thy ===== *)
theory ArgvSpec
  imports Argv
begin

text \<open>
  Properties of \<open>parser.parse_args()\<close> stated against simpler descriptions of the
  command line.
  \<^item> Abbreviations: \<open>argparse\<close> accepts any unique prefix of a long option
    (\<open>allow_abbrev=True\<close>, the default the script keeps). For this parser every
    prefix of at least three characters is unique, and it behaves exactly as the full
    option, with or without \<open>=value\<close>, anywhere before \<open>--\<close>.
  \<^item> Refinement of the command-line surface of the spec (section 6): a command line is
    a list of \<open>cli_item\<close>s, the positional account name and options given as
    \<open><option> <value>\<close>, in any order and number. \<open>spec_parse\<close> says declaratively
    what configuration it denotes: exactly one positional, at least one cluster and one
    user name, the last value of each single-valued option, all user names in order.
    \<open>after_items\<close> is the closed form of the parser's state after a list of items;
    \<open>consume_items\<close> shows that \<open>consume\<close> computes it.
\<close>

subsection \<open>The command line as a list of items\<close>

datatype cli_item = Positional string | Option string string

fun render_item :: "cli_item \<Rightarrow> string list" where
  "render_item (Positional a) = [a]"
| "render_item (Option ostr v) = [ostr, v]"

fun tok_item :: "cli_item \<Rightarrow> tok list" where
  "tok_item (Positional a) = [TArg a]"
| "tok_item (Option ostr v) = [TOpt (lookup_opt ostr, ostr, None, None), TArg v]"

definition plain :: "string \<Rightarrow> bool" where
  "plain x \<longleftrightarrow> x = [] \<or> hd x \<noteq> CHR ''-''"

fun item_ok :: "cli_item \<Rightarrow> bool" where
  "item_ok (Positional a) \<longleftrightarrow> plain a"
| "item_ok (Option ostr v) \<longleftrightarrow> lookup_opt ostr \<noteq> None \<and> lookup_opt ostr \<noteq> Some OHelp \<and> plain v"

fun positionals :: "cli_item list \<Rightarrow> string list" where
  "positionals [] = []"
| "positionals (Positional a # its) = a # positionals its"
| "positionals (Option _ _ # its) = positionals its"

fun values_of :: "optkind \<Rightarrow> cli_item list \<Rightarrow> string list" where
  "values_of k [] = []"
| "values_of k (Positional _ # its) = values_of k its"
| "values_of k (Option ostr v # its) = (if lookup_opt ostr = Some k then v # values_of k its else values_of k its)"

definition last_or :: "'a \<Rightarrow> 'a list \<Rightarrow> 'a" where
  "last_or d xs = (if xs = [] then d else last xs)"

definition after_items :: "bool \<Rightarrow> cli_item list \<Rightarrow> apns \<Rightarrow> apns \<times> string list" where
  "after_items p its st =
     (let pos = positionals its in
      (st\<lparr>ap_accountname := (if p \<and> pos \<noteq> [] then Some (hd pos) else ap_accountname st),
          ap_clustername := last_or (ap_clustername st) (map Some (values_of OClustername its)),
          ap_region := last_or (ap_region st) (map Some (values_of ORegion its)),
          ap_usernames := (if values_of OUsernames its = [] then ap_usernames st
                           else Some ((case ap_usernames st of None \<Rightarrow> [] | Some us \<Rightarrow> us) @
                                      values_of OUsernames its)),
          ap_workingdir := last_or (ap_workingdir st) (values_of OWorkingdir its)\<rparr>,
       if p then drop 1 pos else pos))"

definition spec_parse :: "cli_item list \<Rightarrow> namespace option" where
  "spec_parse its =
     (case positionals its of
        [a] \<Rightarrow>
          if values_of OClustername its = [] \<or> values_of OUsernames its = [] then None
          else Some \<lparr>ns_accountname = a, ns_clustername = last (values_of OClustername its),
                     ns_region = last_or None (map Some (values_of ORegion its)),
                     ns_usernames = values_of OUsernames its,
                     ns_workingdir = last_or DEFAULT_WORKING_DIR (values_of OWorkingdir its)\<rparr>
      | _ \<Rightarrow> None)"

definition result_opt :: "error + 'a \<Rightarrow> 'a option" where
  "result_opt r = (case r of Inl _ \<Rightarrow> None | Inr x \<Rightarrow> Some x)"


subsection \<open>Abbreviated long options\<close>

lemma long_options_by_prefix3:
  "\<forall>(s, k) \<in> set parser_options. \<forall>(s', k') \<in> set parser_options.
     take 2 s = ''--'' \<longrightarrow> take 3 s' = take 3 s \<longrightarrow> (s', k') = (s, k)"
  by (simp add: parser_options_def)

lemma distinct_parser_options: "distinct (map fst parser_options)"
  by (simp add: parser_options_def)

lemma long_option_no_eq: "(s, k) \<in> set parser_options \<Longrightarrow> CHR ''='' \<notin> set s"
  using parser_options_forms by auto

lemma filter_singleton:
  "distinct (map fst xs) \<Longrightarrow> a \<in> set xs \<Longrightarrow> (\<And>b. b \<in> set xs \<Longrightarrow> P b \<longleftrightarrow> b = a) \<Longrightarrow> filter P xs = [a]"
proof (induction xs)
  case (Cons x xs)
  show ?case
  proof (cases "x = a")
    case True
    with Cons.prems have "filter P xs = []" by (fastforce simp: filter_empty_conv)
    with True Cons.prems show ?thesis by simp
  next
    case False
    with Cons show ?thesis by auto
  qed
qed simp

lemma abbrev_unique:
  assumes sk: "(s, k) \<in> set parser_options" and long: "take 2 s = ''--''" and n: "3 \<le> n"
    and b: "(s', k') \<in> set parser_options" and pre: "take n s' = take n s"
  shows "(s', k') = (s, k)"
proof -
  have "take 3 s' = take 3 s"
    using arg_cong [where f = "take 3", OF pre] n by (simp add: min_absorb1 min_absorb2)
  then show ?thesis using long_options_by_prefix3 sk b long by fastforce
qed

lemma lookup_opt_long: "(s, k) \<in> set parser_options \<Longrightarrow> lookup_opt s = Some k"
  unfolding lookup_opt_def using distinct_parser_options by (rule map_of_is_SomeI)

lemma abbrev_not_option:
  assumes sk: "(s, k) \<in> set parser_options" and long: "take 2 s = ''--''" and n: "3 \<le> n"
    and short: "n < length s"
  shows "lookup_opt (take n s) = None"
proof (rule ccontr)
  assume "lookup_opt (take n s) \<noteq> None"
  then obtain k' where "map_of parser_options (take n s) = Some k'" by (auto simp: lookup_opt_def)
  then have "(take n s, k') \<in> set parser_options" by (rule map_of_SomeD)
  moreover have "take n (take n s) = take n s" by simp
  ultimately have "(take n s, k') = (s, k)" using abbrev_unique [OF sk long n] by blast
  then have "length (take n s) = length s" by simp
  with short show False by simp
qed

lemma take1_drop1: "take 1 (drop 1 y) = drop 1 (take 2 y)"
  by (simp add: take_drop numeral_2_eq_2)

lemma abbrev_tuples:
  assumes sk: "(s, k) \<in> set parser_options" and long: "take 2 s = ''--''" and n: "3 \<le> n"
    and short: "n < length s" and pe: "partition_eq (take n s @ x) = (take n s, ex)"
  shows "get_option_tuples (take n s @ x) = [(Some k, s, map_option (\<lambda>_. ''='') ex, ex)]"
proof -
  have t2: "take 2 (take n s @ x) = ''--''" using n short long by (simp add: min_absorb1)
  have "take 1 (drop 1 (take n s @ x)) = drop 1 (take 2 (take n s @ x))"
    by (rule take1_drop1)
  also have "\<dots> = ''-''" by (simp only: t2) simp
  finally have dash: "take 1 (drop 1 (take n s @ x)) = ''-''" .
  have "filter (\<lambda>(s', k'). take (length (take n s)) s' = take n s) parser_options = [(s, k)]"
    using distinct_parser_options sk
    by (rule filter_singleton) (use abbrev_unique [OF sk long n] short in \<open>auto simp: min_absorb2\<close>)
  then show ?thesis using dash pe by (simp add: get_option_tuples_def)
qed

lemma parse_optional_abbrev:
  assumes sk: "(s, k) \<in> set parser_options" and long: "take 2 s = ''--''" and n: "3 \<le> n"
    and x: "x = [] \<or> hd x = CHR ''=''"
  shows "parse_optional (take n s @ x) = parse_optional (s @ x)"
proof (cases "n < length s")
  case False
  then show ?thesis by simp
next
  case short: True
  let ?p = "take n s"
  have noeq: "CHR ''='' \<notin> set ?p" using long_option_no_eq [OF sk] in_set_takeD by fastforce
  have lenp: "length ?p = n" using short by simp
  have hd: "?p \<noteq> [] \<and> hd ?p = CHR ''-''"
    using long n short by (cases s) auto
  have none: "lookup_opt ?p = None" using sk long n short by (rule abbrev_not_option)
  have ks: "lookup_opt s = Some k" using sk by (rule lookup_opt_long)
  from x consider "x = []" | v where "x = CHR ''='' # v" by (cases x) auto
  then show ?thesis
  proof cases
    case 1
    have pe: "partition_eq (?p @ x) = (?p, None)" using 1 noeq by (simp add: partition_eq_def)
    have "get_option_tuples (?p @ x) = [(Some k, s, None, None)]"
      using abbrev_tuples [OF sk long n short pe] by simp
    with 1 pe none hd lenp n have "parse_optional (?p @ x) = Inr (Some (Some k, s, None, None))"
      by (simp add: parse_optional_def)
    moreover have "parse_optional (s @ x) = Inr (Some (Some k, s, None, None))"
      using 1 ks lookup_opt_SomeD [OF ks] by (auto simp: parse_optional_def)
    ultimately show ?thesis by simp
  next
    case (2 v)
    have pe: "partition_eq (?p @ x) = (?p, Some v)" using 2 noeq by (simp add: partition_eq_form)
    have tup: "get_option_tuples (?p @ x) = [(Some k, s, Some ''='', Some v)]"
      using abbrev_tuples [OF sk long n short pe] by simp
    have none': "lookup_opt (?p @ x) = None" using 2 by (simp add: lookup_opt_eq_None)
    have "parse_optional (?p @ x) = Inr (Some (Some k, s, Some ''='', Some v))"
      using pe tup none none' hd lenp n by (simp add: parse_optional_def)
    moreover have "parse_optional (s @ x) = Inr (Some (Some k, s, Some ''='', Some v))"
      using 2 ks by (simp add: parse_optional_eq_form)
    ultimately show ?thesis by simp
  qed
qed

lemma long_option_length: "(s, k) \<in> set parser_options \<Longrightarrow> take 2 s = ''--'' \<Longrightarrow> 3 \<le> length s"
  by (auto simp: parser_options_def)

lemma parse_optional_long:
  assumes sk: "(s, k) \<in> set parser_options" and x: "x = [] \<or> hd x = CHR ''=''"
  shows "parse_optional (s @ x) \<noteq> Inr None"
proof -
  have ks: "lookup_opt s = Some k" using sk by (rule lookup_opt_long)
  from x consider "x = []" | v where "x = CHR ''='' # v" by (cases x) auto
  then show ?thesis
  proof cases
    case 1
    then show ?thesis using ks lookup_opt_SomeD [OF ks] by (auto simp: parse_optional_def)
  next
    case (2 v)
    then show ?thesis using ks by (simp add: parse_optional_eq_form)
  qed
qed

lemma long_not_dashdash: "3 \<le> length y \<Longrightarrow> y \<noteq> ''--''"
  by auto

lemma classify_cong:
  assumes "''--'' \<notin> set xs" and "a \<noteq> ''--''" and "b \<noteq> ''--''"
    and po: "parse_optional a = parse_optional b" and some: "parse_optional a \<noteq> Inr None"
  shows "classify (xs @ a # ys) = classify (xs @ b # ys)"
  using assms(1)
proof (induction xs)
  case Nil
  show ?case
  proof (cases "parse_optional a")
    case (Inr r)
    with some obtain t where "r = Some t" by (cases r) auto
    with Inr po assms(2,3) show ?thesis by (simp split: sum.split)
  qed (use po assms(2,3) in simp)
next
  case (Cons x xs)
  then have "x \<noteq> ''--''" and "classify (xs @ a # ys) = classify (xs @ b # ys)" by auto
  then show ?case by (simp split: sum.split)
qed

text \<open>
  C24: replacing a long option (\<open>--clustername\<close>, \<open>--region\<close>,
  \<open>--usernames\<close>, \<open>--workingdir\<close>, \<open>--help\<close>) by any prefix of it of at least
  three characters, alone or with \<open>=value\<close>, at a position before any \<open>--\<close>,
  does not change the result of \<open>parse_args\<close>, error or namespace.
\<close>

theorem parse_argv_abbrev:
  assumes sk: "(s, k) \<in> set parser_options" and long: "take 2 s = ''--''" and n: "3 \<le> n"
    and x: "x = [] \<or> hd x = CHR ''=''" and xs: "''--'' \<notin> set xs"
  shows "parse_argv (xs @ (take n s @ x) # ys) = parse_argv (xs @ (s @ x) # ys)"
proof -
  have l: "3 \<le> length s" using sk long by (rule long_option_length)
  have po: "parse_optional (take n s @ x) = parse_optional (s @ x)"
    using sk long n x by (rule parse_optional_abbrev)
  have a: "take n s @ x \<noteq> ''--''" using n l by (intro long_not_dashdash) simp
  have b: "s @ x \<noteq> ''--''" using l by (intro long_not_dashdash) simp
  have "classify (xs @ (take n s @ x) # ys) = classify (xs @ (s @ x) # ys)"
    using xs a b po by (rule classify_cong) (simp add: po parse_optional_long [OF sk x])
  then show ?thesis by (simp add: parse_argv_def)
qed

subsection \<open>Refinement of the command-line surface\<close>

lemma classify_items:
  "\<forall>it \<in> set its. item_ok it \<Longrightarrow>
   classify (concat (map render_item its)) = Inr (concat (map tok_item its))"
proof (induction its)
  case (Cons it its)
  then have ok: "item_ok it" and IH: "classify (concat (map render_item its)) = Inr (concat (map tok_item its))"
    by auto
  show ?case
  proof (cases it)
    case (Positional a)
    with ok IH show ?thesis by (simp add: plain_def classify_plain del: classify.simps(2))
  next
    case (Option ostr v)
    with ok IH show ?thesis
      by (simp add: plain_def classify_plain classify_option del: classify.simps(2))
  qed
qed simp

lemma last_or_Cons [simp]: "last_or d (x # xs) = last_or x xs"
  by (simp add: last_or_def)

lemma last_or_Nil [simp]: "last_or d [] = d"
  by (simp add: last_or_def)

lemma no_dash_items: "TDash \<notin> set (concat (map tok_item its))"
proof (induction its)
  case (Cons it its)
  then show ?case by (cases it) auto
qed simp

lemma consume_False_arg:
  "consume False (TArg a # ts) st =
   (case consume False ts st of Inl e \<Rightarrow> Inl e | Inr (st', ys) \<Rightarrow> Inr (st', a # ys))"
proof (cases ts)
  case (Cons t ts')
  then show ?thesis by (cases t) (simp_all split: sum.split prod.split)
qed (simp split: sum.split)

lemma consume_positional:
  assumes "TDash \<notin> set ts" and "a \<noteq> ''--''"
  shows "consume True (TArg a # ts) st = consume False ts (st\<lparr>ap_accountname := Some a\<rparr>)"
proof -
  have "takeWhile (\<lambda>t. t = TDash) ts = []" using assms(1) by (cases ts) auto
  then have "pos_match (TArg a # ts) = Some 1" by (simp add: pos_match_def)
  with assms(2) show ?thesis by (simp add: take_positional_def)
qed

lemma consume_pair:
  "k \<noteq> OHelp \<Longrightarrow>
   consume p (TOpt (Some k, ostr, None, None) # TArg v # ts) st =
   (case take_action k [v] st of Inl e \<Rightarrow> Inl e | Inr st' \<Rightarrow> consume p ts st')"
  by (cases k) (simp_all split: sum.split prod.split)

lemma after_items_positional:
  "after_items True (Positional a # its) st = after_items False its (st\<lparr>ap_accountname := Some a\<rparr>)"
  "after_items False (Positional a # its) st =
     (fst (after_items False its st), a # snd (after_items False its st))"
  by (simp_all add: after_items_def)

lemma after_items_option:
  assumes "lookup_opt ostr = Some k" and "k \<noteq> OHelp"
  shows "\<exists>st'. take_action k [v] st = Inr st' \<and>
           after_items p (Option ostr v # its) st = after_items p its st'"
  using assms by (cases k) (auto simp: after_items_def Let_def)

lemma consume_items:
  "\<forall>it \<in> set its. item_ok it \<Longrightarrow>
   consume p (concat (map tok_item its)) st = Inr (after_items p its st)"
proof (induction its arbitrary: p st)
  case Nil
  then show ?case by (simp add: after_items_def)
next
  case (Cons it its)
  then have ok: "item_ok it" and oks: "\<forall>it \<in> set its. item_ok it" by auto
  note IH = Cons.IH [OF oks]
  show ?case
  proof (cases it)
    case (Positional a)
    then have "a \<noteq> ''--''" using ok by (auto simp: plain_def)
    note nd = no_dash_items [of its]
    show ?thesis
    proof (cases p)
      case True
      have "consume True (TArg a # concat (map tok_item its)) st =
            consume False (concat (map tok_item its)) (st\<lparr>ap_accountname := Some a\<rparr>)"
        using nd \<open>a \<noteq> ''--''\<close> by (rule consume_positional)
      with True Positional IH show ?thesis by (simp add: after_items_positional(1))
    next
      case False
      have "consume False (TArg a # concat (map tok_item its)) st =
            (case consume False (concat (map tok_item its)) st of
               Inl e \<Rightarrow> Inl e | Inr (st', ys) \<Rightarrow> Inr (st', a # ys))"
        by (rule consume_False_arg)
      with False Positional IH show ?thesis
        by (simp add: after_items_positional(2) del: consume.simps split: prod.split)
    qed
  next
    case (Option ostr v)
    with ok obtain k where k: "lookup_opt ostr = Some k" "k \<noteq> OHelp" by auto
    obtain st' where st': "take_action k [v] st = Inr st'"
      and eq: "after_items p (Option ostr v # its) st = after_items p its st'"
      using after_items_option [OF k] by blast
    show ?thesis
      using Option k st' eq IH by (simp add: consume_pair)
  qed
qed

lemma last_or_Some_None: "last_or None (map Some xs) = None \<longleftrightarrow> xs = []"
  by (simp add: last_or_def last_map)

lemma parse_argv_items:
  "\<forall>it \<in> set its. item_ok it \<Longrightarrow>
   parse_argv (concat (map render_item its)) = finish_parse (after_items True its ap_init)"
  by (simp add: parse_argv_def classify_items consume_items)

lemma finish_after_items: "result_opt (finish_parse (after_items True its ap_init)) = spec_parse its"
proof -
  obtain st extras where a: "after_items True its ap_init = (st, extras)" by fastforce
  have st: "ap_accountname st = (if positionals its = [] then None else Some (hd (positionals its)))"
    "ap_clustername st = last_or None (map Some (values_of OClustername its))"
    "ap_region st = last_or None (map Some (values_of ORegion its))"
    "ap_usernames st = (if values_of OUsernames its = [] then None else Some (values_of OUsernames its))"
    "ap_workingdir st = last_or DEFAULT_WORKING_DIR (values_of OWorkingdir its)"
    and ex: "extras = drop 1 (positionals its)"
    using a by (auto simp: after_items_def ap_init_def Let_def)
  show ?thesis
  proof (cases "positionals its")
    case Nil
    with st have "missing_required st \<noteq> []" by (simp add: missing_required_def)
    with Nil a show ?thesis by (simp add: result_opt_def spec_parse_def finish_parse_def)
  next
    case (Cons acc rest)
    show ?thesis
    proof (cases "values_of OClustername its = [] \<or> values_of OUsernames its = []")
      case True
      with st have "missing_required st \<noteq> []" by (auto simp: missing_required_def last_or_Some_None)
      with True Cons a show ?thesis
        by (auto simp: result_opt_def spec_parse_def finish_parse_def split: list.split)
    next
      case False
      then have m: "missing_required st = []"
        using st Cons by (simp add: missing_required_def last_or_Some_None)
      show ?thesis
      proof (cases rest)
        case Nil
        with False Cons m a st ex show ?thesis
          by (simp add: result_opt_def spec_parse_def finish_parse_def ns_of_def last_or_def last_map)
      next
        case (Cons b rest')
        with \<open>positionals its = acc # rest\<close> m a ex show ?thesis
          by (simp add: result_opt_def spec_parse_def finish_parse_def)
      qed
    qed
  qed
qed

text \<open>
  C25: for every command line made of the spec's forms (values and account name not
  starting with \<open>-\<close>, option strings of the parser other than the help), in any
  order, \<open>parse_args\<close> succeeds exactly when the spec's description yields a
  configuration, and then returns that configuration: the \<open>argparse\<close> algorithm
  refines \<open>spec_parse\<close>, with errors abstracted to \<open>None\<close>.
\<close>

theorem parse_argv_refines_spec:
  assumes ok: "\<forall>it \<in> set its. item_ok it"
  shows "result_opt (parse_argv (concat (map render_item its))) = spec_parse its"
  using parse_argv_items [OF ok] finish_after_items by simp

subsection \<open>The claims at concrete command lines\<close>

theorem parse_argv_abbrev_witness:
  "parse_argv ([''team1''] @ (take 4 ''--clustername'' @ ''=prod'') # [''-u'', ''dave'']) =
   parse_argv ([''team1''] @ (''--clustername'' @ ''=prod'') # [''-u'', ''dave''])"
  using parse_argv_abbrev [of "''--clustername''" OClustername 4 "''=prod''" "[''team1'']" "[''-u'', ''dave'']"]
  by (simp add: parser_options_def)

theorem parse_argv_refines_spec_witness:
  "result_opt (parse_argv [''-c'', ''prod'', ''team1'', ''--usernames'', ''dave'', ''-u'', ''erin'',
                           ''--clustername'', ''staging'']) =
   Some \<lparr>ns_accountname = ''team1'', ns_clustername = ''staging'', ns_region = None,
         ns_usernames = [''dave'', ''erin''], ns_workingdir = ''./tmp/''\<rparr>"
  using parse_argv_refines_spec [of "[Option ''-c'' ''prod'', Positional ''team1'',
      Option ''--usernames'' ''dave'', Option ''-u'' ''erin'', Option ''--clustername'' ''staging'']"]
  by (simp add: plain_def lookup_opt_def parser_options_def spec_parse_def last_or_def
      DEFAULT_WORKING_DIR_def)

end
