(* ===== verification/SessionProgress.thy ===== *)
theory SessionProgress
  imports Session
begin

text \<open>
  Progress of a session. In an environment where every command exists and the identity
  check always exits 0 with an \<open>Account\<close> field, no reachable state blocks the
  released \<open>main\<close>'s operation: resolving the account and creating the identity
  mapping always return normally and lead to another reachable state, so a session can
  always be continued by them. (\<open>create_aws_role\<close> and \<open>create_aws_group\<close> can
  still raise, when a directory occupies one of their file names.)
\<close>

lemma get_account_succeeds:
  assumes ident: "T (calls_of (log s)) identity_cmd = Completed 0 (Some doc)"
    and acct: "py_getitem doc (KStr ''Account'') = Inr v"
  shows "\<exists>w s1. get_aws_account_id T s = (Inr w, s1)"
proof (cases "py_truthy_opt (AWS_ACCOUNT_ID s)")
  case True
  then obtain w where "AWS_ACCOUNT_ID s = Some w" "py_truthy w"
    by (auto simp: py_truthy_opt_def split: option.splits)
  then show ?thesis by (blast intro: get_account_cached)
next
  case False
  then show ?thesis using fetch_account_ok [of T s doc v, OF ident acct] by (simp add: get_account_uncached)
qed

lemma reachable_args: "reachable T s \<Longrightarrow> \<exists>a. ARGS s = Some a"
  using reachable_inv by (fastforce simp: session_inv_def split: option.splits)

text \<open>
  C27: in a cooperative environment (no missing executable, an identity check that exits 0
  with an \<open>Account\<close>), from every reachable state the identity-mapping step of
  \<open>main\<close> returns normally and its result is again reachable.
\<close>

theorem reachable_mapping_progress:
  assumes r: "reachable T s" and found: "\<forall>h c. T h c \<noteq> NotFound"
    and ident: "\<forall>h. T h identity_cmd = Completed 0 (Some doc)"
    and acct: "py_getitem doc (KStr ''Account'') = Inr v"
  shows "\<exists>s'. exec_op T (CreateMapping rolename eksusername) s = (Inr (), s') \<and> reachable T s'"
proof -
  obtain a where args: "ARGS s = Some a" using reachable_args [OF r] by blast
  obtain w s1 where g: "get_aws_account_id T s = (Inr w, s1)"
    using get_account_succeeds [of T s doc v, OF ident [rule_format, of "calls_of (log s)"] acct] by blast
  obtain rc out where t: "T (calls_of (log s1)) (mapping_cmd (clustername a) (role_arn w rolename) eksusername) =
      Completed rc out"
    using found by (cases "T (calls_of (log s1)) (mapping_cmd (clustername a) (role_arn w rolename) eksusername)")
                   auto
  obtain s' where e: "exec_op T (CreateMapping rolename eksusername) s = (Inr (), s')"
    using create_identity_mapping_ok [OF args g t] by simp
  moreover have "reachable T s'" using r e by (rule reachable.step)
  ultimately show ?thesis by blast
qed

theorem reachable_mapping_progress_witness:
  "\<exists>s'. exec_op (\<lambda>h c. if c = identity_cmd then Completed 0 (Some (JObj [(KStr ''Account'', JStr ''123456789012'')]))
                       else Completed 0 None)
          (CreateMapping ''eks-team1-role'' ''eks-team1'')
          ((init_state root_dirs Map.empty)
             \<lparr>dirs := insert \<lparr>root = [], tail = [''tmp'']\<rparr> root_dirs,
              ARGS := Some \<lparr>accountname = ''team1'', clustername = ''prod'', region = None,
                            usernames = [''alice''], workingdir = \<lparr>root = [], tail = [''tmp'']\<rparr>\<rparr>,
              log := [Stdout (echo_line identity_cmd), Exec identity_cmd],
              AWS_ACCOUNT_ID := Some (JStr ''123456789012'')\<rparr>) = (Inr (), s') \<and>
        reachable (\<lambda>h c. if c = identity_cmd then Completed 0 (Some (JObj [(KStr ''Account'', JStr ''123456789012'')]))
                       else Completed 0 None) s'"
  using reachable_mapping_progress [OF reachable_example, of "JObj [(KStr ''Account'', JStr ''123456789012'')]"
      "JStr ''123456789012''" "''eks-team1-role''" "''eks-team1''"]
  by simp

end
