(* ===== verification/JsonText.thy ===== *)
theory JsonText
  imports Json
begin

text \<open>
  The JSON text of \<open>json.dump\<close> and \<open>json.loads\<close> (CPython 3.11, the C accelerator
  \<open>_json\<close> with the default options). Characters are code points below U+0100, one
  \<open>char\<close> each.
  \<^item> \<open>json_dumps\<close>: the encoder with \<open>ensure_ascii=True\<close>, separators \<open>", "\<close> and
    \<open>": "\<close>; an integer, or an integer key, of more than 4300 digits raises
    \<open>ValueError\<close> (\<open>sys.int_info.default_max_str_digits\<close>).
  \<^item> \<open>json_loads\<close>: \<open>JSONDecoder.decode\<close> over the scanner \<open>scan_once_unicode\<close>:
    \<open>scan_value\<close>, \<open>scan_items\<close> and \<open>scan_members\<close> are the scanner,
    \<open>_parse_array_unicode\<close> and \<open>_parse_object_unicode\<close>, \<open>scan_str\<close> is
    \<open>scanstring_unicode\<close> (strict), \<open>match_number\<close> is \<open>_match_number_unicode\<close>.
    The decoder works on \<open>jval\<close>, Python's result with strings as code-point lists and
    floats as a placeholder; the outcome is \<open>Decoded\<close> when that result is a value of
    \<open>json\<close>, \<open>Raised\<close> for \<open>JSONDecodeError\<close> or \<open>ValueError\<close>, and \<open>Unmodelled\<close>
    when Python returns a float, NaN or infinity, or a string with a character above
    U+00FF. The recursion is bounded by fuel; \<open>json_loads\<close> gives it one unit more than twice
    the length of the text.
\<close>

subsection \<open>Encoder\<close>

definition hex4 :: "nat \<Rightarrow> string" where
  "hex4 n = map (\<lambda>k. hex_digit (n div 16 ^ k mod 16)) [3, 2, 1, 0]"

text \<open>\<open>ascii_escape_unichar\<close>: printable ASCII stays, except the quote and the backslash.\<close>

definition ascii_escape :: "char \<Rightarrow> string" where
  "ascii_escape c =
     (let n = (of_char c :: nat) in
      if c = CHR 0x5C then [CHR 0x5C, CHR 0x5C]
      else if c = CHR 0x22 then [CHR 0x5C, CHR 0x22]
      else if 32 \<le> n \<and> n \<le> 126 then [c]
      else if n = 8 then [CHR 0x5C, CHR ''b'']
      else if n = 12 then [CHR 0x5C, CHR ''f'']
      else if n = 10 then [CHR 0x5C, CHR ''n'']
      else if n = 13 then [CHR 0x5C, CHR ''r'']
      else if n = 9 then [CHR 0x5C, CHR ''t'']
      else CHR 0x5C # CHR ''u'' # hex4 n)"

definition encode_basestring_ascii :: "string \<Rightarrow> string" where
  "encode_basestring_ascii s = CHR 0x22 # concat (map ascii_escape s) @ [CHR 0x22]"

definition int_max_str_digits :: nat where
  "int_max_str_digits = 4300"

definition int_digits :: "int \<Rightarrow> nat" where
  "int_digits i = length (nat_str (nat \<bar>i\<bar>))"

text \<open>\<open>int.__repr__\<close>, which the encoder uses for integers and integer keys.\<close>

definition int_repr :: "int \<Rightarrow> error + string" where
  "int_repr i =
     (if int_max_str_digits < int_digits i
      then Inl (ValueError (''Exceeds the limit (4300 digits) for integer string conversion; '' @
                            ''use sys.set_int_max_str_digits() to increase the limit''))
      else Inr (int_str i))"

fun key_text :: "key \<Rightarrow> error + string" where
  "key_text (KStr s) = Inr (encode_basestring_ascii s)"
| "key_text (KInt i) = (case int_repr i of Inl e \<Rightarrow> Inl e | Inr t \<Rightarrow> Inr (encode_basestring_ascii t))"

text \<open>The first exception of a sequence of encodings, or all their texts.\<close>

fun seq_text :: "(error + string) list \<Rightarrow> error + string list" where
  "seq_text [] = Inr []"
| "seq_text (Inl e # rs) = Inl e"
| "seq_text (Inr t # rs) = (case seq_text rs of Inl e \<Rightarrow> Inl e | Inr ts \<Rightarrow> Inr (t # ts))"

fun json_dumps :: "json \<Rightarrow> error + string" where
  "json_dumps JNull = Inr ''null''"
| "json_dumps (JBool b) = Inr (if b then ''true'' else ''false'')"
| "json_dumps (JInt i) = int_repr i"
| "json_dumps (JStr s) = Inr (encode_basestring_ascii s)"
| "json_dumps (JList xs) =
     (case seq_text (map json_dumps xs) of
        Inl e \<Rightarrow> Inl e
      | Inr ts \<Rightarrow> Inr (CHR ''['' # join_with '', '' ts @ '']''))"
| "json_dumps (JObj kvs) =
     (case seq_text (map (\<lambda>(k, v). case key_text k of
                                     Inl e \<Rightarrow> Inl e
                                   | Inr kt \<Rightarrow> (case json_dumps v of
                                                  Inl e \<Rightarrow> Inl e
                                                | Inr vt \<Rightarrow> Inr (kt @ '': '' @ vt))) kvs) of
        Inl e \<Rightarrow> Inl e
      | Inr ts \<Rightarrow> Inr (CHR ''{'' # join_with '', '' ts @ ''}''))"

subsection \<open>Decoder\<close>

datatype jval =
    VNull
  | VBool bool
  | VInt int
  | VFloat
  | VStr "nat list"
  | VList "jval list"
  | VObj "(nat list \<times> jval) list"

datatype 'a decoded = Decoded 'a | Raised error | Unmodelled

definition is_ws :: "char \<Rightarrow> bool" where
  "is_ws c \<longleftrightarrow> c = CHR '' '' \<or> c = CHR 0x09 \<or> c = CHR 0x0A \<or> c = CHR 0x0D"

definition skip_ws :: "string \<Rightarrow> string" where
  "skip_ws s = dropWhile is_ws s"

definition hex_val :: "char \<Rightarrow> nat option" where
  "hex_val c =
     (let n = (of_char c :: nat) in
      if 48 \<le> n \<and> n \<le> 57 then Some (n - 48)
      else if 97 \<le> n \<and> n \<le> 102 then Some (n - 87)
      else if 65 \<le> n \<and> n \<le> 70 then Some (n - 55)
      else None)"

definition hex4_val :: "string \<Rightarrow> nat option" where
  "hex4_val s =
     (case map hex_val s of
        [Some a, Some b, Some c, Some d] \<Rightarrow> Some (((a * 16 + b) * 16 + c) * 16 + d)
      | _ \<Rightarrow> None)"

text \<open>The escapes of one character after a backslash.\<close>

definition simple_escape :: "char \<Rightarrow> nat option" where
  "simple_escape c =
     (if c = CHR 0x22 \<or> c = CHR 0x5C \<or> c = CHR ''/'' then Some (of_char c)
      else if c = CHR ''b'' then Some 8 else if c = CHR ''f'' then Some 12
      else if c = CHR ''n'' then Some 10 else if c = CHR ''r'' then Some 13
      else if c = CHR ''t'' then Some 9 else None)"

definition is_high_surrogate :: "nat \<Rightarrow> bool" where
  "is_high_surrogate u \<longleftrightarrow> 55296 \<le> u \<and> u \<le> 56319"

definition is_low_surrogate :: "nat \<Rightarrow> bool" where
  "is_low_surrogate u \<longleftrightarrow> 56320 \<le> u \<and> u \<le> 57343"

definition join_surrogates :: "nat \<Rightarrow> nat \<Rightarrow> nat" where
  "join_surrogates hi lo = 65536 + (hi - 55296) * 1024 + (lo - 56320)"

text \<open>
  \<open>scanstring_unicode\<close> after the opening quote, with the decoded code points so far in
  reverse. A \<open>\u\<close> escape needs one more character after its four digits; a high
  surrogate followed by another escape is joined with it when that one is a low
  surrogate, and an invalid second escape raises.
\<close>

function scan_str :: "string \<Rightarrow> nat list \<Rightarrow> error + nat list \<times> string" where
  "scan_str [] acc = Inl JSONDecodeError"
| "scan_str (c # cs) acc =
     (if c = CHR 0x22 then Inr (rev acc, cs)
      else if c = CHR 0x5C then
        (case cs of
           [] \<Rightarrow> Inl JSONDecodeError
         | e # cs' \<Rightarrow>
             if e \<noteq> CHR ''u'' then
               (case simple_escape e of None \<Rightarrow> Inl JSONDecodeError | Some u \<Rightarrow> scan_str cs' (u # acc))
             else if length cs' \<le> 4 then Inl JSONDecodeError
             else
               (case hex4_val (take 4 cs') of
                  None \<Rightarrow> Inl JSONDecodeError
                | Some u \<Rightarrow>
                    (let rest = drop 4 cs' in
                     if is_high_surrogate u \<and> 6 < length rest \<and> take 2 rest = [CHR 0x5C, CHR ''u'']
                     then (case hex4_val (take 4 (drop 2 rest)) of
                             None \<Rightarrow> Inl JSONDecodeError
                           | Some u2 \<Rightarrow>
                               if is_low_surrogate u2 then scan_str (drop 6 rest) (join_surrogates u u2 # acc)
                               else scan_str rest (u # acc))
                     else scan_str rest (u # acc))))
      else if (of_char c :: nat) \<le> 31 then Inl JSONDecodeError
      else scan_str cs (of_char c # acc))"
  by pat_completeness auto
termination
  by (relation "measure (\<lambda>(s, acc). length s)") auto

definition is_digit_char :: "char \<Rightarrow> bool" where
  "is_digit_char c \<longleftrightarrow> 48 \<le> (of_char c :: nat) \<and> (of_char c :: nat) \<le> 57"

definition digits_val :: "string \<Rightarrow> nat" where
  "digits_val ds = foldl (\<lambda>n c. 10 * n + (of_char c - 48)) 0 ds"

text \<open>
  \<open>_match_number_unicode\<close>: \<open>None\<close> when no number starts here (the scanner's
  \<open>StopIteration\<close>). A fraction needs a digit after the point and an exponent a digit
  after its sign; otherwise the number ends before them. An integer of more than 4300
  digits raises \<open>ValueError\<close> in \<open>int()\<close>.
\<close>

text \<open>The digits of the integer part: a single \<open>0\<close>, or a non-zero digit and all digits after it.\<close>

definition int_part :: "string \<Rightarrow> string" where
  "int_part s1 =
     (case s1 of [] \<Rightarrow> [] | c # cs \<Rightarrow> if c = CHR ''0'' then [c] else c # takeWhile is_digit_char cs)"

text \<open>A fraction: a point followed by at least one digit.\<close>

definition frac_part :: "string \<Rightarrow> bool \<times> string" where
  "frac_part r1 =
     (case r1 of
        p # d # r \<Rightarrow> if p = CHR ''.'' \<and> is_digit_char d then (True, dropWhile is_digit_char r) else (False, r1)
      | _ \<Rightarrow> (False, r1))"

text \<open>After \<open>e\<close> or \<open>E\<close>: a sign is taken only when a character follows it.\<close>

definition exp_digits :: "string \<Rightarrow> string" where
  "exp_digits r =
     (case r of x # y # z \<Rightarrow> if x = CHR ''+'' \<or> x = CHR ''-'' then y # z else r | _ \<Rightarrow> r)"

text \<open>An exponent: \<open>e\<close> or \<open>E\<close>, an optional sign, at least one digit.\<close>

definition exp_part :: "string \<Rightarrow> bool \<times> string" where
  "exp_part r2 =
     (case r2 of
        e # r \<Rightarrow>
          if (e = CHR ''e'' \<or> e = CHR ''E'') \<and> exp_digits r \<noteq> [] \<and> is_digit_char (hd (exp_digits r))
          then (True, dropWhile is_digit_char (exp_digits r)) else (False, r2)
      | [] \<Rightarrow> (False, r2))"

definition int_limit_error :: "nat \<Rightarrow> error" where
  "int_limit_error n =
     ValueError (''Exceeds the limit (4300 digits) for integer string conversion: value has '' @
                 nat_str n @ '' digits; use sys.set_int_max_str_digits() to increase the limit'')"

text \<open>The number after its optional minus sign; \<open>neg\<close> says whether there was one.\<close>

definition match_unsigned :: "bool \<Rightarrow> string \<Rightarrow> (error + jval \<times> string) option" where
  "match_unsigned neg s1 =
     (case s1 of
        [] \<Rightarrow> None
      | c # cs \<Rightarrow>
          if \<not> is_digit_char c then None
          else
            (let ds = int_part s1; fr = frac_part (drop (length ds) s1); ex = exp_part (snd fr) in
             if fst fr \<or> fst ex then Some (Inr (VFloat, snd ex))
             else if int_max_str_digits < length ds then Some (Inl (int_limit_error (length ds)))
             else Some (Inr (VInt (if neg then - int (digits_val ds) else int (digits_val ds)), snd ex))))"

definition match_number :: "string \<Rightarrow> (error + jval \<times> string) option" where
  "match_number s = (if take 1 s = ''-'' then match_unsigned True (drop 1 s) else match_unsigned False s)"

text \<open>\<open>d[k] = v\<close> while the decoder builds a dictionary: the last value wins, at the
  position of the first occurrence.\<close>

fun assoc_set :: "('k \<times> 'v) list \<Rightarrow> 'k \<Rightarrow> 'v \<Rightarrow> ('k \<times> 'v) list" where
  "assoc_set [] k v = [(k, v)]"
| "assoc_set ((k', v') # kvs) k v = (if k' = k then (k, v) # kvs else (k', v') # assoc_set kvs k v)"

text \<open>
  The scanner. \<open>scan_value\<close> reads one value; \<open>scan_items\<close> reads the elements of an
  array from the first one on, \<open>scan_members\<close> the members of an object from the
  first key on. Each call spends one unit of fuel; \<open>None\<close> is running out of it.
\<close>

fun scan_value :: "nat \<Rightarrow> string \<Rightarrow> (error + jval \<times> string) option"
and scan_items :: "nat \<Rightarrow> string \<Rightarrow> jval list \<Rightarrow> (error + jval \<times> string) option"
and scan_members :: "nat \<Rightarrow> string \<Rightarrow> (nat list \<times> jval) list \<Rightarrow> (error + jval \<times> string) option" where
  "scan_value 0 s = None"
| "scan_value (Suc n) s =
     (case s of
        [] \<Rightarrow> Some (Inl JSONDecodeError)
      | c # cs \<Rightarrow>
          if c = CHR 0x22 then
            Some (case scan_str cs [] of Inl e \<Rightarrow> Inl e | Inr (u, r) \<Rightarrow> Inr (VStr u, r))
          else if c = CHR ''{'' then
            (case skip_ws cs of
               d # r \<Rightarrow> if d = CHR ''}'' then Some (Inr (VObj [], r)) else scan_members n (d # r) []
             | [] \<Rightarrow> scan_members n [] [])
          else if c = CHR ''['' then
            (case skip_ws cs of
               d # r \<Rightarrow> if d = CHR '']'' then Some (Inr (VList [], r)) else scan_items n (d # r) []
             | [] \<Rightarrow> scan_items n [] [])
          else if take 4 s = ''null'' then Some (Inr (VNull, drop 4 s))
          else if take 4 s = ''true'' then Some (Inr (VBool True, drop 4 s))
          else if take 5 s = ''false'' then Some (Inr (VBool False, drop 5 s))
          else if take 3 s = ''NaN'' then Some (Inr (VFloat, drop 3 s))
          else if take 8 s = ''Infinity'' then Some (Inr (VFloat, drop 8 s))
          else if take 9 s = ''-Infinity'' then Some (Inr (VFloat, drop 9 s))
          else (case match_number s of None \<Rightarrow> Some (Inl JSONDecodeError) | Some r \<Rightarrow> Some r))"
| "scan_items 0 s vs = None"
| "scan_items (Suc n) s vs =
     (case scan_value n s of
        None \<Rightarrow> None
      | Some (Inl e) \<Rightarrow> Some (Inl e)
      | Some (Inr (v, r)) \<Rightarrow>
          (case skip_ws r of
             d # r' \<Rightarrow>
               if d = CHR '']'' then Some (Inr (VList (vs @ [v]), r'))
               else if d = CHR '','' then scan_items n (skip_ws r') (vs @ [v])
               else Some (Inl JSONDecodeError)
           | [] \<Rightarrow> Some (Inl JSONDecodeError)))"
| "scan_members 0 s kvs = None"
| "scan_members (Suc n) s kvs =
     (case s of
        c # cs \<Rightarrow>
          if c \<noteq> CHR 0x22 then Some (Inl JSONDecodeError)
          else
            (case scan_str cs [] of
               Inl e \<Rightarrow> Some (Inl e)
             | Inr (k, r) \<Rightarrow>
                 (case skip_ws r of
                    d # r' \<Rightarrow>
                      if d \<noteq> CHR '':'' then Some (Inl JSONDecodeError)
                      else
                        (case scan_value n (skip_ws r') of
                           None \<Rightarrow> None
                         | Some (Inl e) \<Rightarrow> Some (Inl e)
                         | Some (Inr (v, r2)) \<Rightarrow>
                             (case skip_ws r2 of
                                d2 # r3 \<Rightarrow>
                                  if d2 = CHR ''}'' then Some (Inr (VObj (assoc_set kvs k v), r3))
                                  else if d2 = CHR '','' then scan_members n (skip_ws r3) (assoc_set kvs k v)
                                  else Some (Inl JSONDecodeError)
                              | [] \<Rightarrow> Some (Inl JSONDecodeError)))
                  | [] \<Rightarrow> Some (Inl JSONDecodeError)))
      | [] \<Rightarrow> Some (Inl JSONDecodeError))"

definition str_of_cps :: "nat list \<Rightarrow> string option" where
  "str_of_cps u = (if list_all (\<lambda>x. x < 256) u then Some (map char_of u) else None)"

text \<open>The Python result as a value of \<open>json\<close>, when it is one.\<close>

fun to_json :: "jval \<Rightarrow> json option" where
  "to_json VNull = Some JNull"
| "to_json (VBool b) = Some (JBool b)"
| "to_json (VInt i) = Some (JInt i)"
| "to_json VFloat = None"
| "to_json (VStr u) = map_option JStr (str_of_cps u)"
| "to_json (VList vs) =
     (let js = map to_json vs in if list_all (\<lambda>x. x \<noteq> None) js then Some (JList (map the js)) else None)"
| "to_json (VObj kvs) =
     (let js = map (\<lambda>(k, v). case (str_of_cps k, to_json v) of
                                (Some k', Some v') \<Rightarrow> Some (KStr k', v')
                              | _ \<Rightarrow> None) kvs
      in if list_all (\<lambda>x. x \<noteq> None) js then Some (JObj (map the js)) else None)"

text \<open>\<open>JSONDecoder.decode\<close>: leading and trailing whitespace, then nothing else.\<close>

definition json_loads :: "string \<Rightarrow> json decoded" where
  "json_loads t =
     (case scan_value (Suc (2 * length t)) (skip_ws t) of
        None \<Rightarrow> Raised JSONDecodeError
      | Some (Inl e) \<Rightarrow> Raised e
      | Some (Inr (v, r)) \<Rightarrow>
          if skip_ws r \<noteq> [] then Raised JSONDecodeError
          else (case to_json v of None \<Rightarrow> Unmodelled | Some j \<Rightarrow> Decoded j))"

subsection \<open>Termination of the scanner\<close>

text \<open>
  Each step of the scanner consumes input: what is left after a value is shorter than the text it was read from.
\<close>

lemma skip_ws_le: "length (skip_ws s) \<le> length s"
  by (simp add: skip_ws_def length_dropWhile_le)

lemma scan_str_shrink: "scan_str s acc = Inr (u, r) \<Longrightarrow> length r < length s"
proof (induction s acc rule: scan_str.induct)
  case (2 c cs acc)
  show ?case
    using "2.prems" "2.IH"
    apply (auto simp: Let_def split: if_splits list.splits option.splits)
    apply fastforce+
    done
qed simp

lemma frac_part_le: "length (snd (frac_part r)) \<le> length r"
  by (auto simp: frac_part_def length_dropWhile_le le_SucI split: list.split)

lemma exp_digits_le: "length (exp_digits r) \<le> length r"
  by (auto simp: exp_digits_def split: list.split)

lemma exp_part_le: "length (snd (exp_part r)) \<le> length r"
proof -
  have "length (dropWhile is_digit_char (exp_digits r')) \<le> length r'" for r'
    using length_dropWhile_le exp_digits_le by (rule order.trans)
  then show ?thesis by (auto simp: exp_part_def le_SucI split: list.split)
qed

lemma match_unsigned_shrink:
  assumes "match_unsigned neg s1 = Some (Inr (v, r))"
  shows "length r < length s1"
proof -
  from assms obtain c cs where c: "s1 = c # cs"
    by (cases s1) (auto simp: match_unsigned_def)
  have "int_part s1 \<noteq> []" using c by (simp add: int_part_def)
  then have "length (drop (length (int_part s1)) s1) < length s1" using c by simp
  moreover have "r = snd (exp_part (snd (frac_part (drop (length (int_part s1)) s1))))"
    using assms c by (auto simp: match_unsigned_def Let_def split: if_splits)
  ultimately show ?thesis
    using frac_part_le exp_part_le by (metis le_less_trans order.strict_trans2)
qed

lemma match_number_shrink: "match_number s = Some (Inr (v, r)) \<Longrightarrow> length r < length s"
  by (auto simp: match_number_def dest!: match_unsigned_shrink split: if_splits)

lemma skip_ws_Cons_le: "skip_ws cs = d # r \<Longrightarrow> length r < length cs"
  using skip_ws_le [of cs] by simp

lemma scan_value_shrink_step:
  assumes IHi: "\<And>s vs v r. scan_items n s vs = Some (Inr (v, r)) \<Longrightarrow> length r < length s"
    and IHm: "\<And>s kvs v r. scan_members n s kvs = Some (Inr (v, r)) \<Longrightarrow> length r < length s"
    and sv: "scan_value (Suc n) s = Some (Inr (v, r))"
  shows "length r < length s"
proof (cases s)
  case Nil
  with sv show ?thesis by simp
next
  case (Cons c cs)
  consider (q) "c = CHR 0x22" | (o) "c \<noteq> CHR 0x22" "c = CHR ''{''" | (a) "c \<noteq> CHR 0x22" "c \<noteq> CHR ''{''" "c = CHR ''[''"
    | (other) "c \<noteq> CHR 0x22" "c \<noteq> CHR ''{''" "c \<noteq> CHR ''[''" by blast
  then show ?thesis
  proof cases
    case q
    with sv Cons show ?thesis by (auto dest!: scan_str_shrink split: sum.splits)
  next
    case o
    show ?thesis
    proof (cases "skip_ws cs")
      case Nil
      with sv Cons o IHm show ?thesis by fastforce
    next
      case (Cons d r')
      then have "length (d # r') \<le> length cs" using skip_ws_le [of cs] by simp
      with sv \<open>s = c # cs\<close> o Cons IHm [of "d # r'" "[]" v r] show ?thesis
        by (auto split: if_splits)
    qed
  next
    case a
    show ?thesis
    proof (cases "skip_ws cs")
      case Nil
      with sv Cons a IHi show ?thesis by fastforce
    next
      case (Cons d r')
      then have "length (d # r') \<le> length cs" using skip_ws_le [of cs] by simp
      with sv \<open>s = c # cs\<close> a Cons IHi [of "d # r'" "[]" v r] show ?thesis
        by (auto split: if_splits)
    qed
  next
    case other
    with sv Cons show ?thesis
      by (auto dest!: match_number_shrink split: if_splits option.splits)
  qed
qed

lemma scan_items_shrink_step:
  assumes IHv: "\<And>s v r. scan_value n s = Some (Inr (v, r)) \<Longrightarrow> length r < length s"
    and IHi: "\<And>s vs v r. scan_items n s vs = Some (Inr (v, r)) \<Longrightarrow> length r < length s"
    and si: "scan_items (Suc n) s vs = Some (Inr (v, r))"
  shows "length r < length s"
proof -
  obtain v1 r1 where v1: "scan_value n s = Some (Inr (v1, r1))"
    using si by (auto split: option.splits sum.splits)
  then have l1: "length r1 < length s" by (rule IHv)
  obtain d r' where d: "skip_ws r1 = d # r'"
    using si v1 by (auto split: list.splits)
  then have l2: "length r' < length r1" by (rule skip_ws_Cons_le)
  show ?thesis
  proof (cases "d = CHR '']''")
    case True
    with si v1 d have "r = r'" by simp
    with l1 l2 show ?thesis by simp
  next
    case False
    with si v1 d have "d = CHR '',''" and "scan_items n (skip_ws r') (vs @ [v1]) = Some (Inr (v, r))"
      by (auto split: if_splits)
    then have "length r < length (skip_ws r')" by (intro IHi)
    with l1 l2 skip_ws_le [of r'] show ?thesis by simp
  qed
qed

lemma scan_members_shrink_step:
  assumes IHv: "\<And>s v r. scan_value n s = Some (Inr (v, r)) \<Longrightarrow> length r < length s"
    and IHm: "\<And>s kvs v r. scan_members n s kvs = Some (Inr (v, r)) \<Longrightarrow> length r < length s"
    and sm: "scan_members (Suc n) s kvs = Some (Inr (v, r))"
  shows "length r < length s"
proof -
  obtain cs where s: "s = CHR 0x22 # cs"
    using sm by (auto split: list.splits if_splits)
  obtain k r0 where k: "scan_str cs [] = Inr (k, r0)"
    using sm s by (auto split: sum.splits)
  then have l0: "length r0 < length cs" by (rule scan_str_shrink)
  obtain r' where c: "skip_ws r0 = CHR '':'' # r'"
    using sm s k by (auto split: list.splits if_splits)
  then have l1: "length r' < length r0" by (rule skip_ws_Cons_le)
  obtain v1 r2 where v1: "scan_value n (skip_ws r') = Some (Inr (v1, r2))"
    using sm s k c by (auto split: option.splits sum.splits)
  then have l2: "length r2 < length (skip_ws r')" by (rule IHv)
  obtain d r3 where d: "skip_ws r2 = d # r3"
    using sm s k c v1 by (auto split: list.splits)
  then have l3: "length r3 < length r2" by (rule skip_ws_Cons_le)
  have lr': "length (skip_ws r') \<le> length r'" by (rule skip_ws_le)
  show ?thesis
  proof (cases "d = CHR ''}''")
    case True
    with sm s k c v1 d have "r = r3" by simp
    with l0 l1 l2 l3 lr' s show ?thesis by simp
  next
    case False
    with sm s k c v1 d have "scan_members n (skip_ws r3) (assoc_set kvs k v1) = Some (Inr (v, r))"
      by (auto split: if_splits)
    then have "length r < length (skip_ws r3)" by (rule IHm)
    with l0 l1 l2 l3 lr' s skip_ws_le [of r3] show ?thesis by simp
  qed
qed

lemma scan_shrink:
  "(\<forall>s v r. scan_value n s = Some (Inr (v, r)) \<longrightarrow> length r < length s) \<and>
   (\<forall>s vs v r. scan_items n s vs = Some (Inr (v, r)) \<longrightarrow> length r < length s) \<and>
   (\<forall>s kvs v r. scan_members n s kvs = Some (Inr (v, r)) \<longrightarrow> length r < length s)"
proof (induction n)
  case 0
  then show ?case by simp
next
  case (Suc n)
  then have v: "\<And>s v r. scan_value n s = Some (Inr (v, r)) \<Longrightarrow> length r < length s"
    and i: "\<And>s vs v r. scan_items n s vs = Some (Inr (v, r)) \<Longrightarrow> length r < length s"
    and m: "\<And>s kvs v r. scan_members n s kvs = Some (Inr (v, r)) \<Longrightarrow> length r < length s"
    by blast+
  show ?case
  proof (intro conjI allI impI)
    fix s v' r assume "scan_value (Suc n) s = Some (Inr (v', r))"
    with i m show "length r < length s" by (rule scan_value_shrink_step)
  next
    fix s vs v' r assume "scan_items (Suc n) s vs = Some (Inr (v', r))"
    with v i show "length r < length s" by (rule scan_items_shrink_step)
  next
    fix s kvs v' r assume "scan_members (Suc n) s kvs = Some (Inr (v', r))"
    with v m show "length r < length s" by (rule scan_members_shrink_step)
  qed
qed

lemma scan_value_shrink: "scan_value n s = Some (Inr (v, r)) \<Longrightarrow> length r < length s"
  using scan_shrink by blast

text \<open>
  Fuel: a value needs at most twice the length of its text, an element or member list one more.
\<close>

lemma scan_value_fuel_step:
  assumes IHi: "\<And>s vs. 2 * length s + 1 < n \<Longrightarrow> scan_items n s vs \<noteq> None"
    and IHm: "\<And>s kvs. 2 * length s + 1 < n \<Longrightarrow> scan_members n s kvs \<noteq> None"
    and f: "2 * length s < Suc n"
  shows "scan_value (Suc n) s \<noteq> None"
proof (cases s)
  case Nil
  then show ?thesis by simp
next
  case (Cons c cs)
  have n: "2 * length (skip_ws cs) + 1 < n" using f Cons skip_ws_le [of cs] by simp
  consider (q) "c = CHR 0x22" | (o) "c \<noteq> CHR 0x22" "c = CHR ''{''" | (a) "c \<noteq> CHR 0x22" "c \<noteq> CHR ''{''" "c = CHR ''[''"
    | (other) "c \<noteq> CHR 0x22" "c \<noteq> CHR ''{''" "c \<noteq> CHR ''[''" by blast
  then show ?thesis
  proof cases
    case q
    with Cons show ?thesis by simp
  next
    case o
    with Cons IHm [OF n, of "[]"] show ?thesis by (cases "skip_ws cs") auto
  next
    case a
    with Cons IHi [OF n, of "[]"] show ?thesis by (cases "skip_ws cs") auto
  next
    case other
    with Cons show ?thesis by (simp split: option.split)
  qed
qed

lemma scan_items_fuel_step:
  assumes IHv: "\<And>s. 2 * length s < n \<Longrightarrow> scan_value n s \<noteq> None"
    and IHi: "\<And>s vs. 2 * length s + 1 < n \<Longrightarrow> scan_items n s vs \<noteq> None"
    and f: "2 * length s + 1 < Suc n"
  shows "scan_items (Suc n) s vs \<noteq> None"
proof -
  obtain x where x: "scan_value n s = Some x" using IHv f by fastforce
  show ?thesis
  proof (cases x)
    case (Inl e)
    with x show ?thesis by simp
  next
    case (Inr p)
    obtain v r where p: "p = (v, r)" by fastforce
    have l: "length r < length s" using x Inr p scan_value_shrink by blast
    show ?thesis
    proof (cases "skip_ws r")
      case Nil
      with x Inr p show ?thesis by simp
    next
      case (Cons d r')
      have "2 * length (skip_ws r') + 1 < n"
        using skip_ws_Cons_le [OF Cons] skip_ws_le [of r'] l f by simp
      with IHi [of "skip_ws r'" "vs @ [v]"] x Inr p Cons show ?thesis by simp
    qed
  qed
qed

lemma scan_members_fuel_step:
  assumes IHv: "\<And>s. 2 * length s < n \<Longrightarrow> scan_value n s \<noteq> None"
    and IHm: "\<And>s kvs. 2 * length s + 1 < n \<Longrightarrow> scan_members n s kvs \<noteq> None"
    and f: "2 * length s + 1 < Suc n"
  shows "scan_members (Suc n) s kvs \<noteq> None"
proof (cases "\<exists>cs k r0 r'. s = CHR 0x22 # cs \<and> scan_str cs [] = Inr (k, r0) \<and> skip_ws r0 = CHR '':'' # r'")
  case False
  then show ?thesis by (auto split: list.splits if_splits sum.splits)
next
  case True
  then obtain cs k r0 r' where s: "s = CHR 0x22 # cs" and k: "scan_str cs [] = Inr (k, r0)"
    and c: "skip_ws r0 = CHR '':'' # r'" by blast
  have l: "length r' < length s"
    using scan_str_shrink [OF k] skip_ws_Cons_le [OF c] s by simp
  have lw: "length (skip_ws r') \<le> length r'" by (rule skip_ws_le)
  obtain x where x: "scan_value n (skip_ws r') = Some x" using IHv l lw f by fastforce
  show ?thesis
  proof (cases x)
    case (Inl e)
    with s k c x show ?thesis by simp
  next
    case (Inr p)
    obtain v r2 where p: "p = (v, r2)" by fastforce
    have l2: "length r2 < length (skip_ws r')" using x Inr p scan_value_shrink by blast
    show ?thesis
    proof (cases "skip_ws r2")
      case Nil
      with s k c x Inr p show ?thesis by simp
    next
      case (Cons d r3)
      have "2 * length (skip_ws r3) + 1 < n"
        using skip_ws_Cons_le [OF Cons] skip_ws_le [of r3] l l2 lw f by simp
      with IHm [of "skip_ws r3" "assoc_set kvs k v"] s k c x Inr p Cons show ?thesis by simp
    qed
  qed
qed

lemma scan_fuel:
  "(\<forall>s. 2 * length s < n \<longrightarrow> scan_value n s \<noteq> None) \<and>
   (\<forall>s vs. 2 * length s + 1 < n \<longrightarrow> scan_items n s vs \<noteq> None) \<and>
   (\<forall>s kvs. 2 * length s + 1 < n \<longrightarrow> scan_members n s kvs \<noteq> None)"
proof (induction n)
  case 0
  then show ?case by simp
next
  case (Suc n)
  then have v: "\<And>s. 2 * length s < n \<Longrightarrow> scan_value n s \<noteq> None"
    and i: "\<And>s vs. 2 * length s + 1 < n \<Longrightarrow> scan_items n s vs \<noteq> None"
    and m: "\<And>s kvs. 2 * length s + 1 < n \<Longrightarrow> scan_members n s kvs \<noteq> None"
    by blast+
  show ?case
  proof (intro conjI allI impI)
    fix s :: string assume "2 * length s < Suc n"
    with i m show "scan_value (Suc n) s \<noteq> None" by (rule scan_value_fuel_step)
  next
    fix s :: string and vs assume "2 * length s + 1 < Suc n"
    with v i show "scan_items (Suc n) s vs \<noteq> None" by (rule scan_items_fuel_step)
  next
    fix s :: string and kvs assume "2 * length s + 1 < Suc n"
    with v m show "scan_members (Suc n) s kvs \<noteq> None" by (rule scan_members_fuel_step)
  qed
qed

text \<open>
  Termination of \<open>json.loads\<close>: with the fuel \<open>json_loads\<close> gives it, one unit more than twice the
  length of the text, the scanner never runs out, on every text; so the outcome \<open>Raised JSONDecodeError\<close>
  of \<open>json_loads\<close> is never the exhausted fuel but always an error of the scanner.
\<close>

theorem json_loads_terminates: "scan_value (Suc (2 * length t)) (skip_ws t) \<noteq> None"
proof -
  have "2 * length (skip_ws t) < Suc (2 * length t)" using skip_ws_le [of t] by simp
  then show ?thesis using scan_fuel by blast
qed

text \<open>
  More fuel never changes a result: the outcome does not depend on the fuel once it is enough.
\<close>

lemma scan_value_mono_step:
  assumes IHi: "\<And>s vs x. scan_items n s vs = Some x \<Longrightarrow> scan_items m s vs = Some x"
    and IHm: "\<And>s kvs x. scan_members n s kvs = Some x \<Longrightarrow> scan_members m s kvs = Some x"
    and sv: "scan_value (Suc n) s = Some x"
  shows "scan_value (Suc m) s = Some x"
proof (cases s)
  case Nil
  with sv show ?thesis by simp
next
  case (Cons c cs)
  consider (q) "c = CHR 0x22" | (o) "c \<noteq> CHR 0x22" "c = CHR ''{''" | (a) "c \<noteq> CHR 0x22" "c \<noteq> CHR ''{''" "c = CHR ''[''"
    | (other) "c \<noteq> CHR 0x22" "c \<noteq> CHR ''{''" "c \<noteq> CHR ''[''" by blast
  then show ?thesis
  proof cases
    case q
    with sv Cons show ?thesis by simp
  next
    case o
    with sv Cons IHm show ?thesis by (cases "skip_ws cs") (auto split: if_splits)
  next
    case a
    with sv Cons IHi show ?thesis by (cases "skip_ws cs") (auto split: if_splits)
  next
    case other
    with sv Cons show ?thesis by simp
  qed
qed

lemma scan_items_mono_step:
  assumes IHv: "\<And>s x. scan_value n s = Some x \<Longrightarrow> scan_value m s = Some x"
    and IHi: "\<And>s vs x. scan_items n s vs = Some x \<Longrightarrow> scan_items m s vs = Some x"
    and si: "scan_items (Suc n) s vs = Some x"
  shows "scan_items (Suc m) s vs = Some x"
proof -
  obtain y where y: "scan_value n s = Some y" using si by (auto split: option.splits)
  then have y': "scan_value m s = Some y" by (rule IHv)
  show ?thesis
  proof (cases y)
    case (Inl e)
    with si y have "x = Inl e" by simp
    with y' Inl show ?thesis by simp
  next
    case (Inr p)
    obtain v r where p: "p = (v, r)" by fastforce
    show ?thesis
    proof (cases "skip_ws r")
      case Nil
      with si y y' Inr p show ?thesis by simp
    next
      case (Cons d r')
      with si y y' Inr p IHi [of "skip_ws r'" "vs @ [v]" x] show ?thesis by (auto split: if_splits)
    qed
  qed
qed

lemma scan_members_mono_step:
  assumes IHv: "\<And>s x. scan_value n s = Some x \<Longrightarrow> scan_value m s = Some x"
    and IHm: "\<And>s kvs x. scan_members n s kvs = Some x \<Longrightarrow> scan_members m s kvs = Some x"
    and sm: "scan_members (Suc n) s kvs = Some x"
  shows "scan_members (Suc m) s kvs = Some x"
proof (cases "\<exists>cs k r0 r'. s = CHR 0x22 # cs \<and> scan_str cs [] = Inr (k, r0) \<and> skip_ws r0 = CHR '':'' # r'")
  case False
  with sm show ?thesis by (auto split: list.splits if_splits sum.splits)
next
  case True
  then obtain cs k r0 r' where s: "s = CHR 0x22 # cs" and k: "scan_str cs [] = Inr (k, r0)"
    and c: "skip_ws r0 = CHR '':'' # r'" by blast
  obtain y where y: "scan_value n (skip_ws r') = Some y" using sm s k c by (auto split: option.splits)
  then have y': "scan_value m (skip_ws r') = Some y" by (rule IHv)
  show ?thesis
  proof (cases y)
    case (Inl e)
    with sm s k c y have "x = Inl e" by simp
    with s k c y' Inl show ?thesis by simp
  next
    case (Inr p)
    obtain v r2 where p: "p = (v, r2)" by fastforce
    show ?thesis
    proof (cases "skip_ws r2")
      case Nil
      with sm s k c y y' Inr p show ?thesis by simp
    next
      case (Cons d r3)
      with sm s k c y y' Inr p IHm [of "skip_ws r3" "assoc_set kvs k v" x] show ?thesis
        by (auto split: if_splits)
    qed
  qed
qed

lemma scan_mono:
  "\<forall>m. n \<le> m \<longrightarrow>
     (\<forall>s x. scan_value n s = Some x \<longrightarrow> scan_value m s = Some x) \<and>
     (\<forall>s vs x. scan_items n s vs = Some x \<longrightarrow> scan_items m s vs = Some x) \<and>
     (\<forall>s kvs x. scan_members n s kvs = Some x \<longrightarrow> scan_members m s kvs = Some x)"
proof (induction n)
  case 0
  then show ?case by simp
next
  case (Suc n)
  show ?case
  proof (intro allI impI)
    fix m' assume "Suc n \<le> m'"
    then obtain m where m': "m' = Suc m" and nm: "n \<le> m" by (cases m') auto
    from Suc nm have v: "\<And>s x. scan_value n s = Some x \<Longrightarrow> scan_value m s = Some x"
      and i: "\<And>s vs x. scan_items n s vs = Some x \<Longrightarrow> scan_items m s vs = Some x"
      and m: "\<And>s kvs x. scan_members n s kvs = Some x \<Longrightarrow> scan_members m s kvs = Some x"
      by blast+
    show "(\<forall>s x. scan_value (Suc n) s = Some x \<longrightarrow> scan_value m' s = Some x) \<and>
      (\<forall>s vs x. scan_items (Suc n) s vs = Some x \<longrightarrow> scan_items m' s vs = Some x) \<and>
      (\<forall>s kvs x. scan_members (Suc n) s kvs = Some x \<longrightarrow> scan_members m' s kvs = Some x)"
      unfolding m'
    proof (intro conjI allI impI)
      fix s :: string and x assume "scan_value (Suc n) s = Some x"
      with i m show "scan_value (Suc m) s = Some x" by (rule scan_value_mono_step)
    next
      fix s :: string and vs x assume "scan_items (Suc n) s vs = Some x"
      with v i show "scan_items (Suc m) s vs = Some x" by (rule scan_items_mono_step)
    next
      fix s :: string and kvs x assume "scan_members (Suc n) s kvs = Some x"
      with v m show "scan_members (Suc m) s kvs = Some x" by (rule scan_members_mono_step)
    qed
  qed
qed

lemma scan_value_mono: "scan_value n s = Some x \<Longrightarrow> n \<le> m \<Longrightarrow> scan_value m s = Some x"
  using scan_mono [of n] by blast

lemma scan_items_mono: "scan_items n s vs = Some x \<Longrightarrow> n \<le> m \<Longrightarrow> scan_items m s vs = Some x"
  using scan_mono [of n] by blast

lemma scan_members_mono: "scan_members n s kvs = Some x \<Longrightarrow> n \<le> m \<Longrightarrow> scan_members m s kvs = Some x"
  using scan_mono [of n] by blast

lemma scan_value_det: "scan_value n s = Some x \<Longrightarrow> scan_value m s = Some y \<Longrightarrow> x = y"
  using scan_value_mono [of n s x "max n m"] scan_value_mono [of m s y "max n m"] by simp

lemma loads_of_scan:
  assumes n: "scan_value n t = Some (Inr (v, r))" and ws: "skip_ws t = t"
  shows "json_loads t = (if skip_ws r \<noteq> [] then Raised JSONDecodeError
                         else (case to_json v of None \<Rightarrow> Unmodelled | Some j \<Rightarrow> Decoded j))"
proof -
  have "2 * length (skip_ws t) < Suc (2 * length t)" using skip_ws_le [of t] by simp
  then obtain y where y: "scan_value (Suc (2 * length t)) (skip_ws t) = Some y" using scan_fuel by blast
  with n ws have "y = Inr (v, r)" using scan_value_det by metis
  with y show ?thesis by (simp add: json_loads_def)
qed

end
