(* ===== verification/JsonRoundtrip.thy ===== *)
theory JsonRoundtrip
  imports JsonText
begin

text \<open>
  What the encoder and the decoder of \<open>JsonText\<close> do to each other: the text
  \<open>json_dumps\<close> prints for a document scans back, character by character, into the Python
  value of that document (\<open>scan_dumps\<close>), so that \<open>json_loads\<close> returns the document
  with its integer keys turned into strings (\<open>json_loads_dumps\<close>). The integer digit
  limit is the same on both sides (\<open>json_dumps_int_limit\<close>, \<open>json_loads_int_str\<close>).
\<close>

subsection \<open>The Python values of printed documents\<close>

text \<open>
  \<open>key_str\<close> is the text of a dictionary key in the output (\<open>json.dumps\<close> writes an
  integer key as its decimal string); \<open>py_val\<close> is the object \<open>json.loads\<close> builds from
  the text of a document; \<open>keys_to_str\<close> is the document with every key a string, and
  \<open>keys_distinct\<close> says that no object of the document has two keys with the same text.
  \<open>dump_start\<close> describes the first character of a printed value.
\<close>

fun key_str :: "key \<Rightarrow> string" where
  "key_str (KStr s) = s"
| "key_str (KInt i) = int_str i"

fun py_val :: "json \<Rightarrow> jval" where
  "py_val JNull = VNull"
| "py_val (JBool b) = VBool b"
| "py_val (JInt i) = VInt i"
| "py_val (JStr s) = VStr (map of_char s)"
| "py_val (JList xs) = VList (map py_val xs)"
| "py_val (JObj kvs) = VObj (map (\<lambda>(k, v). (map of_char (key_str k), py_val v)) kvs)"

fun keys_to_str :: "json \<Rightarrow> json" where
  "keys_to_str (JList xs) = JList (map keys_to_str xs)"
| "keys_to_str (JObj kvs) = JObj (map (\<lambda>(k, v). (KStr (key_str k), keys_to_str v)) kvs)"
| "keys_to_str v = v"

fun keys_distinct :: "json \<Rightarrow> bool" where
  "keys_distinct (JList xs) = list_all keys_distinct xs"
| "keys_distinct (JObj kvs) = (distinct (map (\<lambda>(k, v). key_str k) kvs) \<and> list_all (\<lambda>(k, v). keys_distinct v) kvs)"
| "keys_distinct v = True"

definition dump_start :: "string \<Rightarrow> bool" where
  "dump_start t \<longleftrightarrow> (\<exists>c r. t = c # r \<and> \<not> is_ws c \<and> c \<noteq> CHR '']'' \<and> c \<noteq> CHR ''}'')"

subsection \<open>Strings\<close>

lemma hex_val_hex_digit: "d < 16 \<Longrightarrow> hex_val (hex_digit d) = Some d"
  by (simp add: hex_digit_def hex_val_def Let_def)

lemma hex4_val_hex4: "n < 256 \<Longrightarrow> hex4_val (hex4 n) = Some n"
proof -
  assume n: "n < 256"
  then have "n div 4096 = 0" "n div 256 = 0" "n div 16 < 16" by simp_all
  then show ?thesis
    by (simp add: hex4_def hex4_val_def hex_val_hex_digit)
qed

lemma scan_str_plain:
  "c \<noteq> CHR 0x22 \<Longrightarrow> c \<noteq> CHR 0x5C \<Longrightarrow> 31 < (of_char c :: nat) \<Longrightarrow>
   scan_str (c # cs) acc = scan_str cs (of_char c # acc)"
  by simp

lemma scan_str_simple_escape:
  "simple_escape e = Some u \<Longrightarrow> e \<noteq> CHR ''u'' \<Longrightarrow>
   scan_str (CHR 0x5C # e # cs) acc = scan_str cs (u # acc)"
  by simp

lemma scan_str_u_escape:
  assumes "n < 256" "rest \<noteq> []"
  shows "scan_str (CHR 0x5C # CHR ''u'' # hex4 n @ rest) acc = scan_str rest (n # acc)"
proof -
  have "length (hex4 n) = 4" by (simp add: hex4_def)
  with assms show ?thesis by (simp add: hex4_val_hex4 is_high_surrogate_def)
qed

lemma scan_str_ascii_escape:
  "rest \<noteq> [] \<Longrightarrow> scan_str (ascii_escape c @ rest) acc = scan_str rest (of_char c # acc)"
proof -
  assume r: "rest \<noteq> []"
  have lt: "(of_char c :: nat) < 256" by (rule nat_of_char_less_256)
  consider (bs) "c = CHR 0x5C" | (qu) "c \<noteq> CHR 0x5C" "c = CHR 0x22"
    | (pr) "c \<noteq> CHR 0x5C" "c \<noteq> CHR 0x22" "32 \<le> (of_char c :: nat) \<and> (of_char c :: nat) \<le> 126"
    | (ctl) "c \<noteq> CHR 0x5C" "c \<noteq> CHR 0x22" "\<not> (32 \<le> (of_char c :: nat) \<and> (of_char c :: nat) \<le> 126)"
    by blast
  then show ?thesis
  proof cases
    case bs
    then show ?thesis by (simp add: ascii_escape_def simple_escape_def)
  next
    case qu
    then show ?thesis by (simp add: ascii_escape_def simple_escape_def)
  next
    case pr
    then show ?thesis by (simp add: ascii_escape_def)
  next
    case ctl
    show ?thesis
    proof (cases "(of_char c :: nat) \<in> {8, 12, 10, 13, 9}")
      case True
      then have "c = char_of (8::nat) \<or> c = char_of (12::nat) \<or> c = char_of (10::nat) \<or>
                 c = char_of (13::nat) \<or> c = char_of (9::nat)"
        by (metis char_of_char insertE empty_iff)
      with ctl show ?thesis by (auto simp: ascii_escape_def simple_escape_def)
    next
      case False
      with ctl lt r show ?thesis
        by (auto simp add: ascii_escape_def Let_def scan_str_u_escape simp del: scan_str.simps)
    qed
  qed
qed

lemma scan_str_encode:
  "scan_str (concat (map ascii_escape s) @ CHR 0x22 # rest) acc = Inr (rev acc @ map of_char s, rest)"
proof (induction s arbitrary: acc)
  case Nil
  then show ?case by simp
next
  case (Cons c s)
  have "scan_str (ascii_escape c @ concat (map ascii_escape s) @ CHR 0x22 # rest) acc =
        scan_str (concat (map ascii_escape s) @ CHR 0x22 # rest) (of_char c # acc)"
    by (rule scan_str_ascii_escape) simp
  with Cons show ?case by simp
qed

lemma ascii_escape_plain:
  "c \<noteq> CHR 0x22 \<Longrightarrow> c \<noteq> CHR 0x5C \<Longrightarrow> 32 \<le> (of_char c :: nat) \<Longrightarrow> (of_char c :: nat) \<le> 126 \<Longrightarrow>
   ascii_escape c = [c]"
  by (simp add: ascii_escape_def)

lemma encode_plain:
  "list_all (\<lambda>c. c \<noteq> CHR 0x22 \<and> c \<noteq> CHR 0x5C \<and> 32 \<le> (of_char c :: nat) \<and> (of_char c :: nat) \<le> 126) s \<Longrightarrow>
   encode_basestring_ascii s = CHR 0x22 # s @ [CHR 0x22]"
proof -
  assume "list_all (\<lambda>c. c \<noteq> CHR 0x22 \<and> c \<noteq> CHR 0x5C \<and> 32 \<le> (of_char c :: nat) \<and> (of_char c :: nat) \<le> 126) s"
  then have "concat (map ascii_escape s) = s" by (induction s) (simp_all add: ascii_escape_plain)
  then show ?thesis by (simp add: encode_basestring_ascii_def)
qed

lemma seq_text_map_Inr: "seq_text (map (\<lambda>x. Inr (f x)) xs) = Inr (map f xs)"
  by (induction xs) auto

subsection \<open>Integers\<close>

lemma nat_str_digits: "list_all is_digit_char (nat_str m)"
proof (induction m rule: nat_str.induct)
  case (1 n)
  have "n mod 10 < 10" by simp
  then have "is_digit_char (char_of (48 + n mod 10))" by (simp add: is_digit_char_def)
  moreover have "n < 10 \<Longrightarrow> is_digit_char (char_of (48 + n))" by (simp add: is_digit_char_def)
  ultimately show ?case using 1 by (subst nat_str.simps) simp
qed

lemma char_of_digit_eq: "a < 256 \<Longrightarrow> b < 256 \<Longrightarrow> (char_of (a::nat) = char_of (b::nat)) = (a = b)"
  by (metis of_char_of mod_less)

lemma nat_str_zero: "nat_str 0 = ''0''"
proof -
  have "char_of (48::nat) = CHR ''0''" by (rule of_char_eqI [where 'a = nat]) simp
  then show ?thesis by simp
qed

lemma nat_str_nonempty: "nat_str m \<noteq> []"
  by (subst nat_str.simps) simp

lemma nat_str_pos: "0 < m \<Longrightarrow> \<exists>c cs. nat_str m = c # cs \<and> c \<noteq> CHR ''0''"
proof (induction m rule: nat_str.induct)
  case (1 n)
  show ?case
  proof (cases "n < 10")
    case True
    have "CHR ''0'' = char_of (48::nat)" by (rule of_char_eqI [where 'a = nat]) simp
    with 1 True have "char_of (48 + n) \<noteq> CHR ''0''" by (simp add: char_of_digit_eq)
    with True show ?thesis by simp
  next
    case False
    with 1 obtain c cs where "nat_str (n div 10) = c # cs" "c \<noteq> CHR ''0''" by fastforce
    with False show ?thesis by (subst nat_str.simps) simp
  qed
qed

lemma digits_val_snoc: "digits_val (ds @ [c]) = 10 * digits_val ds + (of_char c - 48)"
  by (simp add: digits_val_def)

lemma digits_val_nat_str: "digits_val (nat_str m) = m"
proof (induction m rule: nat_str.induct)
  case (1 n)
  show ?case
  proof (cases "n < 10")
    case True
    then show ?thesis by (simp add: digits_val_def)
  next
    case False
    with 1 have "digits_val (nat_str (n div 10)) = n div 10" by simp
    moreover have "(of_char (char_of (48 + n mod 10) :: char) :: nat) = 48 + n mod 10" by simp
    ultimately show ?thesis using False by (subst nat_str.simps) (simp add: digits_val_snoc)
  qed
qed

lemma digit_not_special:
  "is_digit_char d \<Longrightarrow> d \<noteq> CHR 0x22 \<and> d \<noteq> CHR ''{'' \<and> d \<noteq> CHR ''['' \<and> d \<noteq> CHR ''n'' \<and>
     d \<noteq> CHR ''t'' \<and> d \<noteq> CHR ''f'' \<and> d \<noteq> CHR ''N'' \<and> d \<noteq> CHR ''I'' \<and> d \<noteq> CHR ''-'' \<and>
     d \<noteq> CHR ''.'' \<and> d \<noteq> CHR ''e'' \<and> d \<noteq> CHR ''E'' \<and> \<not> is_ws d"
  by (auto simp: is_digit_char_def is_ws_def)

lemma end_not_digit:
  "take 1 rest \<in> {[], '','', '']'', ''}''} \<Longrightarrow>
   takeWhile is_digit_char rest = [] \<and> frac_part rest = (False, rest) \<and> exp_part rest = (False, rest)"
  by (cases rest) (auto simp: is_digit_char_def frac_part_def exp_part_def split: list.split)

lemma int_part_nat_str:
  assumes e: "take 1 rest \<in> {[], '','', '']'', ''}''}"
  shows "int_part (nat_str m @ rest) = nat_str m"
proof (cases "m = 0")
  case True
  then show ?thesis by (simp only: nat_str_zero) (simp add: int_part_def)
next
  case False
  then obtain c cs where m: "nat_str m = c # cs" and c: "c \<noteq> CHR ''0''" using nat_str_pos by blast
  have "list_all is_digit_char cs" using nat_str_digits [of m] m by simp
  then have "takeWhile is_digit_char (cs @ rest) = cs @ takeWhile is_digit_char rest"
    by (simp add: takeWhile_append2 list_all_iff)
  with m c end_not_digit [OF e] show ?thesis by (simp add: int_part_def)
qed

lemma match_unsigned_nat_str_gen:
  assumes e: "take 1 rest \<in> {[], '','', '']'', ''}''}"
  shows "match_unsigned neg (nat_str m @ rest) =
    Some (if int_max_str_digits < length (nat_str m) then Inl (int_limit_error (length (nat_str m)))
          else Inr (VInt (if neg then - int m else int m), rest))"
proof -
  obtain c cs where m: "nat_str m = c # cs"
    using nat_str_nonempty [of m] by (cases "nat_str m") (auto simp del: nat_str.simps)
  have d: "is_digit_char c" using nat_str_digits [of m] m by simp
  show ?thesis
    using m d end_not_digit [OF e] int_part_nat_str [OF e, of m] digits_val_nat_str [of m]
    by (simp add: match_unsigned_def Let_def del: nat_str.simps)
qed

lemma match_number_int_str_gen:
  assumes e: "take 1 rest \<in> {[], '','', '']'', ''}''}"
  shows "match_number (int_str i @ rest) =
    Some (if int_max_str_digits < int_digits i then Inl (int_limit_error (int_digits i)) else Inr (VInt i, rest))"
proof (cases "i < 0")
  case True
  with e show ?thesis
    by (simp add: match_number_def int_str_def int_digits_def match_unsigned_nat_str_gen del: nat_str.simps)
next
  case False
  obtain c cs where m: "nat_str (nat i) = c # cs"
    using nat_str_nonempty [of "nat i"] by (cases "nat_str (nat i)") (auto simp del: nat_str.simps)
  have "is_digit_char c" using nat_str_digits [of "nat i"] m by simp
  then have "take 1 (nat_str (nat i) @ rest) \<noteq> ''-''" using m digit_not_special by simp
  with False e show ?thesis
    by (simp add: match_number_def int_str_def int_digits_def match_unsigned_nat_str_gen del: nat_str.simps)
qed

lemma nat_str_length_le: "0 < k \<Longrightarrow> length (nat_str n) \<le> k \<longleftrightarrow> n < 10 ^ k"
proof (induction n arbitrary: k rule: nat_str.induct)
  case (1 n)
  show ?case
  proof (cases "n < 10")
    case True
    moreover have "(10::nat) \<le> 10 ^ k" using 1(2) by (cases k) simp_all
    ultimately show ?thesis using 1(2) by (subst nat_str.simps) simp
  next
    case False
    have l: "length (nat_str n) = Suc (length (nat_str (n div 10)))"
      using False by (subst nat_str.simps) simp
    show ?thesis
    proof (cases k)
      case 0
      with 1(2) show ?thesis by simp
    next
      case (Suc k')
      show ?thesis
      proof (cases k')
        case 0
        with Suc False l nat_str_nonempty [of "n div 10"] show ?thesis by (cases "nat_str (n div 10)") simp_all
      next
        case (Suc k'')
        then have "length (nat_str (n div 10)) \<le> k' \<longleftrightarrow> n div 10 < 10 ^ k'"
          using 1(1) False by simp
        moreover have "n div 10 < 10 ^ k' \<longleftrightarrow> n < 10 ^ Suc k'"
          by (simp add: div_less_iff_less_mult mult.commute)
        ultimately show ?thesis using l \<open>k = Suc k'\<close> by simp
      qed
    qed
  qed
qed

lemma int_digits_le: "int_digits i \<le> int_max_str_digits \<longleftrightarrow> \<bar>i\<bar> < 10 ^ int_max_str_digits"
proof -
  have k: "0 < int_max_str_digits" by (simp add: int_max_str_digits_def)
  have "int_digits i \<le> int_max_str_digits \<longleftrightarrow> nat \<bar>i\<bar> < 10 ^ int_max_str_digits"
    unfolding int_digits_def by (rule nat_str_length_le [OF k])
  also have "\<dots> \<longleftrightarrow> \<bar>i\<bar> < 10 ^ int_max_str_digits"
    by (simp add: nat_less_iff)
  finally show ?thesis .
qed

text \<open>
  The integer digit limit of the encoder: \<open>json.dumps\<close> of an integer is its decimal text when it has
  at most 4300 digits, that is when its absolute value is below \<open>10 ^ 4300\<close>, and raises \<open>ValueError\<close>
  otherwise.
\<close>

theorem json_dumps_int_limit:
  "json_dumps (JInt i) =
     (if 10 ^ int_max_str_digits \<le> \<bar>i\<bar>
      then Inl (ValueError (''Exceeds the limit (4300 digits) for integer string conversion; '' @
                            ''use sys.set_int_max_str_digits() to increase the limit''))
      else Inr (int_str i))"
  using int_digits_le [of i] by (auto simp: int_repr_def)

subsection \<open>Printed documents\<close>

lemma skip_ws_nonws: "\<not> is_ws c \<Longrightarrow> skip_ws (c # r) = c # r"
  by (simp add: skip_ws_def)

lemma skip_ws_space: "skip_ws (CHR '' '' # r) = skip_ws r"
  by (simp add: skip_ws_def is_ws_def)

lemma key_text_Inr: "key_text k = Inr kt \<Longrightarrow> kt = encode_basestring_ascii (key_str k)"
  by (cases k) (auto simp: int_repr_def split: sum.splits if_splits)

lemma seq_text_Inr: "seq_text (map g xs) = Inr ts \<longleftrightarrow> list_all2 (\<lambda>x t. g x = Inr t) xs ts"
proof (induction xs arbitrary: ts)
  case Nil
  then show ?case by auto
next
  case (Cons x xs)
  show ?case
  proof (cases "g x")
    case (Inl e)
    then show ?thesis by (simp add: list_all2_Cons1)
  next
    case (Inr a)
    show ?thesis
    proof (cases "seq_text (map g xs)")
      case (Inl e)
      then have "\<not> list_all2 (\<lambda>x t. g x = Inr t) xs ts'" for ts' using Cons.IH by simp
      with Inl Inr show ?thesis by (simp add: list_all2_Cons1)
    next
      case (Inr ts0)
      then have "list_all2 (\<lambda>x t. g x = Inr t) xs ts' \<longleftrightarrow> ts' = ts0" for ts'
        using Cons.IH [of ts'] by auto
      with Inr \<open>g x = Inr a\<close> show ?thesis by (auto simp add: list_all2_Cons1)
    qed
  qed
qed

lemma assoc_set_fresh: "k \<notin> fst ` set kvs \<Longrightarrow> assoc_set kvs k v = kvs @ [(k, v)]"
  by (induction kvs) auto

lemma join_with_start: "dump_start w \<Longrightarrow> dump_start (join_with sep (w # ws))"
  by (cases ws) (auto simp: dump_start_def)

lemma dump_start_app: "dump_start t \<Longrightarrow> \<exists>c r. t @ rest = c # r \<and> \<not> is_ws c \<and> c \<noteq> CHR '']'' \<and> c \<noteq> CHR ''}''"
  by (auto simp: dump_start_def)

lemma int_str_start: "\<exists>r. int_str i = CHR ''-'' # r \<or> (\<exists>d. int_str i = d # r \<and> is_digit_char d)"
proof -
  obtain d r where "nat_str (if i < 0 then nat (- i) else nat i) = d # r"
    using nat_str_nonempty by (metis list.exhaust)
  moreover have "list_all is_digit_char (nat_str (if i < 0 then nat (- i) else nat i))" by (rule nat_str_digits)
  ultimately show ?thesis by (auto simp: int_str_def simp del: nat_str.simps split: if_splits)
qed

lemma json_dumps_list: "json_dumps (JList xs) = Inr t \<longleftrightarrow>
   (\<exists>ts. list_all2 (\<lambda>x t. json_dumps x = Inr t) xs ts \<and> t = CHR ''['' # join_with '', '' ts @ '']'')"
  by (auto simp: seq_text_Inr [symmetric] split: sum.split)

lemma json_dumps_obj: "json_dumps (JObj kvs) = Inr t \<longleftrightarrow>
   (\<exists>ts. list_all2 (\<lambda>(k, v) t. \<exists>kt vt. key_text k = Inr kt \<and> json_dumps v = Inr vt \<and> t = kt @ '': '' @ vt) kvs ts \<and>
         t = CHR ''{'' # join_with '', '' ts @ ''}'')"
proof -
  let ?G = "\<lambda>(k, v). case key_text k of Inl e \<Rightarrow> Inl e
              | Inr kt \<Rightarrow> (case json_dumps v of Inl e \<Rightarrow> Inl e | Inr vt \<Rightarrow> Inr (kt @ '': '' @ vt))"
  have d: "json_dumps (JObj kvs) = (case seq_text (map ?G kvs) of Inl e \<Rightarrow> Inl e
             | Inr ts \<Rightarrow> Inr (CHR ''{'' # join_with '', '' ts @ ''}''))"
    by simp
  have g: "(\<lambda>kv t'. ?G kv = Inr t') =
           (\<lambda>(k, v) t'. \<exists>kt vt. key_text k = Inr kt \<and> json_dumps v = Inr vt \<and> t' = kt @ '': '' @ vt)"
    by (intro ext) (auto split: sum.split prod.split)
  have "json_dumps (JObj kvs) = Inr t \<longleftrightarrow>
        (\<exists>ts. seq_text (map ?G kvs) = Inr ts \<and> t = CHR ''{'' # join_with '', '' ts @ ''}'')"
    unfolding d by (auto split: sum.split)
  also have "\<dots> \<longleftrightarrow> (\<exists>ts. list_all2 (\<lambda>kv t'. ?G kv = Inr t') kvs ts \<and> t = CHR ''{'' # join_with '', '' ts @ ''}'')"
    by (simp only: seq_text_Inr)
  finally show ?thesis by (simp only: g)
qed

lemma int_str_dump_start: "dump_start (int_str i)"
proof -
  obtain r where r: "int_str i = CHR ''-'' # r \<or> (\<exists>d. int_str i = d # r \<and> is_digit_char d)"
    using int_str_start by blast
  show ?thesis
  proof (cases "int_str i = CHR ''-'' # r")
    case True
    then show ?thesis by (simp add: dump_start_def is_ws_def)
  next
    case False
    with r obtain d where d: "int_str i = d # r" "is_digit_char d" by blast
    then have "\<not> is_ws d" "d \<noteq> CHR '']''" "d \<noteq> CHR ''}''"
      by (auto simp: is_digit_char_def is_ws_def)
    with d show ?thesis by (simp add: dump_start_def)
  qed
qed

lemma json_dumps_start: "json_dumps v = Inr t \<Longrightarrow> dump_start t"
proof (cases v)
  case (JInt i)
  assume "json_dumps v = Inr t"
  with JInt have t: "t = int_str i" by (simp add: int_repr_def split: if_splits)
  then show ?thesis by (simp add: int_str_dump_start)
next
  case (JList xs)
  assume "json_dumps v = Inr t"
  with JList obtain ts where "t = CHR ''['' # join_with '', '' ts @ '']''"
    by (auto simp only: json_dumps_list)
  then show ?thesis by (simp add: dump_start_def is_ws_def)
next
  case (JObj kvs)
  assume "json_dumps v = Inr t"
  with JObj obtain ts where "t = CHR ''{'' # join_with '', '' ts @ ''}''"
    by (auto simp only: json_dumps_obj)
  then show ?thesis by (simp add: dump_start_def is_ws_def)
next
  case JNull
  assume "json_dumps v = Inr t"
  with JNull have "t = ''null''" by simp
  then show ?thesis by (simp add: dump_start_def is_ws_def)
next
  case (JBool b)
  assume "json_dumps v = Inr t"
  with JBool have "t = (if b then ''true'' else ''false'')" by simp
  then show ?thesis by (simp add: dump_start_def is_ws_def)
next
  case (JStr s)
  assume "json_dumps v = Inr t"
  with JStr have "t = encode_basestring_ascii s" by simp
  then show ?thesis by (simp add: dump_start_def is_ws_def encode_basestring_ascii_def)
qed

lemma skip_ws_dump: "dump_start t \<Longrightarrow> skip_ws (t @ rest) = t @ rest"
  using dump_start_app [of t rest] skip_ws_nonws by force

lemma scan_value_number:
  assumes s: "s = c # cs"
    and c: "c \<noteq> CHR 0x22" "c \<noteq> CHR ''{''" "c \<noteq> CHR ''[''" "c \<noteq> CHR ''n''" "c \<noteq> CHR ''t''"
      "c \<noteq> CHR ''f''" "c \<noteq> CHR ''N''" "c \<noteq> CHR ''I''"
    and m: "c = CHR ''-'' \<Longrightarrow> cs = [] \<or> hd cs \<noteq> CHR ''I''"
  shows "scan_value (Suc n) s = (case match_number s of None \<Rightarrow> Some (Inl JSONDecodeError) | Some r \<Rightarrow> Some r)"
proof -
  have nI: "c = CHR ''-'' \<Longrightarrow> take 8 cs \<noteq> ''Infinity''"
    using m by (cases cs) auto
  show ?thesis
  proof (cases "c = CHR ''-''")
    case True
    with nI s c show ?thesis by simp
  next
    case False
    with s c show ?thesis by simp
  qed
qed

lemma scan_value_int_dispatch:
  "scan_value (Suc n) (int_str i @ rest) =
     (case match_number (int_str i @ rest) of None \<Rightarrow> Some (Inl JSONDecodeError) | Some r \<Rightarrow> Some r)"
proof -
  obtain d ds where nd: "nat_str (if i < 0 then nat (- i) else nat i) = d # ds"
    using nat_str_nonempty by (metis list.exhaust)
  have "list_all is_digit_char (nat_str (if i < 0 then nat (- i) else nat i))" by (rule nat_str_digits)
  with nd have d: "is_digit_char d" by simp
  show ?thesis
  proof (cases "i < 0")
    case True
    with nd have eq: "int_str i @ rest = CHR ''-'' # d # ds @ rest" by (simp add: int_str_def del: nat_str.simps)
    show ?thesis unfolding eq
      by (rule scan_value_number [OF refl]) (simp_all add: digit_not_special [OF d])
  next
    case False
    with nd have eq: "int_str i @ rest = d # ds @ rest" by (simp add: int_str_def del: nat_str.simps)
    show ?thesis unfolding eq
      by (rule scan_value_number [OF refl]) (simp_all add: digit_not_special [OF d])
  qed
qed

lemma scan_value_int:
  assumes e: "take 1 rest \<in> {[], '','', '']'', ''}''}" and l: "int_digits i \<le> int_max_str_digits"
  shows "scan_value (Suc n) (int_str i @ rest) = Some (Inr (VInt i, rest))"
  using scan_value_int_dispatch [of n i rest] match_number_int_str_gen [OF e, of i] l by simp

lemma scan_value_str:
  "scan_value (Suc n) (encode_basestring_ascii s @ rest) = Some (Inr (VStr (map of_char s), rest))"
  by (simp add: encode_basestring_ascii_def scan_str_encode)

text \<open>
  The integer digit limit of the decoder: \<open>json.loads\<close> of the decimal text of an integer gives the
  integer back when it has at most 4300 digits, and raises the \<open>ValueError\<close> of \<open>int()\<close>, naming the
  number of digits, otherwise; the bound is the encoder's.
\<close>

theorem json_loads_int_str:
  "json_loads (int_str i) =
     (if 10 ^ int_max_str_digits \<le> \<bar>i\<bar> then Raised (int_limit_error (int_digits i)) else Decoded (JInt i))"
proof -
  have ws: "skip_ws (int_str i) = int_str i" using skip_ws_dump [OF int_str_dump_start, of i "[]"] by simp
  have "scan_value (Suc (2 * length (int_str i))) (int_str i @ []) =
     Some (if int_max_str_digits < int_digits i then Inl (int_limit_error (int_digits i)) else Inr (VInt i, []))"
    using scan_value_int_dispatch [of _ i "[]"] match_number_int_str_gen [of "[]" i] by simp
  moreover have "int_max_str_digits < int_digits i \<longleftrightarrow> 10 ^ int_max_str_digits \<le> \<bar>i\<bar>"
    using int_digits_le [of i] by linarith
  ultimately show ?thesis using ws
    by (simp add: json_loads_def skip_ws_def del: scan_value.simps)
qed

text \<open>
  Lists and objects scan back element by element; distinct keys make \<open>assoc_set\<close> an append.
\<close>

lemma scan_items_step:
  assumes v: "scan_value n1 (t @ rest1) = Some (Inr (x, rest1))"
    and r: "skip_ws rest1 = d # rest2"
  shows "scan_items (Suc (max n1 n2)) (t @ rest1) acc =
     (if d = CHR '']'' then Some (Inr (VList (acc @ [x]), rest2))
      else if d = CHR '','' then scan_items (max n1 n2) (skip_ws rest2) (acc @ [x])
      else Some (Inl JSONDecodeError))"
proof -
  have "scan_value (max n1 n2) (t @ rest1) = Some (Inr (x, rest1))"
    using v by (rule scan_value_mono) simp
  with r show ?thesis by simp
qed

lemma scan_items_dumps:
  assumes "list_all2 (\<lambda>x t. json_dumps x = Inr t) xs ts" "xs \<noteq> []"
    and "\<forall>x\<in>set xs. \<forall>t. json_dumps x = Inr t \<longrightarrow> keys_distinct x \<longrightarrow>
           (\<forall>rest. take 1 rest \<in> {[], '','', '']'', ''}''} \<longrightarrow>
              (\<exists>n. scan_value n (t @ rest) = Some (Inr (py_val x, rest))))"
    and "list_all keys_distinct xs" "take 1 rest \<in> {[], '','', '']'', ''}''}"
  shows "\<exists>n. scan_items n (join_with '', '' ts @ CHR '']'' # rest) acc = Some (Inr (VList (acc @ map py_val xs), rest))"
  using assms
proof (induction xs arbitrary: ts acc)
  case Nil
  then show ?case by simp
next
  case (Cons x xs)
  then obtain t ts' where ts: "ts = t # ts'" and tx: "json_dumps x = Inr t"
    and all: "list_all2 (\<lambda>x t. json_dumps x = Inr t) xs ts'"
    by (auto simp: list_all2_Cons1)
  have scx: "\<And>rest'. take 1 rest' \<in> {[], '','', '']'', ''}''} \<Longrightarrow>
      \<exists>n. scan_value n (t @ rest') = Some (Inr (py_val x, rest'))"
  proof -
    fix rest' :: string assume e: "take 1 rest' \<in> {[], '','', '']'', ''}''}"
    have kx: "keys_distinct x" using Cons.prems(4) by simp
    have "x \<in> set (x # xs)" by simp
    with Cons.prems(3) tx kx e show "\<exists>n. scan_value n (t @ rest') = Some (Inr (py_val x, rest'))"
      by blast
  qed
  show ?case
  proof (cases "xs = []")
    case True
    with all ts have ts': "ts = [t]" by simp
    obtain n1 where n1: "scan_value n1 (t @ CHR '']'' # rest) = Some (Inr (py_val x, CHR '']'' # rest))"
      using scx [of "CHR '']'' # rest"] by auto
    have "skip_ws (CHR '']'' # rest) = CHR '']'' # rest" by (simp add: skip_ws_nonws is_ws_def)
    from scan_items_step [OF n1 this, of 0 acc]
    have f: "scan_items (Suc (max n1 0)) (t @ CHR '']'' # rest) acc = Some (Inr (VList (acc @ [py_val x]), rest))"
      by (simp del: scan_items.simps)
    have "join_with '', '' ts @ CHR '']'' # rest = t @ CHR '']'' # rest" "map py_val (x # xs) = [py_val x]"
      using ts' True by simp_all
    with f show ?thesis by metis
  next
    case False
    with all have ne: "ts' \<noteq> []" by (cases ts') auto
    let ?r1 = "CHR '','' # CHR '' '' # join_with '', '' ts' @ CHR '']'' # rest"
    obtain n1 where n1: "scan_value n1 (t @ ?r1) = Some (Inr (py_val x, ?r1))"
      using scx [of ?r1] by auto
    have "\<exists>n. scan_items n (join_with '', '' ts' @ CHR '']'' # rest) (acc @ [py_val x]) =
        Some (Inr (VList ((acc @ [py_val x]) @ map py_val xs), rest))"
      apply (rule Cons.IH [OF all False])
      using Cons.prems(3,4,5) apply simp_all
      done
    then obtain n2 where n2: "scan_items n2 (join_with '', '' ts' @ CHR '']'' # rest) (acc @ [py_val x]) =
        Some (Inr (VList ((acc @ [py_val x]) @ map py_val xs), rest))" by blast
    obtain t' ts'' where ts'': "ts' = t' # ts''" using ne by (cases ts') auto
    with all obtain x' where "json_dumps x' = Inr t'" by (cases xs) auto
    then have "dump_start (join_with '', '' ts')" using ts'' by (simp add: json_dumps_start join_with_start)
    then have sk: "skip_ws (CHR '' '' # join_with '', '' ts' @ CHR '']'' # rest) = join_with '', '' ts' @ CHR '']'' # rest"
      by (simp add: skip_ws_space skip_ws_dump)
    have "skip_ws ?r1 = CHR '','' # CHR '' '' # join_with '', '' ts' @ CHR '']'' # rest"
      by (simp add: skip_ws_nonws is_ws_def)
    from scan_items_step [OF n1 this, of n2 acc] sk scan_items_mono [OF n2, of "max n1 n2"]
    have "scan_items (Suc (max n1 n2)) (t @ ?r1) acc = Some (Inr (VList (acc @ map py_val (x # xs)), rest))"
      by (simp del: scan_items.simps)
    moreover have "join_with '', '' ts @ CHR '']'' # rest = t @ ?r1"
      using ts ne by (simp add: join_with_Cons)
    ultimately show ?thesis by metis
  qed
qed

lemma scan_members_step:
  assumes v: "scan_value n1 (vt @ rest1) = Some (Inr (x, rest1))" and ds: "dump_start vt"
    and r: "skip_ws rest1 = d # rest2"
  shows "scan_members (Suc (max n1 n2)) (encode_basestring_ascii ks @ '': '' @ vt @ rest1) acc =
     (if d = CHR ''}'' then Some (Inr (VObj (assoc_set acc (map of_char ks) x), rest2))
      else if d = CHR '','' then scan_members (max n1 n2) (skip_ws rest2) (assoc_set acc (map of_char ks) x)
      else Some (Inl JSONDecodeError))"
proof -
  have v': "scan_value (max n1 n2) (vt @ rest1) = Some (Inr (x, rest1))"
    using v by (rule scan_value_mono) simp
  have s: "scan_str (concat (map ascii_escape ks) @ CHR 0x22 # CHR '':'' # CHR '' '' # vt @ rest1) [] =
           Inr (map of_char ks, CHR '':'' # CHR '' '' # vt @ rest1)"
    using scan_str_encode [of ks "CHR '':'' # CHR '' '' # vt @ rest1" "[]"] by simp
  have w1: "skip_ws (CHR '':'' # CHR '' '' # vt @ rest1) = CHR '':'' # CHR '' '' # vt @ rest1"
    by (simp add: skip_ws_nonws is_ws_def)
  have w2: "skip_ws (CHR '' '' # vt @ rest1) = vt @ rest1"
    using ds by (simp add: skip_ws_space skip_ws_dump)
  show ?thesis
    using s w1 w2 v' r by (simp add: encode_basestring_ascii_def)
qed

lemma map_of_char_eq: "map of_char xs = (map of_char ys :: nat list) \<longleftrightarrow> xs = ys"
  by (rule inj_map_eq_map) (rule inj_of_char)

lemma scan_members_dumps:
  assumes "list_all2 (\<lambda>(k, v) t. \<exists>kt vt. key_text k = Inr kt \<and> json_dumps v = Inr vt \<and> t = kt @ '': '' @ vt) kvs ts"
    and "kvs \<noteq> []"
    and "\<forall>k v. (k, v) \<in> set kvs \<longrightarrow> (\<forall>t. json_dumps v = Inr t \<longrightarrow> keys_distinct v \<longrightarrow>
           (\<forall>rest. take 1 rest \<in> {[], '','', '']'', ''}''} \<longrightarrow>
              (\<exists>n. scan_value n (t @ rest) = Some (Inr (py_val v, rest)))))"
    and "\<forall>k v. (k, v) \<in> set kvs \<longrightarrow> keys_distinct v"
    and "distinct (map (\<lambda>(k, v). key_str k) kvs)"
    and "\<forall>k v. (k, v) \<in> set kvs \<longrightarrow> map of_char (key_str k) \<notin> fst ` set acc"
    and "take 1 rest \<in> {[], '','', '']'', ''}''}"
  shows "\<exists>n. scan_members n (join_with '', '' ts @ CHR ''}'' # rest) acc =
           Some (Inr (VObj (acc @ map (\<lambda>(k, v). (map of_char (key_str k), py_val v)) kvs), rest))"
  using assms
proof (induction kvs arbitrary: ts acc)
  case Nil
  then show ?case by simp
next
  case (Cons kv kvs)
  obtain k v where kv: "kv = (k, v)" by fastforce
  from Cons.prems(1) kv obtain t ts' kt vt where ts: "ts = t # ts'" and kt: "key_text k = Inr kt"
    and vt: "json_dumps v = Inr vt" and t: "t = kt @ '': '' @ vt"
    and all: "list_all2 (\<lambda>(k, v) t. \<exists>kt vt. key_text k = Inr kt \<and> json_dumps v = Inr vt \<and> t = kt @ '': '' @ vt) kvs ts'"
    by (auto simp: list_all2_Cons1)
  have kt': "kt = encode_basestring_ascii (key_str k)" using kt by (rule key_text_Inr)
  have ds: "dump_start vt" using vt by (rule json_dumps_start)
  have kd: "keys_distinct v" using Cons.prems(4) kv by simp
  have scv: "\<And>rest'. take 1 rest' \<in> {[], '','', '']'', ''}''} \<Longrightarrow>
      \<exists>n. scan_value n (vt @ rest') = Some (Inr (py_val v, rest'))"
    using Cons.prems(3) kv vt kd by auto
  have fresh: "map of_char (key_str k) \<notin> fst ` set acc" using Cons.prems(6) kv by simp
  let ?p = "(map of_char (key_str k), py_val v)"
  have as: "assoc_set acc (map of_char (key_str k)) (py_val v) = acc @ [?p]"
    using fresh by (rule assoc_set_fresh)
  show ?case
  proof (cases "kvs = []")
    case True
    with all ts have ts': "ts = [t]" by simp
    obtain n1 where n1: "scan_value n1 (vt @ CHR ''}'' # rest) = Some (Inr (py_val v, CHR ''}'' # rest))"
      using scv [of "CHR ''}'' # rest"] by auto
    have "skip_ws (CHR ''}'' # rest) = CHR ''}'' # rest" by (simp add: skip_ws_nonws is_ws_def)
    from scan_members_step [OF n1 ds this, of 0 "key_str k" acc] as
    have f: "scan_members (Suc (max n1 0)) (kt @ '': '' @ vt @ CHR ''}'' # rest) acc = Some (Inr (VObj (acc @ [?p]), rest))"
      unfolding kt' by (simp del: scan_members.simps)
    have "join_with '', '' ts @ CHR ''}'' # rest = kt @ '': '' @ vt @ CHR ''}'' # rest"
      "acc @ map (\<lambda>(k, v). (map of_char (key_str k), py_val v)) (kv # kvs) = acc @ [?p]"
      using ts' True t kv by simp_all
    with f show ?thesis by metis
  next
    case False
    with all have ne: "ts' \<noteq> []" by (cases ts') auto
    let ?r1 = "CHR '','' # CHR '' '' # join_with '', '' ts' @ CHR ''}'' # rest"
    obtain n1 where n1: "scan_value n1 (vt @ ?r1) = Some (Inr (py_val v, ?r1))"
      using scv [of ?r1] by auto
    have fresh': "\<forall>k' v'. (k', v') \<in> set kvs \<longrightarrow> map of_char (key_str k') \<notin> fst ` set (acc @ [?p])"
    proof (intro allI impI)
      fix k' v' assume kv': "(k', v') \<in> set kvs"
      with Cons.prems(5) kv have "key_str k' \<noteq> key_str k" by force
      then have "map of_char (key_str k') \<noteq> (map of_char (key_str k) :: nat list)" by (simp add: map_of_char_eq)
      with kv' Cons.prems(6) show "map of_char (key_str k') \<notin> fst ` set (acc @ [?p])" by auto
    qed
    have "\<exists>n. scan_members n (join_with '', '' ts' @ CHR ''}'' # rest) (acc @ [?p]) =
        Some (Inr (VObj ((acc @ [?p]) @ map (\<lambda>(k, v). (map of_char (key_str k), py_val v)) kvs), rest))"
      apply (rule Cons.IH [OF all False])
      using Cons.prems(3,4,5,7) fresh' apply simp_all
      done
    then obtain n2 where n2: "scan_members n2 (join_with '', '' ts' @ CHR ''}'' # rest) (acc @ [?p]) =
        Some (Inr (VObj ((acc @ [?p]) @ map (\<lambda>(k, v). (map of_char (key_str k), py_val v)) kvs), rest))"
      by blast
    obtain t' ts'' where ts'': "ts' = t' # ts''" using ne by (cases ts') auto
    with all obtain k' v' kt2 vt2 where "t' = kt2 @ '': '' @ vt2" "key_text k' = Inr kt2"
      by (cases kvs) (auto simp: list_all2_Cons1)
    then have "dump_start t'" by (auto simp: dump_start_def encode_basestring_ascii_def is_ws_def dest!: key_text_Inr)
    then have "dump_start (join_with '', '' ts')" using ts'' by (simp add: join_with_start)
    then have sk: "skip_ws (CHR '' '' # join_with '', '' ts' @ CHR ''}'' # rest) = join_with '', '' ts' @ CHR ''}'' # rest"
      by (simp add: skip_ws_space skip_ws_dump)
    have "skip_ws ?r1 = CHR '','' # CHR '' '' # join_with '', '' ts' @ CHR ''}'' # rest"
      by (simp add: skip_ws_nonws is_ws_def)
    from scan_members_step [OF n1 ds this, of n2 "key_str k" acc] sk as scan_members_mono [OF n2, of "max n1 n2"]
    have "scan_members (Suc (max n1 n2)) (kt @ '': '' @ vt @ ?r1) acc =
          Some (Inr (VObj (acc @ map (\<lambda>(k, v). (map of_char (key_str k), py_val v)) (kv # kvs)), rest))"
      unfolding kt' using kv by (simp del: scan_members.simps)
    moreover have "join_with '', '' ts @ CHR ''}'' # rest = kt @ '': '' @ vt @ ?r1"
      using ts ne t by (simp add: join_with_Cons)
    ultimately show ?thesis by metis
  qed
qed

lemma scan_dumps:
  "json_dumps v = Inr t \<Longrightarrow> keys_distinct v \<Longrightarrow> take 1 rest \<in> {[], '','', '']'', ''}''} \<Longrightarrow>
   \<exists>n. scan_value n (t @ rest) = Some (Inr (py_val v, rest))"
proof (induction v arbitrary: t rest)
  case JNull
  then have "t = ''null''" by simp
  then show ?case by (intro exI [of _ "Suc 0"]) simp
next
  case (JBool b)
  then have "t = (if b then ''true'' else ''false'')" by simp
  then show ?case by (intro exI [of _ "Suc 0"]) (cases b; simp)
next
  case (JInt i)
  then have t: "t = int_str i" and l: "int_digits i \<le> int_max_str_digits"
    by (simp_all add: int_repr_def split: if_splits)
  have "scan_value (Suc 0) (int_str i @ rest) = Some (Inr (VInt i, rest))"
    using JInt.prems(3) l by (rule scan_value_int)
  with t show ?case by (metis py_val.simps(3))
next
  case (JStr s)
  then have t: "t = encode_basestring_ascii s" by simp
  have "scan_value (Suc 0) (encode_basestring_ascii s @ rest) = Some (Inr (VStr (map of_char s), rest))"
    by (rule scan_value_str)
  with t show ?case by (metis py_val.simps(4))
next
  case (JList xs)
  from JList.prems(1) obtain ts where all: "list_all2 (\<lambda>x t. json_dumps x = Inr t) xs ts"
    and t: "t = CHR ''['' # join_with '', '' ts @ '']''" by (auto simp only: json_dumps_list)
  show ?case
  proof (cases "xs = []")
    case True
    with all t have "t = ''[]''" by simp
    with True show ?thesis by (intro exI [of _ "Suc 0"]) (simp add: skip_ws_nonws is_ws_def)
  next
    case False
    with all obtain t1 ts' where ts: "ts = t1 # ts'" and "json_dumps (hd xs) = Inr t1"
      by (cases xs) (auto simp: list_all2_Cons1)
    then have ds: "dump_start (join_with '', '' ts)" by (simp add: json_dumps_start join_with_start)
    have "\<exists>n. scan_items n (join_with '', '' ts @ CHR '']'' # rest) [] = Some (Inr (VList ([] @ map py_val xs), rest))"
      apply (rule scan_items_dumps [OF all False])
      using JList.IH JList.prems(2,3) apply (simp_all add: list_all_iff)
      done
    then obtain n where n: "scan_items n (join_with '', '' ts @ CHR '']'' # rest) [] = Some (Inr (py_val (JList xs), rest))"
      by auto
    obtain d r' where dr: "join_with '', '' ts @ CHR '']'' # rest = d # r'" "\<not> is_ws d" "d \<noteq> CHR '']''"
      using dump_start_app [OF ds] by blast
    then have "scan_value (Suc n) (CHR ''['' # join_with '', '' ts @ CHR '']'' # rest) = Some (Inr (py_val (JList xs), rest))"
      using n by (simp add: skip_ws_nonws del: scan_items.simps py_val.simps)
    moreover have "t @ rest = CHR ''['' # join_with '', '' ts @ CHR '']'' # rest" using t by simp
    ultimately show ?thesis by metis
  qed
next
  case (JObj kvs)
  from JObj.prems(1) obtain ts where all: "list_all2 (\<lambda>(k, v) t. \<exists>kt vt. key_text k = Inr kt \<and> json_dumps v = Inr vt \<and> t = kt @ '': '' @ vt) kvs ts"
    and t: "t = CHR ''{'' # join_with '', '' ts @ ''}''" by (auto simp only: json_dumps_obj)
  show ?case
  proof (cases "kvs = []")
    case True
    with all t have "t = ''{}''" by simp
    with True show ?thesis by (intro exI [of _ "Suc 0"]) (simp add: skip_ws_nonws is_ws_def)
  next
    case False
    with all obtain t1 ts' k1 kt1 vt1 where ts: "ts = t1 # ts'" and "t1 = kt1 @ '': '' @ vt1" "key_text k1 = Inr kt1"
      by (cases kvs) (auto simp: list_all2_Cons1)
    then have "dump_start t1" by (auto simp: dump_start_def encode_basestring_ascii_def is_ws_def dest!: key_text_Inr)
    then have ds: "dump_start (join_with '', '' ts)" using ts by (simp add: join_with_start)
    have "\<exists>n. scan_members n (join_with '', '' ts @ CHR ''}'' # rest) [] =
            Some (Inr (VObj ([] @ map (\<lambda>(k, v). (map of_char (key_str k), py_val v)) kvs), rest))"
      apply (rule scan_members_dumps [OF all False])
      using JObj.IH JObj.prems(2,3) apply (auto simp: list_all_iff)
      done
    then obtain n where n: "scan_members n (join_with '', '' ts @ CHR ''}'' # rest) [] = Some (Inr (py_val (JObj kvs), rest))"
      by auto
    obtain d r' where dr: "join_with '', '' ts @ CHR ''}'' # rest = d # r'" "\<not> is_ws d" "d \<noteq> CHR ''}''"
      using dump_start_app [OF ds] by blast
    then have "scan_value (Suc n) (CHR ''{'' # join_with '', '' ts @ CHR ''}'' # rest) = Some (Inr (py_val (JObj kvs), rest))"
      using n by (simp add: skip_ws_nonws del: scan_members.simps py_val.simps)
    moreover have "t @ rest = CHR ''{'' # join_with '', '' ts @ CHR ''}'' # rest" using t by simp
    ultimately show ?thesis by metis
  qed
qed

lemma str_of_cps_of_char: "str_of_cps (map of_char s) = Some s"
  by (simp add: str_of_cps_def list_all_iff nat_of_char_less_256 comp_def)

lemma to_json_py_val: "to_json (py_val v) = Some (keys_to_str v)"
proof (induction v)
  case (JList xs)
  then have "map to_json (map py_val xs) = map (Some \<circ> keys_to_str) xs" by simp
  then show ?case by (simp add: list_all_iff comp_def)
next
  case (JObj kvs)
  then have "map (\<lambda>(k, v). case (str_of_cps k, to_json v) of (Some k', Some v') \<Rightarrow> Some (KStr k', v') | _ \<Rightarrow> None)
               (map (\<lambda>(k, v). (map of_char (key_str k), py_val v)) kvs) =
             map (\<lambda>(k, v). Some (KStr (key_str k), keys_to_str v)) kvs"
    by (auto simp: str_of_cps_of_char)
  then show ?case by (simp add: list_all_iff split_def comp_def)
qed (simp_all add: str_of_cps_of_char)

text \<open>
  Round trip: \<open>json.loads\<close> of the text \<open>json.dumps\<close> prints is the document again, with its
  integer keys turned into strings, whenever no object has two keys with the same text.
\<close>

theorem json_loads_dumps:
  assumes d: "json_dumps v = Inr t" and k: "keys_distinct v"
  shows "json_loads t = Decoded (keys_to_str v)"
proof -
  obtain n where n: "scan_value n t = Some (Inr (py_val v, []))"
    using scan_dumps [OF d k, of "[]"] by auto
  have ws: "skip_ws t = t" using skip_ws_dump [OF json_dumps_start [OF d], of "[]"] by simp
  show ?thesis using loads_of_scan [OF n ws] by (simp add: skip_ws_def to_json_py_val)
qed

text \<open>
  Extra data: a printed document followed by a comma or a closing bracket is rejected with
  \<open>JSONDecodeError\<close>, although the document itself scans.
\<close>

theorem json_loads_extra_data:
  assumes d: "json_dumps v = Inr t" and k: "keys_distinct v" and c: "c \<in> {CHR '','', CHR '']'', CHR ''}''}"
  shows "json_loads (t @ c # r) = Raised JSONDecodeError"
proof -
  obtain n where n: "scan_value n (t @ c # r) = Some (Inr (py_val v, c # r))"
    using scan_dumps [OF d k, of "c # r"] c by auto
  have ws: "skip_ws (t @ c # r) = t @ c # r" by (rule skip_ws_dump [OF json_dumps_start [OF d]])
  have "skip_ws (c # r) \<noteq> []" using c by (auto simp: skip_ws_nonws is_ws_def)
  with loads_of_scan [OF n ws] show ?thesis by simp
qed

end
