(* ===== verification/Spec2Isabelle.thy ===== *)
theory Spec2Isabelle
  imports AccountOnce ArgvSpec SessionProgress JsonRoundtrip
begin

text \<open>
  Verification development of \<open>src/helm/aws-iam/createrole.py\<close>, a script that
  provisions an AWS IAM role, policy and group for an EKS cluster and maps the role into
  Kubernetes. The script parses its command line (\<open>getargs\<close>), resolves the AWS
  account once (\<open>get_aws_account_id\<close>), fills two module-level JSON templates, writes
  them into a working directory and runs \<open>aws\<close> and \<open>eksctl\<close> through
  \<open>run_command\<close>. The released \<open>main\<close> calls only
  \<open>create_identity_mapping\<close>; the three other operations are commented out.

  \<^bold>\<open>Theories and what they model.\<close>
  \<^item> \<open>Prelude\<close>: the exceptions as \<open>error\<close>, the exception-state monad
    \<open>('s, 'a) py = 's \<Rightarrow> (error + 'a) \<times> 's\<close> in which every statement of the
    script is written (\<open>pbind\<close>, \<open>praise\<close>, \<open>py_for\<close>, \<open>py_map\<close>, with the
    \<open>py_run\<close> rewrite collection), and two rule sets over it: \<open>preserves I m\<close>
    (an invariant survives \<open>m\<close>, also when it raises) and \<open>raises_only P m\<close>
    (every exception \<open>m\<close> raises satisfies \<open>P\<close>), one rule per combinator.
  \<^item> \<open>Json\<close>: Python values from JSON, truth testing, \<open>str\<close>/\<open>repr\<close> in
    f-strings, \<open>x[k]\<close> and chained \<open>x[k1]..[kn] = v\<close> with their
    \<open>KeyError\<close>/\<open>IndexError\<close>/\<open>TypeError\<close>.
  \<^item> \<open>PosixPath\<close>: \<open>pathlib\<close> parsing and printing, \<open>/\<close>, and
    \<open>Path.mkdir(parents, exist_ok)\<close> over a filesystem of directories and JSON files.
  \<^item> \<open>Process\<close>: the run's state \<open>pstate\<close> (filesystem, an event log of echoed
    lines, started commands and written files, the globals \<open>AWS_ACCOUNT_ID\<close> and
    \<open>ARGS\<close>, the two templates) and \<open>run_command\<close> (lines 40-43) against an
    environment \<open>T\<close> that answers each command, given the commands started before.
  \<^item> \<open>Account\<close>: \<open>get_aws_account_id\<close> (lines 46-57) and its memoisation.
  \<^item> \<open>Iam\<close>: the templates and \<open>create_aws_role\<close>, \<open>XXXcreate_aws_policy\<close>,
    \<open>create_aws_group\<close>, \<open>create_identity_mapping\<close> (lines 60-158).
  \<^item> \<open>Cli\<close>: \<open>getargs\<close> after parsing (lines 196-204), \<open>main\<close> (207-218) and
    the exit status of \<open>__main__\<close> (221-222).
  \<^item> \<open>Argv\<close>: \<open>parser.parse_args()\<close> (lines 162-194) as CPython 3.11's
    \<open>argparse\<close> runs it on this parser, and \<open>main_argv\<close>/\<open>run_script_argv\<close>,
    the script from \<open>sys.argv\<close> to its exit status. The model was compared with the
    real \<open>argparse\<close> on several hundred random command lines.
  \<^item> \<open>ArgvSpec\<close>: the parser against simpler descriptions: abbreviated long options,
    and \<open>spec_parse\<close>, the declarative reading of the spec's command-line surface
    (section 6) over lists of \<open>cli_item\<close>s, with \<open>after_items\<close> the closed form
    of the parser state that links the two.
  \<^item> \<open>Session\<close>: \<open>op\<close> and \<open>exec_op\<close>, the four operations as steps, and
    the inductive \<open>reachable\<close>: a successful \<open>getargs\<close> from a well-formed
    filesystem, then any sequence of operations with any results (the released
    \<open>main\<close>, or \<open>main\<close> with its disabled calls enabled in any order).
  \<^item> \<open>AccountOnce\<close>: memoisation over whole sessions.
  \<^item> \<open>SessionProgress\<close>: progress of sessions in a cooperative environment.
  \<^item> \<open>JsonText\<close>: CPython 3.11's \<open>json\<close> text, as \<open>json.dump\<close> (lines 68, 88, 114) writes
    it: \<open>json_dumps\<close> (ASCII escapes, the default separators, the 4300-digit limit of
    \<open>int\<close> to \<open>str\<close>); and \<open>json_loads\<close>, the decoder behind line 56 (the scanner
    \<open>scan_once_unicode\<close> with fuel, strict strings with surrogate pairs, number
    matching, last-wins dictionaries, the trailing-data check), which the operations do
    not call: they receive the identity check's output already decoded.
  \<^item> \<open>JsonRoundtrip\<close>: library lemmas: the printed text of a document scans back into it,
    so keeping JSON values in the model's files loses nothing for the documents the script
    writes.

  \<^bold>\<open>What is shown.\<close>
  \<^item> Functional behaviour of every operation on its success branch, and of \<open>main\<close>
    end to end (C1, C4, C5, C15, C22); the error branches: invalid user name, failing or
    unparsable identity check, blocked working directory, directory in place of the
    policy file, missing \<open>-u\<close> (C2, C6, C7, C16, C17, C21).
  \<^item> Memoisation of the account: one identity check for many lookups, its gap for falsy
    accounts (C3, C8); in every reachable session, whatever the environment answers, the
    identity check is never started again after a truthy answer (C11), and at most once
    when it always answers the same (C13).
  \<^item> Invariants of every reachable session by rule induction: every command is echoed
    just before it starts, the mutated templates always yield the fresh documents (C9,
    C10); \<open>ARGS\<close> and the working directory stay valid and the only files written are
    the two policy files of the working directory (C12); \<open>getargs\<close> is idempotent on
    the directory (C14).
  \<^item> Round trip: \<open>parse_args\<close> on the rendered command line (C18). The parser always
    yields user names (C19); \<open>--help\<close> exits 0 before any effect (C20); the exit status
    is 2 exactly for \<open>argparse\<close> errors and, once the working directory exists, for a bad
    user name (C23, with the \<open>raises_only\<close> rules showing that everything else gives 1).
  \<^item> Equivalences: an abbreviated long option parses as the full one (C24); the
    user-name loop of \<open>getargs\<close> equals the spec's declarative rule (C26).
  \<^item> Refinement: on every command line of the spec's forms, in any order,
    \<open>parse_args\<close> returns exactly the configuration \<open>spec_parse\<close> describes, and
    fails exactly when it describes none (C25).
  \<^item> Progress: with every executable present and a working identity check, the
    identity-mapping step of \<open>main\<close> returns normally from every reachable state
    and leads to a reachable state (C27).
  \<^item> The script from \<open>sys.argv\<close> (C28, C29), and the exact text of the trust policy
    that \<open>create_aws_role\<close> writes for \<open>aws iam create-role\<close> (C30).

  \<^bold>\<open>Loops and termination.\<close> Every loop of the script runs over a finite list
  (\<open>py_for\<close>, \<open>py_map\<close>); \<open>path_mkdir\<close> recurses on the parent path,
  \<open>consume_opt\<close> on the explicit argument of combined flags, \<open>consume\<close> on the
  remaining tokens, each with a measure, so every definition is total and no fuel is
  needed. The one exception is the library's JSON scanner, whose mutual recursion over
  nested arrays and objects is bounded by fuel: \<open>json_loads\<close> gives it one unit more
  than twice the length of the text, which is enough on every text
  (\<open>json_loads_terminates\<close>): every step consumes a character, so a value read from a
  text of length \<open>n\<close> needs at most \<open>2 n\<close> units (\<open>scan_fuel\<close>); more fuel never
  changes the result (\<open>scan_value_mono\<close>).

  \<^bold>\<open>Not modelled.\<close> The operations keep the JSON value in the model's files and
  receive the identity check's output already decoded (\<open>json_loads\<close> describes that
  decoding but is not composed into \<open>fetch_account\<close>, since floats and text above
  U+00FF, which it reports as \<open>Unmodelled\<close>, have no value in the model). Within JSON:
  the recursion limit of deeply nested texts, and the partial file \<open>json.dump\<close> leaves
  when it raises halfway. Also not modelled: the help and usage text \<open>argparse\<close>
  prints; symlinks, \<open>..\<close> and the current directory in paths; the unused imports
  \<open>yaml\<close> and \<open>sre_parse.State\<close>, which only matter at import time; the behaviour of
  AWS and EKS themselves.
\<close>

subsection \<open>From the command line to the exit status\<close>

text \<open>
  C28: the whole script, composed from its parts. For every command line of the spec's
  forms (account name and \<open><option> <value>\<close> pairs in any order) that the spec
  reads as a configuration \<open>ns\<close>, with valid user names, room for the working
  directory, an identity check that exits 0 with an \<open>Account\<close> and any outcome of
  \<open>eksctl\<close>: \<open>argparse\<close> yields \<open>ns\<close>, \<open>getargs\<close> creates the directory, and
  the script exits 0 having run exactly the identity check and the identity mapping for
  role \<open>eks-<account>-role\<close>, each echoed first.
\<close>

theorem run_script_argv_end_to_end:
  assumes items: "\<forall>it \<in> set its. item_ok it" and sp: "spec_parse its = Some ns"
    and wf: "fs_wf (init_state ds fls)"
    and room: "\<forall>q \<in> set (parse_path (ns_workingdir ns) # ancestors (parse_path (ns_workingdir ns))).
                 fls q = None"
    and valid: "\<forall>u \<in> set (ns_usernames ns). valid_username u"
    and ident: "T [] identity_cmd = Completed 0 (Some doc)"
      "py_getitem doc (KStr ''Account'') = Inr acct"
    and eks: "T [identity_cmd]
      (mapping_cmd (ns_clustername ns) (role_arn acct (role_name (ns_accountname ns)))
         (eks_username (ns_accountname ns))) = Completed rc out"
  shows "\<exists>s'. run_script_argv T (concat (map render_item its)) (init_state ds fls) = (0, s') \<and>
    log s' = [Stdout (echo_line identity_cmd), Exec identity_cmd,
              Stdout (echo_line (mapping_cmd (ns_clustername ns)
                 (role_arn acct (role_name (ns_accountname ns))) (eks_username (ns_accountname ns)))),
              Exec (mapping_cmd (ns_clustername ns)
                 (role_arn acct (role_name (ns_accountname ns))) (eks_username (ns_accountname ns)))]"
proof -
  have "result_opt (finish_parse (after_items True its ap_init)) = Some ns"
    using finish_after_items [of its] sp by simp
  then have "parse_argv (concat (map render_item its)) = Inr ns"
    using parse_argv_items [OF items] by (simp add: result_opt_def split: sum.splits)
  then show ?thesis
    using main_runs [OF wf room valid ident eks]
    by (simp add: run_script_argv_def main_argv_def parse_args_def exit_code_def py_run)
qed

text \<open>
  C29: the released script never creates, changes or removes a file, whatever the
  command line, the initial state and the answers of the external commands: the
  policy documents are only written by the operations whose calls are commented out.
  Only the directories (the working directory) and the log can change.
\<close>

theorem run_script_argv_no_files: "files (snd (run_script_argv T argv s)) = files s"
proof (cases "parse_argv argv")
  case (Inl e)
  then show ?thesis by (simp add: run_script_argv_def main_argv_def parse_args_def py_run)
next
  case (Inr ns)
  obtain r s' where m: "main T ns s = (r, s')" by fastforce
  have "files s' = files s"
    using preserves_files_main [of "files s" T ns] refl m by (rule preservesD)
  with Inr m show ?thesis by (simp add: run_script_argv_def main_argv_def parse_args_def py_run)
qed

subsection \<open>The text of the trust policy on disk\<close>

lemma role_policy_doc_text:
  \<open>json_dumps (role_policy_doc arns) =
   Inr (''{"Version": "2012-10-17", "Statement": [{"Effect": "Allow", "Action": "sts:AssumeRole", "Principal": {"AWS": ['' @
        join_with '', '' (map encode_basestring_ascii arns) @ '']}, "Condition": {}}]}'')\<close>
  by (simp add: role_policy_doc_def comp_def seq_text_map_Inr encode_plain)

text \<open>
  C30: the bytes \<open>aws iam create-role\<close> reads. When \<open>create_aws_role\<close> succeeds
  under the conditions of C4 with an account string, \<open>role_policy.json\<close> holds a
  document whose \<open>json.dump\<close> text is exactly CPython's: the keys in the order of
  \<open>ROLE_TEMPLATE\<close>, the default separators, and one ASCII-escaped principal
  \<open>arn:aws:iam::<account>:user/<name>\<close> per user, in order.
\<close>

theorem role_policy_file_text:
  assumes args: "ARGS s = Some a" and users: "usernames a \<noteq> []"
    and acct: "get_aws_account_id T s = (Inr (JStr acc), s1)" "acc \<noteq> []"
    and tmpl: "role_template_ok (role_template s)"
    and dir: "set (ancestors (path_div (workingdir a) ''role_policy.json'')) \<subseteq> dirs s"
      "path_div (workingdir a) ''role_policy.json'' \<notin> dirs s"
    and tool: "T (calls_of (log s1))
                 (create_role_cmd rolename (path_div (workingdir a) ''role_policy.json'')) = Completed rc out"
  shows \<open>\<exists>s' d. create_aws_role T rolename s = (Inr (), s') \<and>
           files s' (path_div (workingdir a) ''role_policy.json'') = Some d \<and>
           json_dumps d =
             Inr (''{"Version": "2012-10-17", "Statement": [{"Effect": "Allow", "Action": "sts:AssumeRole", "Principal": {"AWS": ['' @
                  join_with '', '' (map (\<lambda>u. encode_basestring_ascii (''arn:aws:iam::'' @ acc @ '':user/'' @ u)) (usernames a)) @
                  '']}, "Condition": {}}]}'')\<close>
proof -
  have t: "py_truthy (JStr acc)" using acct(2) by simp
  have run: "create_aws_role T rolename s =
    (let rolef = path_div (workingdir a) ''role_policy.json'';
         doc = role_policy_doc (map (user_arn (JStr acc)) (usernames a));
         cmd = create_role_cmd rolename rolef
     in (Inr (), s1\<lparr>role_template := doc, files := (files s1)(rolef \<mapsto> doc),
                    log := log s1 @ [WriteJson rolef doc, Stdout (echo_line cmd), Exec cmd]\<rparr>))"
    using args users acct(1) t tmpl dir tool by (rule create_aws_role_result)
  have arn: "user_arn (JStr acc) = (\<lambda>u. ''arn:aws:iam::'' @ acc @ '':user/'' @ u)"
    by (simp add: user_arn_def fun_eq_iff)
  show ?thesis
    using run by (simp add: Let_def role_policy_doc_text arn comp_def)
qed

theorem role_policy_file_text_witness:
  \<open>\<exists>s' d. create_aws_role
          (\<lambda>h c. if c = identity_cmd then Completed 0 (Some (JObj [(KStr ''Account'', JStr ''123456789012'')]))
                  else Completed 0 None)
          ''eks-team1-role''
          ((init_state (insert \<lparr>root = [], tail = [''tmp'']\<rparr> root_dirs) Map.empty)
             \<lparr>ARGS := Some \<lparr>accountname = ''team1'', clustername = ''prod'', region = None,
                             usernames = [''alice''], workingdir = \<lparr>root = [], tail = [''tmp'']\<rparr>\<rparr>\<rparr>) = (Inr (), s') \<and>
     files s' \<lparr>root = [], tail = [''tmp'', ''role_policy.json'']\<rparr> = Some d \<and>
     json_dumps d =
       Inr ''{"Version": "2012-10-17", "Statement": [{"Effect": "Allow", "Action": "sts:AssumeRole", "Principal": {"AWS": ["arn:aws:iam::123456789012:user/alice"]}, "Condition": {}}]}''\<close>
proof -
  let ?T = "\<lambda>h c. if c = identity_cmd then Completed 0 (Some (JObj [(KStr ''Account'', JStr ''123456789012'')]))
                  else Completed 0 None"
  let ?a = "\<lparr>accountname = ''team1'', clustername = ''prod'', region = None,
             usernames = [''alice''], workingdir = \<lparr>root = [], tail = [''tmp'']\<rparr>\<rparr>"
  let ?s0 = "(init_state (insert \<lparr>root = [], tail = [''tmp'']\<rparr> root_dirs) Map.empty)\<lparr>ARGS := Some ?a\<rparr>"
  let ?s1 = "?s0\<lparr>log := [Stdout (echo_line identity_cmd), Exec identity_cmd],
                 AWS_ACCOUNT_ID := Some (JStr ''123456789012'')\<rparr>"
  have acct: "get_aws_account_id ?T ?s0 = (Inr (JStr ''123456789012''), ?s1)"
    by (simp add: get_account_uncached fetch_account_ok init_state_def py_truthy_opt_def)
  have rolef: "path_div \<lparr>root = [], tail = [''tmp'']\<rparr> ''role_policy.json'' =
               \<lparr>root = [], tail = [''tmp'', ''role_policy.json'']\<rparr>"
    by (simp add: path_div_def posix_join_def path_str_def parse_path_def splitroot_def slash_def)
  show ?thesis
    using role_policy_file_text [of ?s0 ?a ?T "''123456789012''" ?s1 "''eks-team1-role''" 0 None] acct
    by (simp add: rolef init_state_def root_dirs_def ancestors_def create_role_cmd_def
        identity_cmd_def encode_plain)
qed

subsection \<open>Witnesses for the operations\<close>

theorem create_aws_role_ok_witness:
  "fst (create_aws_role
          (\<lambda>h c. if c = identity_cmd then Completed 0 (Some (JObj [(KStr ''Account'', JStr ''123456789012'')]))
                  else Completed 0 None)
          ''eks-team1-role''
          ((init_state (insert \<lparr>root = [], tail = [''tmp'']\<rparr> root_dirs) Map.empty)
             \<lparr>ARGS := Some \<lparr>accountname = ''team1'', clustername = ''prod'', region = None,
                             usernames = [''alice'', ''bob''], workingdir = \<lparr>root = [], tail = [''tmp'']\<rparr>\<rparr>\<rparr>))
     = Inr () \<and>
   files (snd (create_aws_role
          (\<lambda>h c. if c = identity_cmd then Completed 0 (Some (JObj [(KStr ''Account'', JStr ''123456789012'')]))
                  else Completed 0 None)
          ''eks-team1-role''
          ((init_state (insert \<lparr>root = [], tail = [''tmp'']\<rparr> root_dirs) Map.empty)
             \<lparr>ARGS := Some \<lparr>accountname = ''team1'', clustername = ''prod'', region = None,
                             usernames = [''alice'', ''bob''], workingdir = \<lparr>root = [], tail = [''tmp'']\<rparr>\<rparr>\<rparr>)))
     \<lparr>root = [], tail = [''tmp'', ''role_policy.json'']\<rparr> =
   Some (role_policy_doc [''arn:aws:iam::123456789012:user/alice'', ''arn:aws:iam::123456789012:user/bob''])"
proof -
  let ?T = "\<lambda>h c. if c = identity_cmd then Completed 0 (Some (JObj [(KStr ''Account'', JStr ''123456789012'')]))
                  else Completed 0 None"
  let ?a = "\<lparr>accountname = ''team1'', clustername = ''prod'', region = None,
             usernames = [''alice'', ''bob''], workingdir = \<lparr>root = [], tail = [''tmp'']\<rparr>\<rparr>"
  let ?s0 = "(init_state (insert \<lparr>root = [], tail = [''tmp'']\<rparr> root_dirs) Map.empty)\<lparr>ARGS := Some ?a\<rparr>"
  let ?acct = "JStr ''123456789012''"
  let ?s1 = "?s0\<lparr>log := [Stdout (echo_line identity_cmd), Exec identity_cmd], AWS_ACCOUNT_ID := Some ?acct\<rparr>"
  have acct: "get_aws_account_id ?T ?s0 = (Inr ?acct, ?s1)"
    by (simp add: get_account_uncached fetch_account_ok init_state_def py_truthy_opt_def)
  have rolef: "path_div \<lparr>root = [], tail = [''tmp'']\<rparr> ''role_policy.json'' =
               \<lparr>root = [], tail = [''tmp'', ''role_policy.json'']\<rparr>"
    by (simp add: path_div_def posix_join_def path_str_def parse_path_def splitroot_def slash_def)
  show ?thesis
    using create_aws_role_ok [of ?s0 ?a ?T ?acct ?s1 "''eks-team1-role''" 0 None] acct
    by (simp add: rolef init_state_def root_dirs_def ancestors_def create_role_cmd_def
        identity_cmd_def user_arn_def Let_def)
qed

theorem create_aws_group_ok_witness:
  "calls_of (log (snd (create_aws_group (\<lambda>h c. Completed 1 None)
          ''eks-team1-group'' ''eks-team1-role'' ''eks-team1-assume-role-policy''
          ((init_state (insert \<lparr>root = [], tail = [''tmp'']\<rparr> root_dirs) Map.empty)
             \<lparr>AWS_ACCOUNT_ID := Some (JStr ''123456789012''),
              ARGS := Some \<lparr>accountname = ''team1'', clustername = ''prod'', region = None,
                             usernames = [''alice'', ''bob''], workingdir = \<lparr>root = [], tail = [''tmp'']\<rparr>\<rparr>\<rparr>)))) =
   [[''aws'', ''iam'', ''create-group'', ''--group-name'', ''eks-team1-group''],
    [''aws'', ''iam'', ''put-group-policy'', ''--group-name'', ''eks-team1-group'',
     ''--policy-name'', ''eks-team1-assume-role-policy'',
     ''--policy-document'', ''file://tmp/assume_role_policy.json''],
    [''aws'', ''iam'', ''add-user-to-group'', ''--group-name'', ''eks-team1-group'', ''--user-name'', ''alice''],
    [''aws'', ''iam'', ''add-user-to-group'', ''--group-name'', ''eks-team1-group'', ''--user-name'', ''bob'']]"
proof -
  let ?a = "\<lparr>accountname = ''team1'', clustername = ''prod'', region = None,
             usernames = [''alice'', ''bob''], workingdir = \<lparr>root = [], tail = [''tmp'']\<rparr>\<rparr>"
  let ?s0 = "(init_state (insert \<lparr>root = [], tail = [''tmp'']\<rparr> root_dirs) Map.empty)
               \<lparr>AWS_ACCOUNT_ID := Some (JStr ''123456789012''), ARGS := Some ?a\<rparr>"
  have policyf: "path_div \<lparr>root = [], tail = [''tmp'']\<rparr> ''assume_role_policy.json'' =
               \<lparr>root = [], tail = [''tmp'', ''assume_role_policy.json'']\<rparr>"
    by (simp add: path_div_def posix_join_def path_str_def parse_path_def splitroot_def slash_def)
  show ?thesis
    using create_aws_group_ok [of ?s0 ?a "JStr ''123456789012''" "\<lambda>h c. Completed 1 None"
        "''eks-team1-group''" "''eks-team1-role''" "''eks-team1-assume-role-policy''"]
    by (simp add: policyf init_state_def root_dirs_def ancestors_def create_group_cmd_def
        put_group_policy_cmd_def add_user_cmd_def path_str_def slash_def Let_def)
qed

theorem XXXcreate_aws_policy_ok_witness:
  "calls_of (log (snd (XXXcreate_aws_policy (\<lambda>h c. NotFound)
          ''eks-team1-assume-role-policy'' ''eks-team1-role''
          ((init_state (insert \<lparr>root = [], tail = [''tmp'']\<rparr> root_dirs) Map.empty)
             \<lparr>AWS_ACCOUNT_ID := Some (JStr ''123456789012''),
              ARGS := Some \<lparr>accountname = ''team1'', clustername = ''prod'', region = None,
                             usernames = [''alice''], workingdir = \<lparr>root = [], tail = [''tmp'']\<rparr>\<rparr>\<rparr>)))) = [] \<and>
   files (snd (XXXcreate_aws_policy (\<lambda>h c. NotFound)
          ''eks-team1-assume-role-policy'' ''eks-team1-role''
          ((init_state (insert \<lparr>root = [], tail = [''tmp'']\<rparr> root_dirs) Map.empty)
             \<lparr>AWS_ACCOUNT_ID := Some (JStr ''123456789012''),
              ARGS := Some \<lparr>accountname = ''team1'', clustername = ''prod'', region = None,
                             usernames = [''alice''], workingdir = \<lparr>root = [], tail = [''tmp'']\<rparr>\<rparr>\<rparr>)))
     \<lparr>root = [], tail = [''tmp'', ''assume_role_policy.json'']\<rparr> =
   Some (assume_role_policy_doc ''arn:aws:iam::123456789012:role/eks-team1-role'')"
proof -
  let ?a = "\<lparr>accountname = ''team1'', clustername = ''prod'', region = None,
             usernames = [''alice''], workingdir = \<lparr>root = [], tail = [''tmp'']\<rparr>\<rparr>"
  let ?s0 = "(init_state (insert \<lparr>root = [], tail = [''tmp'']\<rparr> root_dirs) Map.empty)
               \<lparr>AWS_ACCOUNT_ID := Some (JStr ''123456789012''), ARGS := Some ?a\<rparr>"
  have policyf: "path_div \<lparr>root = [], tail = [''tmp'']\<rparr> ''assume_role_policy.json'' =
               \<lparr>root = [], tail = [''tmp'', ''assume_role_policy.json'']\<rparr>"
    by (simp add: path_div_def posix_join_def path_str_def parse_path_def splitroot_def slash_def)
  show ?thesis
    using XXXcreate_aws_policy_ok [of ?s0 ?a "JStr ''123456789012''" "\<lambda>h c. NotFound"
        "''eks-team1-assume-role-policy''" "''eks-team1-role''"]
    by (simp add: policyf init_state_def root_dirs_def ancestors_def role_arn_def Let_def)
qed

theorem create_aws_role_file_is_dir_witness:
  "fst (create_aws_role (\<lambda>h c. Completed 0 None) ''eks-team1-role''
          ((init_state (insert \<lparr>root = [], tail = [''tmp'', ''role_policy.json'']\<rparr>
                          (insert \<lparr>root = [], tail = [''tmp'']\<rparr> root_dirs)) Map.empty)
             \<lparr>AWS_ACCOUNT_ID := Some (JStr ''123456789012''),
              ARGS := Some \<lparr>accountname = ''team1'', clustername = ''prod'', region = None,
                             usernames = [''alice''], workingdir = \<lparr>root = [], tail = [''tmp'']\<rparr>\<rparr>\<rparr>)) =
   Inl (IsADirectoryError ''tmp/role_policy.json'')"
proof -
  let ?a = "\<lparr>accountname = ''team1'', clustername = ''prod'', region = None,
             usernames = [''alice''], workingdir = \<lparr>root = [], tail = [''tmp'']\<rparr>\<rparr>"
  let ?s0 = "(init_state (insert \<lparr>root = [], tail = [''tmp'', ''role_policy.json'']\<rparr>
                          (insert \<lparr>root = [], tail = [''tmp'']\<rparr> root_dirs)) Map.empty)
             \<lparr>AWS_ACCOUNT_ID := Some (JStr ''123456789012''), ARGS := Some ?a\<rparr>"
  have rolef: "path_div \<lparr>root = [], tail = [''tmp'']\<rparr> ''role_policy.json'' =
               \<lparr>root = [], tail = [''tmp'', ''role_policy.json'']\<rparr>"
    by (simp add: path_div_def posix_join_def path_str_def parse_path_def splitroot_def slash_def)
  have acct: "get_aws_account_id (\<lambda>h c. Completed 0 None) ?s0 = (Inr (JStr ''123456789012''), ?s0)"
    by (rule get_account_cached) simp_all
  show ?thesis
    using create_aws_role_file_is_dir [OF _ _ acct, of ?a] 
    by (simp add: rolef init_state_def root_dirs_def ancestors_def path_str_def slash_def)
qed

theorem run_script_argv_end_to_end_witness:
  "\<exists>s'. run_script_argv
      (\<lambda>h c. if c = identity_cmd then Completed 0 (Some (JObj [(KStr ''Account'', JStr ''123456789012'')]))
              else Completed 0 None)
      [''-c'', ''prod'', ''team1'', ''-u'', ''dave'']
      (init_state root_dirs Map.empty) = (0, s') \<and>
    log s' = [Stdout ''Running: aws sts get-caller-identity'', Exec [''aws'', ''sts'', ''get-caller-identity''],
              Stdout ''Running: eksctl create iamidentitymapping --cluster prod --arn arn:aws:iam::123456789012:role/eks-team1-role --username eks-team1'',
              Exec [''eksctl'', ''create'', ''iamidentitymapping'', ''--cluster'', ''prod'',
                    ''--arn'', ''arn:aws:iam::123456789012:role/eks-team1-role'', ''--username'', ''eks-team1'']]"
proof -
  let ?T = "\<lambda>h c. if c = identity_cmd then Completed 0 (Some (JObj [(KStr ''Account'', JStr ''123456789012'')]))
              else Completed 0 None"
  let ?its = "[Option ''-c'' ''prod'', Positional ''team1'', Option ''-u'' ''dave'']"
  let ?ns = "\<lparr>ns_accountname = ''team1'', ns_clustername = ''prod'', ns_region = None,
       ns_usernames = [''dave''], ns_workingdir = DEFAULT_WORKING_DIR\<rparr>"
  have sp: "spec_parse ?its = Some ?ns"
    by (simp add: spec_parse_def lookup_opt_def parser_options_def last_or_def)
  have items: "\<forall>it \<in> set ?its. item_ok it"
    by (simp add: plain_def lookup_opt_def parser_options_def)
  show ?thesis
    using run_script_argv_end_to_end [OF items sp fs_wf_init_root_dirs, of ?T
        "JObj [(KStr ''Account'', JStr ''123456789012'')]" "JStr ''123456789012''" 0 None]
    by (simp add: parse_path_default_workingdir identity_cmd_def valid_username_def mapping_cmd_def
        role_arn_def role_name_def eks_username_def echo_line_def)
qed

end
